(* ===== verification/Coverage_Prelude.thy ===== *)
theory Coverage_Prelude
  imports Complex_Main "HOL-Library.Sublist"
begin

text \<open>
  Shared vocabulary of the development: the types of cells, boolean grids and world
  points used by \<open>src/src/spiral_stc.cpp\<close>, the grid accessors that model
  \<open>grid[y][x]\<close> reads and \<open>visited[y][x] = eNodeVisited\<close> writes on a
  \<open>std::vector<std::vector<bool>>\<close>, the count of open cells that serves as the
  termination measure of the planner, and the collection \<open>grid_simps\<close> of the
  rewrite rules these accessors satisfy.
\<close>

named_theorems grid_simps "rewrite rules for reads and writes of boolean grids"

type_synonym cell = "int \<times> int"
  \<comment> \<open>\<open>Point_t\<close> and \<open>MapLocation\<close>: (x, y) of a coverage-grid cell\<close>

type_synonym grid = "bool list list"
  \<comment> \<open>\<open>std::vector<std::vector<bool>>\<close>, indexed \<open>[y][x]\<close>\<close>

type_synonym point = "real \<times> real"
  \<comment> \<open>\<open>geometry_msgs::msg::Point\<close>, (x, y) in world coordinates\<close>

abbreviation eNodeOpen :: bool where "eNodeOpen \<equiv> False"
abbreviation eNodeVisited :: bool where "eNodeVisited \<equiv> True"

record costmap =
  size_x :: nat
  size_y :: nat
  resolution :: real
  origin_x :: real
  origin_y :: real

subsection \<open>Reading and writing a grid\<close>

definition grid_at :: "grid \<Rightarrow> cell \<Rightarrow> bool" where
  "grid_at g c = g ! nat (snd c) ! nat (fst c)"

definition grid_mark :: "grid \<Rightarrow> cell \<Rightarrow> grid" where
  "grid_mark g c = g[nat (snd c) := (g ! nat (snd c))[nat (fst c) := True]]"

definition mark_cells :: "grid \<Rightarrow> cell list \<Rightarrow> grid" where
  "mark_cells g cs = fold (\<lambda>c h. grid_mark h c) cs g"

definition grid_dims :: "grid \<Rightarrow> nat \<Rightarrow> nat \<Rightarrow> bool" where
  "grid_dims g w h \<longleftrightarrow> length g = h \<and> list_all (\<lambda>row. length row = w) g"

definition in_dims :: "nat \<Rightarrow> nat \<Rightarrow> cell \<Rightarrow> bool" where
  "in_dims w h c \<longleftrightarrow> 0 \<le> fst c \<and> fst c < int w \<and> 0 \<le> snd c \<and> snd c < int h"

definition open_count :: "grid \<Rightarrow> nat" where
  "open_count g = sum_list (map (\<lambda>row. count_list row eNodeOpen) g)"

definition adjacent :: "cell \<Rightarrow> cell \<Rightarrow> bool" where
  "adjacent a b \<longleftrightarrow> \<bar>fst a - fst b\<bar> + \<bar>snd a - snd b\<bar> = 1"

definition row_major :: "nat \<Rightarrow> nat \<Rightarrow> cell list" where
  "row_major w h = [(int x, int y). y \<leftarrow> [0..<h], x \<leftarrow> [0..<w]]"
  \<comment> \<open>the cells of a \<open>w\<close>-by-\<open>h\<close> grid, row by row\<close>

fun four_connected :: "cell list \<Rightarrow> bool" where
  "four_connected (a # b # cs) \<longleftrightarrow> adjacent a b \<and> four_connected (b # cs)"
| "four_connected _ \<longleftrightarrow> True"

subsection \<open>Sorting and \<open>std::unique\<close>\<close>

text \<open>
  The source deduplicates index vectors with \<open>std::sort\<close> followed by
  \<open>std::unique\<close>, which drops adjacent repeats: \<open>remdups_adj (sort xs)\<close>. On a
  sorted list that is the sorted list of its distinct elements.
\<close>

lemma distinct_remdups_adj_sorted:
  "sorted xs \<Longrightarrow> distinct (remdups_adj xs)"
proof (induction xs rule: remdups_adj.induct)
  case (3 x y xs)
  show ?case
  proof (cases "x = y")
    case True
    with "3.prems" "3.IH"(1) show ?thesis by simp
  next
    case False
    with "3.prems" have "x < y" and "sorted (y # xs)" by auto
    moreover from this have "\<forall>z \<in> set (y # xs). x < z" by auto
    ultimately show ?thesis using False "3.IH"(2) by auto
  qed
qed simp_all

lemma sort_unique_eq:
  "remdups_adj (sort xs) = sorted_list_of_set (set xs)"
  by (rule sorted_distinct_set_unique)
     (simp_all add: distinct_remdups_adj_sorted)

subsection \<open>Grid lemmas\<close>

lemma row_major_in_dims: "c \<in> set (row_major w h) \<longleftrightarrow> in_dims w h c"
proof
  obtain x y where c: "c = (x, y)" by fastforce
  assume "in_dims w h c"
  with c have "0 \<le> x" "nat x < w" "0 \<le> y" "nat y < h" by (auto simp: in_dims_def)
  then show "c \<in> set (row_major w h)" unfolding row_major_def c
    by (simp, intro bexI [of _ "nat y"] rev_image_eqI [of "nat x"]) simp_all
qed (auto simp: row_major_def in_dims_def)

lemma length_filter_strengthen:
  assumes "x \<in> set xs" and "P x" and "\<not> Q x"
  shows "length (filter (\<lambda>c. P c \<and> Q c) xs) < length (filter P xs)"
proof -
  have "filter (\<lambda>c. P c \<and> Q c) xs = filter Q (filter P xs)" by (simp add: filter_filter conj_commute)
  moreover have "length (filter Q (filter P xs)) < length (filter P xs)"
    using assms by (intro length_filter_less) simp_all
  ultimately show ?thesis by simp
qed

lemma nth_nth_update_row [grid_simps]:
  "xs[i := (xs ! i)[j := v]] ! k ! l =
   (if k = i \<and> l = j \<and> i < length xs \<and> j < length (xs ! i) then v else xs ! k ! l)"
  by (cases "i < length xs"; cases "j < length (xs ! i)")
     (auto simp: nth_list_update list_update_beyond not_less)

lemma grid_at_mark:
  "grid_at (grid_mark g c) d =
   (if nat (snd d) = nat (snd c) \<and> nat (fst d) = nat (fst c) \<and> nat (snd c) < length g
       \<and> nat (fst c) < length (g ! nat (snd c)) then True else grid_at g d)"
  by (simp add: grid_at_def grid_mark_def nth_nth_update_row)

lemma grid_at_mark_same [grid_simps]:
  "grid_dims g w h \<Longrightarrow> in_dims w h c \<Longrightarrow> grid_at (grid_mark g c) c"
proof -
  assume g: "grid_dims g w h" and c: "in_dims w h c"
  then have "nat (snd c) < length g" by (auto simp: grid_dims_def in_dims_def)
  moreover from g c this have "nat (fst c) < length (g ! nat (snd c))"
    by (auto simp: grid_dims_def in_dims_def list_all_length)
  ultimately show ?thesis by (simp add: grid_at_mark)
qed

lemma grid_at_mark_other [grid_simps]:
  "in_dims w h c \<Longrightarrow> in_dims w h d \<Longrightarrow> d \<noteq> c \<Longrightarrow> grid_at (grid_mark g c) d = grid_at g d"
proof -
  assume c: "in_dims w h c" and d: "in_dims w h d" and ne: "d \<noteq> c"
  then have "nat (fst d) \<noteq> nat (fst c) \<or> nat (snd d) \<noteq> nat (snd c)"
    by (cases c, cases d) (auto simp: in_dims_def)
  then show ?thesis by (auto simp: grid_at_mark)
qed

lemma grid_at_mark_mono [grid_simps]:
  "grid_at g d \<Longrightarrow> grid_at (grid_mark g c) d"
  by (simp add: grid_at_mark)

lemma grid_dims_mark [grid_simps]:
  "grid_dims (grid_mark g c) w h = grid_dims g w h"
proof -
  have "length ((g ! i)[j := True]) = length (g ! i)" for i j by simp
  then show ?thesis
    by (cases "nat (snd c) < length g")
       (auto simp: grid_dims_def grid_mark_def list_all_length nth_list_update)
qed

lemma grid_dims_mark_cells [grid_simps]:
  "grid_dims (mark_cells g cs) w h = grid_dims g w h"
  by (induction cs arbitrary: g) (auto simp: mark_cells_def grid_dims_mark)

lemma grid_at_mark_cells_mono [grid_simps]:
  "grid_at g d \<Longrightarrow> grid_at (mark_cells g cs) d"
  by (induction cs arbitrary: g) (auto simp: mark_cells_def grid_at_mark_mono)

lemma mark_cells_Nil [simp]: "mark_cells g [] = g"
  by (simp add: mark_cells_def)

lemma mark_cells_Cons [simp]: "mark_cells g (c # cs) = mark_cells (grid_mark g c) cs"
  by (simp add: mark_cells_def)

lemma grid_at_mark_cells_in [grid_simps]:
  "grid_dims g w h \<Longrightarrow> list_all (in_dims w h) cs \<Longrightarrow> c \<in> set cs \<Longrightarrow> grid_at (mark_cells g cs) c"
proof (induction cs arbitrary: g)
  case Nil
  then show ?case by simp
next
  case (Cons a cs)
  show ?case
  proof (cases "c = a")
    case True
    with Cons.prems have "grid_at (grid_mark g a) c"
      by (simp add: grid_at_mark_same)
    then show ?thesis by (simp add: grid_at_mark_cells_mono)
  next
    case False
    with Cons.prems have "grid_dims (grid_mark g a) w h" and "list_all (in_dims w h) cs"
      and "c \<in> set cs" by (simp_all add: grid_dims_mark)
    then have "grid_at (mark_cells (grid_mark g a) cs) c" by (rule Cons.IH)
    then show ?thesis by simp
  qed
qed

lemma grid_at_mark_cells_out [grid_simps]:
  "list_all (in_dims w h) cs \<Longrightarrow> in_dims w h d \<Longrightarrow> d \<notin> set cs \<Longrightarrow>
   grid_at (mark_cells g cs) d = grid_at g d"
proof (induction cs arbitrary: g)
  case Nil
  then show ?case by simp
next
  case (Cons a cs)
  then have "grid_at (mark_cells (grid_mark g a) cs) d = grid_at (grid_mark g a) d"
    by simp
  also from Cons.prems have "\<dots> = grid_at g d"
    using grid_at_mark_other [of w h a d g] by simp
  finally show ?case by simp
qed

subsection \<open>Counting open cells\<close>

lemma count_list_update_True:
  assumes "i < length xs"
  shows "count_list (xs[i := True]) False + (if xs ! i then 0 else 1) = count_list xs False"
proof -
  have eq: "xs = take i xs @ xs ! i # drop (Suc i) xs" using assms by (simp add: id_take_nth_drop)
  have "count_list xs False = count_list (take i xs @ xs ! i # drop (Suc i) xs) False"
    using eq by (rule arg_cong)
  then have c: "count_list xs False = count_list (take i xs) False + (if xs ! i then 0 else 1)
                                      + count_list (drop (Suc i) xs) False"
    by simp
  have "xs[i := True] = take i xs @ True # drop (Suc i) xs"
    using assms by (rule upd_conv_take_nth_drop)
  then have "count_list (xs[i := True]) False = count_list (take i xs) False + count_list (drop (Suc i) xs) False"
    by simp
  with c show ?thesis by simp
qed

lemma sum_list_map_update:
  assumes "i < length g"
  shows "sum_list (map f (g[i := r])) + f (g ! i) = sum_list (map f g) + (f r :: nat)"
proof -
  have g: "g = take i g @ g ! i # drop (Suc i) g" using assms by (simp add: id_take_nth_drop)
  have u: "g[i := r] = take i g @ r # drop (Suc i) g"
    using assms by (rule upd_conv_take_nth_drop)
  show ?thesis by (subst (2) g, subst u) simp
qed

lemma open_count_mark:
  "open_count (grid_mark g c) + (if nat (snd c) < length g \<and> nat (fst c) < length (g ! nat (snd c))
                                   \<and> \<not> grid_at g c then 1 else 0) = open_count g"
proof (cases "nat (snd c) < length g \<and> nat (fst c) < length (g ! nat (snd c))")
  case True
  let ?y = "nat (snd c)" and ?x = "nat (fst c)"
  have row: "count_list ((g ! ?y)[?x := True]) False + (if g ! ?y ! ?x then 0 else 1)
             = count_list (g ! ?y) False"
    using True by (intro count_list_update_True) simp
  have "open_count (grid_mark g c) + count_list (g ! ?y) False
        = open_count g + count_list ((g ! ?y)[?x := True]) False"
    using sum_list_map_update [of ?y g "\<lambda>row. count_list row False" "(g ! ?y)[?x := True]"] True
    by (simp add: open_count_def grid_mark_def)
  with row have "open_count (grid_mark g c) + (if g ! ?y ! ?x then 0 else 1) = open_count g"
    by linarith
  with True show ?thesis by (simp add: grid_at_def split: if_splits)
next
  case False
  then have "grid_mark g c = g"
    by (auto simp: grid_mark_def list_update_beyond not_less)
  with False show ?thesis by auto
qed

lemma open_count_mark_hit:
  assumes "\<not> grid_at g c" and "grid_at (grid_mark g a) c"
  shows "open_count (grid_mark g a) < open_count g"
proof -
  from assms have idx: "nat (snd c) = nat (snd a) \<and> nat (fst c) = nat (fst a) \<and> nat (snd a) < length g
                   \<and> nat (fst a) < length (g ! nat (snd a))"
    by (auto simp: grid_at_mark split: if_splits)
  with assms(1) have na: "\<not> grid_at g a" by (simp add: grid_at_def)
  have "open_count (grid_mark g a) + (if nat (snd a) < length g \<and> nat (fst a) < length (g ! nat (snd a))
          \<and> \<not> grid_at g a then 1 else 0) = open_count g"
    by (rule open_count_mark)
  with idx na have "open_count (grid_mark g a) + 1 = open_count g" by presburger
  then show ?thesis by linarith
qed

lemma four_connected_nth:
  "four_connected xs \<Longrightarrow> Suc i < length xs \<Longrightarrow> adjacent (xs ! i) (xs ! Suc i)"
proof (induction xs arbitrary: i rule: four_connected.induct)
  case (1 a b cs)
  then show ?case by (cases i) auto
qed auto

lemma adjacent_irrefl [simp]: "\<not> adjacent c c"
  by (simp add: adjacent_def)

lemma four_connected_junction:
  assumes "xs \<noteq> []" and "ys \<noteq> []" and "hd ys = last xs"
  shows "\<not> four_connected (xs @ ys)"
proof
  assume fc: "four_connected (xs @ ys)"
  let ?i = "length xs - 1"
  from assms(1,2) have i: "Suc ?i < length (xs @ ys)" and si: "Suc ?i = length xs"
    by (cases ys; simp)+
  have "(xs @ ys) ! ?i = last xs" using assms(1) by (simp add: nth_append last_conv_nth)
  moreover have "(xs @ ys) ! Suc ?i = hd ys" using assms(2) si by (simp add: nth_append hd_conv_nth)
  ultimately show False using four_connected_nth [OF fc i] assms(3) by simp
qed

end
