(* ===== verification/Costmap_Grid.thy ===== *)
theory Costmap_Grid
  imports Coverage_Prelude
begin

text \<open>
  The coverage grid (\<open>planner_grid\<close>, a \<open>nav2_costmap_2d::Costmap2D\<close>) as the planner
  uses it: cell centres in world coordinates (\<open>mapToWorld\<close>), the unclamped inverse
  (\<open>worldToMapNoBounds\<close>), row-major index packing (\<open>getIndex\<close>,
  \<open>indexToCells\<close>), and the bounds test \<open>SpiralSTC::checkMapBounds\<close> of
  \<open>src/src/spiral_stc.cpp\<close> with the extremes \<open>getSizeInCellsX() - 1\<close> the
  callers pass to it. The costmap operations live in the nav2 library, outside this
  repository; they are modelled from the specification's GridModel (cell centre
  \<open>origin + (x + 0.5) * tile\<close>, floor division back). The lemmas show the bounds test
  is the rectangle \<open>[0, W) \<times> [0, H)\<close>, the two index conversions are inverse on
  that rectangle, and a cell centre converts back to its own cell.
\<close>

definition mapToWorld :: "costmap \<Rightarrow> int \<Rightarrow> int \<Rightarrow> point" where
  "mapToWorld cm mx my =
     (origin_x cm + (of_int mx + 1 / 2) * resolution cm,
      origin_y cm + (of_int my + 1 / 2) * resolution cm)"

definition worldToMapNoBounds :: "costmap \<Rightarrow> point \<Rightarrow> cell" where
  "worldToMapNoBounds cm w =
     (\<lfloor>(fst w - origin_x cm) / resolution cm\<rfloor>, \<lfloor>(snd w - origin_y cm) / resolution cm\<rfloor>)"

definition getIndex :: "costmap \<Rightarrow> cell \<Rightarrow> int" where
  "getIndex cm c = snd c * int (size_x cm) + fst c"

definition indexToCells :: "costmap \<Rightarrow> int \<Rightarrow> cell" where
  "indexToCells cm i = (i mod int (size_x cm), i div int (size_x cm))"

definition cell_max :: "nat \<Rightarrow> int" where
  "cell_max n = int n - 1"
  \<comment> \<open>\<open>int x_max = planner_grid.getSizeInCellsX() - 1\<close>\<close>

definition checkMapBounds :: "int \<Rightarrow> int \<Rightarrow> int \<Rightarrow> int \<Rightarrow> bool" where
  "checkMapBounds x y x_max y_max \<longleftrightarrow> \<not> (x < 0 \<or> x > x_max \<or> y < 0 \<or> y > y_max)"

definition map_bounds :: "costmap \<Rightarrow> cell \<Rightarrow> bool" where
  "map_bounds cm c \<longleftrightarrow> checkMapBounds (fst c) (snd c) (cell_max (size_x cm)) (cell_max (size_y cm))"
  \<comment> \<open>the bounds test as every caller in the source applies it\<close>

subsection \<open>Bounds\<close>

lemma map_bounds_in_dims [simp]:
  "map_bounds cm = in_dims (size_x cm) (size_y cm)"
  by (auto simp: fun_eq_iff map_bounds_def checkMapBounds_def cell_max_def in_dims_def)

lemma map_bounds_empty:
  "size_x cm = 0 \<Longrightarrow> \<not> map_bounds cm c"
  by (simp add: in_dims_def)

subsection \<open>Index packing\<close>

lemma indexToCells_getIndex:
  assumes "in_dims (size_x cm) h c"
  shows "indexToCells cm (getIndex cm c) = c"
proof -
  obtain x y where c: "c = (x, y)" by (cases c)
  with assms have x: "0 \<le> x" "x < int (size_x cm)" by (auto simp: in_dims_def)
  then have "(y * int (size_x cm) + x) mod int (size_x cm) = x"
    by (simp add: mod_pos_pos_trivial)
  moreover from x have "(y * int (size_x cm) + x) div int (size_x cm) = y"
    by (simp add: div_pos_pos_trivial)
  ultimately show ?thesis by (simp add: c indexToCells_def getIndex_def)
qed

lemma getIndex_inj:
  "in_dims (size_x cm) h c \<Longrightarrow> in_dims (size_x cm) h d \<Longrightarrow> getIndex cm c = getIndex cm d \<Longrightarrow> c = d"
  by (metis indexToCells_getIndex)

lemma getIndex_bounds:
  assumes "in_dims (size_x cm) (size_y cm) c"
  shows "0 \<le> getIndex cm c \<and> getIndex cm c < int (size_x cm * size_y cm)"
proof -
  obtain x y where c: "c = (x, y)" by (cases c)
  let ?W = "int (size_x cm)" and ?H = "int (size_y cm)"
  from assms c have x: "0 \<le> x" "x < ?W" and y: "0 \<le> y" "y < ?H"
    by (auto simp: in_dims_def)
  have lt: "y * ?W + x < (y + 1) * ?W" using x by (simp add: algebra_simps)
  have le: "(y + 1) * ?W \<le> ?H * ?W" using y by (intro mult_right_mono) auto
  have eq: "int (size_x cm * size_y cm) = ?H * ?W" by simp
  have nn: "0 \<le> y * ?W" using y by simp
  from lt le eq have "y * ?W + x < int (size_x cm * size_y cm)" by linarith
  with nn x show ?thesis by (simp add: c getIndex_def)
qed

lemma getIndex_indexToCells:
  "0 < size_x cm \<Longrightarrow> getIndex cm (indexToCells cm i) = i"
  by (simp add: getIndex_def indexToCells_def)

subsection \<open>World coordinates\<close>

lemma worldToMap_mapToWorld:
  assumes "0 < resolution cm"
  shows "worldToMapNoBounds cm (mapToWorld cm mx my) = (mx, my)"
proof -
  have "\<lfloor>(of_int k + 1 / 2) * r / r\<rfloor> = k" if "0 < r" for k :: int and r :: real
    using that by simp
  with assms show ?thesis by (simp add: worldToMapNoBounds_def mapToWorld_def)
qed

end
