(* ===== verification/Geometry.thy ===== *)
theory Geometry
  imports Costmap_Grid
begin

text \<open>
  Rotations as the planner computes them. \<open>atan2\<close> is C's \<open>std::atan2\<close> on finite
  arguments; \<open>transformFootprint\<close> is nav2's placement of a robot-frame polygon at a
  world pose; \<open>rotatePoint\<close> is \<open>SpiralSTC::rotatePoint\<close>: it rotates a cell about
  another cell in world coordinates and quantises the result back to a cell. The
  source only ever rotates by the heading of a unit grid step (\<open>atan2(dy, dx)\<close> of
  two adjacent cells); for those headings the lemmas here show that cosine and sine are
  the step's components, so that \<open>rotatePoint\<close> is exact integer rotation of the
  cell offset: the half-cell shift of \<open>mapToWorld\<close> cancels.
\<close>

definition atan2 :: "real \<Rightarrow> real \<Rightarrow> real" where
  "atan2 y x =
     (if 0 < x then arctan (y / x)
      else if x < 0 then (if 0 \<le> y then arctan (y / x) + pi else arctan (y / x) - pi)
      else if 0 < y then pi / 2
      else if y < 0 then - (pi / 2)
      else 0)"

definition transformFootprint :: "real \<Rightarrow> real \<Rightarrow> real \<Rightarrow> point list \<Rightarrow> point list" where
  "transformFootprint x y theta fp =
     map (\<lambda>p. (x + (fst p * cos theta - snd p * sin theta),
               y + (fst p * sin theta + snd p * cos theta))) fp"

definition rotatePoint :: "costmap \<Rightarrow> int \<Rightarrow> int \<Rightarrow> int \<Rightarrow> int \<Rightarrow> real \<Rightarrow> cell" where
  "rotatePoint cm poi_x poi_y icr_x icr_y yaw =
     (let (poi_x_w, poi_y_w) = mapToWorld cm poi_x poi_y;
          (icr_x_w, icr_y_w) = mapToWorld cm icr_x icr_y;
          rotated_x_w = icr_x_w + (poi_x_w - icr_x_w) * cos yaw - (poi_y_w - icr_y_w) * sin yaw;
          rotated_y_w = icr_y_w + (poi_x_w - icr_x_w) * sin yaw + (poi_y_w - icr_y_w) * cos yaw
      in worldToMapNoBounds cm (rotated_x_w, rotated_y_w))"

definition unit_dir :: "int \<Rightarrow> int \<Rightarrow> bool" where
  "unit_dir dx dy \<longleftrightarrow> \<bar>dx\<bar> + \<bar>dy\<bar> = 1"

definition rot_offset :: "int \<Rightarrow> int \<Rightarrow> cell \<Rightarrow> cell" where
  "rot_offset c s v = (fst v * c - snd v * s, fst v * s + snd v * c)"
  \<comment> \<open>integer rotation of an offset by the unit vector \<open>(c, s)\<close>\<close>

subsection \<open>Unit steps and their headings\<close>

lemma unit_dir_cases:
  "unit_dir dx dy \<Longrightarrow> (dx, dy) = (1, 0) \<or> (dx, dy) = (-1, 0) \<or> (dx, dy) = (0, 1) \<or> (dx, dy) = (0, -1)"
  by (auto simp: unit_dir_def abs_if split: if_splits)

lemma unit_dir_left [simp]: "unit_dir (- dy) dx = unit_dir dx dy"
  by (simp add: unit_dir_def add.commute)

lemma unit_dir_right [simp]: "unit_dir dy (- dx) = unit_dir dx dy"
  by (simp add: unit_dir_def add.commute)

lemma adjacent_unit_dir:
  "adjacent (x, y) (x + dx, y + dy) \<longleftrightarrow> unit_dir dx dy"
  by (simp add: adjacent_def unit_dir_def)

lemma atan2_unit:
  "atan2 0 1 = 0" "atan2 0 (-1) = pi" "atan2 1 0 = pi / 2" "atan2 (-1) 0 = - (pi / 2)"
  by (simp_all add: atan2_def)

lemma pi_quarter_distinct [simp]:
  "pi \<noteq> - (pi / 2)" "- (pi / 2) \<noteq> pi" "pi / 2 \<noteq> - (pi / 2)" "- (pi / 2) \<noteq> pi / 2"
  "pi / 2 \<noteq> pi" "pi \<noteq> pi / 2" "- (pi / 2) \<noteq> 0" "pi / 2 \<noteq> 0"
  using pi_gt_zero by linarith+

lemma cos_sin_atan2_unit:
  assumes "unit_dir dx dy"
  shows "cos (atan2 (of_int dy) (of_int dx)) = of_int dx \<and> sin (atan2 (of_int dy) (of_int dx)) = of_int dy"
  using unit_dir_cases [OF assms] by (auto simp: atan2_unit)

subsection \<open>rotatePoint is integer rotation for unit headings\<close>

lemma floor_int_half: "\<lfloor>of_int k + 1 / (2::real)\<rfloor> = k"
  by (simp add: floor_eq_iff)

lemma floor_cell_centre:
  "0 < (r::real) \<Longrightarrow> \<lfloor>(of_int k + 1 / 2) * r / r\<rfloor> = k"
  by (simp add: floor_int_half)

lemma rotatePoint_int:
  assumes r: "0 < resolution cm" and c: "cos yaw = of_int c" and s: "sin yaw = of_int s"
  shows "rotatePoint cm px py ix iy yaw =
           (ix + (px - ix) * c - (py - iy) * s, iy + (px - ix) * s + (py - iy) * c)"
proof -
  let ?r = "resolution cm"
  define X where "X = ix + (px - ix) * c - (py - iy) * s"
  define Y where "Y = iy + (px - ix) * s + (py - iy) * c"
  have ex: "origin_x cm + (of_int ix + 1 / 2) * ?r
      + ((origin_x cm + (of_int px + 1 / 2) * ?r) - (origin_x cm + (of_int ix + 1 / 2) * ?r)) * of_int c
      - ((origin_y cm + (of_int py + 1 / 2) * ?r) - (origin_y cm + (of_int iy + 1 / 2) * ?r)) * of_int s
      - origin_x cm = (of_int X + 1 / 2) * ?r"
    by (simp add: X_def algebra_simps)
  have ey: "origin_y cm + (of_int iy + 1 / 2) * ?r
      + ((origin_x cm + (of_int px + 1 / 2) * ?r) - (origin_x cm + (of_int ix + 1 / 2) * ?r)) * of_int s
      + ((origin_y cm + (of_int py + 1 / 2) * ?r) - (origin_y cm + (of_int iy + 1 / 2) * ?r)) * of_int c
      - origin_y cm = (of_int Y + 1 / 2) * ?r"
    by (simp add: Y_def algebra_simps)
  have "rotatePoint cm px py ix iy yaw = (X, Y)"
    unfolding rotatePoint_def mapToWorld_def worldToMapNoBounds_def Let_def c s
    using ex ey r by (simp only: prod.case fst_conv snd_conv floor_cell_centre)
  then show ?thesis by (simp add: X_def Y_def)
qed

lemma rotatePoint_unit:
  assumes "0 < resolution cm" and "unit_dir dx dy"
  shows "rotatePoint cm (ix + fst v) (iy + snd v) ix iy (atan2 (of_int dy) (of_int dx)) =
           (ix + fst (rot_offset dx dy v), iy + snd (rot_offset dx dy v))"
  using rotatePoint_int [OF assms(1)] cos_sin_atan2_unit [OF assms(2)]
  by (simp add: rot_offset_def algebra_simps)

end
