(* ===== verification/Footprint.thy ===== *)
theory Footprint
  imports Geometry "HOL-Library.Monad_Syntax"
begin

text \<open>
  The footprint engine of \<open>src/src/spiral_stc.cpp\<close>.
  \<^item> \<open>computeFootprintCells\<close> (lines 581--653): place the part's polygon at the
    centre of a cell with a yaw, quantise the corners, fail if a corner leaves the grid,
    drop repeated corners (sort and \<open>std::unique\<close> on row-major indices) and fill the
    convex polygon. The fill is nav2's \<open>Costmap2D::convexFillCells\<close>; its guard
    (fewer than three corners gives no cells) is modelled, its rasterisation is the
    parameter \<open>fill\<close> of the environment.
  \<^item> \<open>manoeuvre_cells\<close> (lines 655--776): the cells swept by a rotate-in-place then
    step manoeuvre, minus the cells of the start footprint, sorted and deduplicated;
    \<open>yaw_difference\<close> is its choice of rotation, \<open>yaw_inter\<close> its intermediate
    orientations.
  \<^item> \<open>computeManoeuvreFootprint\<close> (lines 655--777 as a call): where the result goes.
    The source pushes the cells into the object member \<open>man_cells\<close>, not into its
    output parameter \<open>man_grids\<close>, so the caller's vector is left as it was.
  The lemmas: a footprint fails exactly when a corner is off the grid; the result of a
  manoeuvre is the set difference the specification asks for, distinct and in row-major
  order; the rotation chosen for the unit-step headings the planner uses is the short
  arc; the output parameter of \<open>computeManoeuvreFootprint\<close> never changes.
\<close>

datatype part = Vehicle | Tool
  \<comment> \<open>the strings \<open>"vehicle"\<close> and \<open>"tool"\<close> the source passes\<close>

datatype eRotateDirection = eAnyDirection | eClockwise | eCounterClockwise

record fp_env =
  grid_cm :: costmap
  robot_footprint :: "point list"
  fill :: "cell list \<Rightarrow> cell list"
  manoeuvre_resolution :: int

record stc_obj =
  man_cells :: "cell list"
  man_grids :: "cell list"
  max_overlap :: int
  max_overlap_turn :: int
  max_overlap_forward :: int
  visited_copy :: grid
  spiral_counter :: int
  left_turn :: "cell list"
  forward :: "cell list"
  right_turn :: "cell list"
  turn_around_left :: "cell list"
  turn_around_right :: "cell list"
  left_turn_rel :: "cell list"
  forward_rel :: "cell list"
  right_turn_rel :: "cell list"
  turn_around_left_rel :: "cell list"
  turn_around_right_rel :: "cell list"

definition tool_footprint :: "point list" where
  "tool_footprint = [(0.2, 0.4), (0.545, 0.4), (0.545, - 0.4), (0.2, - 0.4)]"

definition part_polygon :: "fp_env \<Rightarrow> part \<Rightarrow> point list" where
  "part_polygon e p = (case p of Vehicle \<Rightarrow> robot_footprint e | Tool \<Rightarrow> tool_footprint)"

definition convexFillCells :: "fp_env \<Rightarrow> cell list \<Rightarrow> cell list" where
  "convexFillCells e polygon = (if length polygon < 3 then [] else fill e polygon)"

definition sort_unique_cells :: "costmap \<Rightarrow> int list \<Rightarrow> cell list" where
  "sort_unique_cells cm inds = map (indexToCells cm) (remdups_adj (sort inds))"

definition footprint_corners :: "fp_env \<Rightarrow> int \<Rightarrow> int \<Rightarrow> real \<Rightarrow> part \<Rightarrow> cell list" where
  "footprint_corners e x_m y_m yaw p =
     (let cm = grid_cm e;
          w = mapToWorld cm x_m y_m;
          footprint = transformFootprint (fst w) (snd w) yaw (part_polygon e p)
      in map (worldToMapNoBounds cm) footprint)"

definition computeFootprintCells ::
  "fp_env \<Rightarrow> int \<Rightarrow> int \<Rightarrow> real \<Rightarrow> part \<Rightarrow> cell list option" where
  "computeFootprintCells e x_m y_m yaw p =
     (let cm = grid_cm e;
          footprint_ML = footprint_corners e x_m y_m yaw p
      in if list_all (map_bounds cm) footprint_ML
         then Some (convexFillCells e (sort_unique_cells cm (map (getIndex cm) footprint_ML)))
         else None)"

definition yaw_difference :: "real \<Rightarrow> real \<Rightarrow> eRotateDirection \<Rightarrow> real" where
  "yaw_difference yaw_current yaw_next direction =
     (let yaw_diff =
        (if yaw_current = - (1 / 2) * pi \<and> yaw_next = pi then - (1 / 2) * pi
         else if yaw_current = pi \<and> yaw_next = - (1 / 2) * pi then (1 / 2) * pi
         else yaw_next - yaw_current)
      in if yaw_diff < 0 \<and> direction = eCounterClockwise then yaw_diff + 2 * pi
         else if yaw_diff > 0 \<and> direction = eClockwise then yaw_diff - 2 * pi
         else yaw_diff)"

definition wrap_angle :: "real \<Rightarrow> real" where
  "wrap_angle a = (if a > pi then a - 2 * pi else if a < - pi then a + 2 * pi else a)"

definition yaw_inter :: "int \<Rightarrow> real \<Rightarrow> real \<Rightarrow> int \<Rightarrow> real" where
  "yaw_inter res yaw_current yaw_diff i =
     wrap_angle (yaw_current + (of_int i * yaw_diff) / of_int (res - 2))"

definition intermediate_yaws :: "int \<Rightarrow> real \<Rightarrow> real \<Rightarrow> real list" where
  "intermediate_yaws res yaw_current yaw_diff = map (yaw_inter res yaw_current yaw_diff) [1..res - 2]"

definition footprints_at :: "fp_env \<Rightarrow> int \<Rightarrow> int \<Rightarrow> real list \<Rightarrow> part \<Rightarrow> cell list option" where
  "footprints_at e x y yaws p = map_option concat (those (map (\<lambda>a. computeFootprintCells e x y a p) yaws))"

definition manoeuvre_cells ::
  "fp_env \<Rightarrow> int \<Rightarrow> int \<Rightarrow> real \<Rightarrow> int \<Rightarrow> int \<Rightarrow> real \<Rightarrow> eRotateDirection \<Rightarrow> part \<Rightarrow> cell list option" where
  "manoeuvre_cells e x_current y_current yaw_current x_next y_next yaw_next direction p =
     do {
       footprint1_cells \<leftarrow> computeFootprintCells e x_current y_current yaw_current p;
       intermediate_cells \<leftarrow> footprints_at e x_current y_current
         (intermediate_yaws (manoeuvre_resolution e) yaw_current
            (yaw_difference yaw_current yaw_next direction)) p;
       footprint2_cells \<leftarrow> computeFootprintCells e x_next y_next yaw_next p;
       let cm = grid_cm e;
       let footprint1_inds = map (getIndex cm) footprint1_cells;
       let man_inds = filter (\<lambda>i. i \<notin> set footprint1_inds)
                        (map (getIndex cm) (footprint2_cells @ intermediate_cells));
       Some (sort_unique_cells cm man_inds)
     }"

definition computeManoeuvreFootprint ::
  "fp_env \<Rightarrow> stc_obj \<Rightarrow> int \<Rightarrow> int \<Rightarrow> real \<Rightarrow> int \<Rightarrow> int \<Rightarrow> real \<Rightarrow> eRotateDirection \<Rightarrow> part
   \<Rightarrow> cell list \<Rightarrow> bool \<times> stc_obj \<times> cell list" where
  "computeManoeuvreFootprint e obj x_current y_current yaw_current x_next y_next yaw_next direction p out =
     (case manoeuvre_cells e x_current y_current yaw_current x_next y_next yaw_next direction p of
        None \<Rightarrow> (False, obj, out)
      | Some cs \<Rightarrow> (True, obj\<lparr>man_cells := man_cells obj @ cs\<rparr>, out))"

definition fill_in_bounds :: "fp_env \<Rightarrow> bool" where
  "fill_in_bounds e \<longleftrightarrow>
     (\<forall>polygon. list_all (map_bounds (grid_cm e)) polygon \<longrightarrow> list_all (map_bounds (grid_cm e)) (fill e polygon))"
  \<comment> \<open>contract of \<open>convexFillCells\<close>: a polygon with corners on the grid fills cells on the grid\<close>

subsection \<open>Sorting and deduplicating cells\<close>

lemma sort_unique_cells_set:
  assumes "list_all (in_dims (size_x cm) h) cs"
  shows "set (sort_unique_cells cm (map (getIndex cm) cs)) = set cs"
proof -
  have "indexToCells cm (getIndex cm c) = c" if "c \<in> set cs" for c
    using assms that indexToCells_getIndex [of cm h] by (auto simp: list_all_iff)
  then show ?thesis
    by (simp add: sort_unique_cells_def sort_unique_eq image_image cong: image_cong)
qed

lemma sort_unique_cells_distinct:
  assumes "list_all (in_dims (size_x cm) h) cs"
  shows "distinct (sort_unique_cells cm (map (getIndex cm) cs))"
proof -
  have "inj_on (indexToCells cm) (getIndex cm ` set cs)"
    using assms indexToCells_getIndex [of cm h] by (auto simp: inj_on_def list_all_iff)
  then show ?thesis by (simp add: sort_unique_cells_def sort_unique_eq distinct_map)
qed

lemma sort_unique_cells_sorted:
  assumes "list_all (in_dims (size_x cm) h) cs"
  shows "sorted (map (getIndex cm) (sort_unique_cells cm (map (getIndex cm) cs)))"
proof -
  have "getIndex cm (indexToCells cm i) = i" if "i \<in> getIndex cm ` set cs" for i
    using assms that indexToCells_getIndex [of cm h] by (auto simp: list_all_iff)
  then have "map (getIndex cm \<circ> indexToCells cm) (sorted_list_of_set (getIndex cm ` set cs))
             = sorted_list_of_set (getIndex cm ` set cs)"
    by (intro map_idI) simp
  then show ?thesis by (simp add: sort_unique_cells_def sort_unique_eq)
qed

subsection \<open>Footprints\<close>

lemma computeFootprintCells_cases:
  "computeFootprintCells e x y yaw p =
     (if list_all (map_bounds (grid_cm e)) (footprint_corners e x y yaw p)
      then Some (convexFillCells e (sort_unique_cells (grid_cm e)
                   (map (getIndex (grid_cm e)) (footprint_corners e x y yaw p))))
      else None)"
  by (simp add: computeFootprintCells_def Let_def)

lemma computeFootprintCells_in_bounds:
  assumes "fill_in_bounds e" and "computeFootprintCells e x y yaw p = Some cs"
  shows "list_all (map_bounds (grid_cm e)) cs"
proof -
  let ?cm = "grid_cm e" and ?corners = "footprint_corners e x y yaw p"
  from assms(2) have corners: "list_all (map_bounds ?cm) ?corners"
    and cs: "cs = convexFillCells e (sort_unique_cells ?cm (map (getIndex ?cm) ?corners))"
    by (simp_all add: computeFootprintCells_cases split: if_splits)
  from corners have "list_all (in_dims (size_x ?cm) (size_y ?cm)) ?corners" by simp
  then have "set (sort_unique_cells ?cm (map (getIndex ?cm) ?corners)) = set ?corners"
    by (rule sort_unique_cells_set)
  with corners have "list_all (map_bounds ?cm) (sort_unique_cells ?cm (map (getIndex ?cm) ?corners))"
    by (simp add: list_all_iff)
  with assms(1) cs show ?thesis
    by (auto simp: convexFillCells_def fill_in_bounds_def)
qed

lemma footprints_at_in_bounds:
  "fill_in_bounds e \<Longrightarrow> footprints_at e x y yaws p = Some cs \<Longrightarrow> list_all (map_bounds (grid_cm e)) cs"
proof (induction yaws arbitrary: cs)
  case Nil
  then show ?case by (simp add: footprints_at_def)
next
  case (Cons a yaws)
  from Cons.prems obtain c1 rest where c1: "computeFootprintCells e x y a p = Some c1"
    and rest: "footprints_at e x y yaws p = Some rest" and cs: "cs = c1 @ rest"
    by (auto simp: footprints_at_def split: option.splits)
  from Cons.prems(1) c1 have "list_all (map_bounds (grid_cm e)) c1"
    by (rule computeFootprintCells_in_bounds)
  moreover from Cons.prems(1) rest have "list_all (map_bounds (grid_cm e)) rest"
    by (rule Cons.IH)
  ultimately show ?case by (simp add: cs)
qed

lemma computeFootprintCells_None:
  "computeFootprintCells e x y yaw p = None \<longleftrightarrow>
   \<not> list_all (in_dims (size_x (grid_cm e)) (size_y (grid_cm e))) (footprint_corners e x y yaw p)"
  by (simp add: computeFootprintCells_cases)

subsection \<open>Manoeuvres\<close>

lemma filter_indices_inj:
  assumes "inj_on g (set xs \<union> set ys)"
  shows "filter (\<lambda>i. i \<notin> set (map g ys)) (map g xs) = map g (filter (\<lambda>c. c \<notin> set ys) xs)"
proof -
  have "(\<lambda>i. i \<notin> set (map g ys)) \<circ> g = (\<lambda>c. g c \<notin> g ` set ys)" by (simp add: comp_def)
  moreover have "filter (\<lambda>c. g c \<notin> g ` set ys) xs = filter (\<lambda>c. c \<notin> set ys) xs"
    using assms by (intro filter_cong) (auto simp: inj_on_def)
  ultimately show ?thesis by (simp add: filter_map)
qed

lemma manoeuvre_cells_Some:
  assumes fill: "fill_in_bounds e"
    and fp1: "computeFootprintCells e x_current y_current yaw_current p = Some fp1"
    and mid: "footprints_at e x_current y_current
                  (intermediate_yaws (manoeuvre_resolution e) yaw_current
                     (yaw_difference yaw_current yaw_next direction)) p = Some mid"
    and fp2: "computeFootprintCells e x_next y_next yaw_next p = Some fp2"
  shows "manoeuvre_cells e x_current y_current yaw_current x_next y_next yaw_next direction p =
           Some (sort_unique_cells (grid_cm e)
                   (map (getIndex (grid_cm e)) (filter (\<lambda>c. c \<notin> set fp1) (fp2 @ mid))))"
proof -
  let ?cm = "grid_cm e"
  have b1: "list_all (map_bounds ?cm) fp1" using fill fp1 by (rule computeFootprintCells_in_bounds)
  have b2: "list_all (map_bounds ?cm) fp2" using fill fp2 by (rule computeFootprintCells_in_bounds)
  have bi: "list_all (map_bounds ?cm) mid" using fill mid by (rule footprints_at_in_bounds)
  have allb: "\<forall>c \<in> set (fp2 @ mid) \<union> set fp1. in_dims (size_x ?cm) (size_y ?cm) c"
    using b1 b2 bi by (auto simp: list_all_iff)
  have "inj_on (getIndex ?cm) (set (fp2 @ mid) \<union> set fp1)"
    by (rule inj_onI) (use allb getIndex_inj [of ?cm "size_y ?cm"] in blast)
  then have "filter (\<lambda>i. i \<notin> set (map (getIndex ?cm) fp1)) (map (getIndex ?cm) (fp2 @ mid))
             = map (getIndex ?cm) (filter (\<lambda>c. c \<notin> set fp1) (fp2 @ mid))"
    by (rule filter_indices_inj)
  with fp1 fp2 mid show ?thesis by (simp add: manoeuvre_cells_def Let_def)
qed

lemma manoeuvre_cells_None:
  "manoeuvre_cells e x_current y_current yaw_current x_next y_next yaw_next direction p = None \<longleftrightarrow>
   computeFootprintCells e x_current y_current yaw_current p = None
   \<or> footprints_at e x_current y_current
        (intermediate_yaws (manoeuvre_resolution e) yaw_current
           (yaw_difference yaw_current yaw_next direction)) p = None
   \<or> computeFootprintCells e x_next y_next yaw_next p = None"
  by (auto simp: manoeuvre_cells_def Let_def split: Option.bind_splits)

lemma yaw_difference_unit_turns:
  assumes "unit_dir dx dy"
  shows "yaw_difference (atan2 (of_int dy) (of_int dx)) (atan2 (of_int dx) (of_int (- dy))) eAnyDirection = pi / 2"
    and "yaw_difference (atan2 (of_int dy) (of_int dx)) (atan2 (of_int dy) (of_int dx)) eAnyDirection = 0"
    and "yaw_difference (atan2 (of_int dy) (of_int dx)) (atan2 (of_int (- dx)) (of_int dy)) eAnyDirection = - (pi / 2)"
  using unit_dir_cases [OF assms]
  by (auto simp: yaw_difference_def atan2_unit)

lemma wrap_angle_id: "- pi \<le> a \<Longrightarrow> a \<le> pi \<Longrightarrow> wrap_angle a = a"
  by (simp add: wrap_angle_def)

lemma last_intermediate_yaw:
  assumes "2 < res"
  shows "length (intermediate_yaws res yaw_current yaw_diff) = nat (res - 2)
         \<and> last (intermediate_yaws res yaw_current yaw_diff) = wrap_angle (yaw_current + yaw_diff)"
proof -
  from assms have "[1..res - 2] = [1..res - 3] @ [res - 2]"
    using upto_rec2 [of 1 "res - 2"] by simp
  moreover from assms have "of_int (res - 2) * yaw_diff / of_int (res - 2) = yaw_diff"
    by simp
  moreover from assms have "Suc (nat (res - 3)) = nat (res - 2)" by arith
  ultimately show ?thesis by (simp add: intermediate_yaws_def yaw_inter_def)
qed

text \<open>C6 (functional). The cells a manoeuvre reports are exactly the cells swept by the
  intermediate and final footprints that the start footprint does not already cover,
  each once, in row-major order.\<close>

theorem manoeuvre_cells_newly_swept:
  assumes fill: "fill_in_bounds e"
    and fp1: "computeFootprintCells e x_current y_current yaw_current p = Some fp1"
    and mid: "footprints_at e x_current y_current
                  (intermediate_yaws (manoeuvre_resolution e) yaw_current
                     (yaw_difference yaw_current yaw_next direction)) p = Some mid"
    and fp2: "computeFootprintCells e x_next y_next yaw_next p = Some fp2"
  shows "\<exists>cs. manoeuvre_cells e x_current y_current yaw_current x_next y_next yaw_next direction p = Some cs
              \<and> set cs = (set fp2 \<union> set mid) - set fp1 \<and> distinct cs
              \<and> sorted (map (getIndex (grid_cm e)) cs)"
proof -
  let ?cm = "grid_cm e" and ?new = "filter (\<lambda>c. c \<notin> set fp1) (fp2 @ mid)"
  have "list_all (map_bounds ?cm) fp2" "list_all (map_bounds ?cm) mid"
    using computeFootprintCells_in_bounds [OF fill fp2] footprints_at_in_bounds [OF fill mid] .
  then have b: "list_all (in_dims (size_x ?cm) (size_y ?cm)) ?new"
    by (auto simp: list_all_iff)
  show ?thesis
    using manoeuvre_cells_Some [OF fill fp1 mid fp2] sort_unique_cells_set [OF b]
      sort_unique_cells_distinct [OF b] sort_unique_cells_sorted [OF b]
    by auto
qed

text \<open>C7 (functional). For the unit-step headings of the planner, the rotation a
  manoeuvre sweeps is a quarter turn counter-clockwise for a left move, none for a
  forward move and a quarter turn clockwise for a right move; the two special cases of
  the source are what keep the turns from the south to the west and back on the short
  arc.\<close>

theorem yaw_difference_spiral_moves:
  assumes "unit_dir dx dy"
  shows "yaw_difference (atan2 (of_int dy) (of_int dx)) (atan2 (of_int dx) (of_int (- dy))) eAnyDirection = pi / 2
         \<and> yaw_difference (atan2 (of_int dy) (of_int dx)) (atan2 (of_int dy) (of_int dx)) eAnyDirection = 0
         \<and> yaw_difference (atan2 (of_int dy) (of_int dx)) (atan2 (of_int (- dx)) (of_int dy)) eAnyDirection = - (pi / 2)"
  using yaw_difference_unit_turns [OF assms] by simp

text \<open>C8 (functional). The source samples \<open>manoeuvre_resolution - 2\<close> orientations,
  not \<open>manoeuvre_resolution\<close> strictly between start and target as the specification
  says: for every move the spiral makes, the last sample is the target orientation itself,
  taken at the start position. The one exception is the right turn from the south
  heading, whose last sample is \<open>-pi\<close>: the wrap of the source keeps \<open>-pi\<close>, outside
  the canonical interval \<open>(-pi, pi]\<close> of the specification.\<close>

theorem intermediate_yaws_end_at_target:
  assumes "2 < res" and "unit_dir dx dy"
  defines "yc \<equiv> atan2 (of_int dy) (of_int dx)"
  shows "length (intermediate_yaws res yc (yaw_difference yc yc eAnyDirection)) = nat (res - 2)
         \<and> last (intermediate_yaws res yc (yaw_difference yc (atan2 (of_int dx) (of_int (- dy))) eAnyDirection))
             = atan2 (of_int dx) (of_int (- dy))
         \<and> last (intermediate_yaws res yc (yaw_difference yc yc eAnyDirection)) = yc
         \<and> last (intermediate_yaws res yc (yaw_difference yc (atan2 (of_int (- dx)) (of_int dy)) eAnyDirection))
             = (if (dx, dy) = (0, - 1) then - pi else atan2 (of_int (- dx)) (of_int dy))"
proof -
  have p: "0 < pi" by simp
  have w1: "wrap_angle (yc + pi / 2) = atan2 (of_int dx) (of_int (- dy))"
    using unit_dir_cases [OF assms(2)]
    by (elim disjE; simp add: yc_def atan2_unit wrap_angle_def; (insert p, linarith)?)
  have w2: "wrap_angle yc = yc"
    using unit_dir_cases [OF assms(2)]
    by (elim disjE; simp add: yc_def atan2_unit wrap_angle_def; (insert p, linarith)?)
  have w3: "wrap_angle (yc + - (pi / 2)) = (if (dx, dy) = (0, - 1) then - pi else atan2 (of_int (- dx)) (of_int dy))"
    using unit_dir_cases [OF assms(2)]
    by (elim disjE; simp add: yc_def atan2_unit wrap_angle_def; (insert p, linarith)?)
  have d: "yaw_difference yc (atan2 (of_int dx) (of_int (- dy))) eAnyDirection = pi / 2"
          "yaw_difference yc yc eAnyDirection = 0"
          "yaw_difference yc (atan2 (of_int (- dx)) (of_int dy)) eAnyDirection = - (pi / 2)"
    using yaw_difference_unit_turns [OF assms(2)] by (simp_all only: yc_def)
  show ?thesis
    by (simp only: d last_intermediate_yaw [OF assms(1)] w1 w2 w3 add_0_right simp_thms)
qed

end
