(* ===== verification/Spiral.thy ===== *)
theory Spiral
  imports Footprint
begin

text \<open>
  \<open>SpiralSTC::spiral\<close> (\<open>src/src/spiral_stc.cpp\<close>, lines 105--304) and the
  collision test \<open>checkManoeuvreCollision\<close> (lines 800--809).
  The loop state \<open>spiral_state\<close> holds the locals of \<open>spiral\<close> (the path, the
  iterator test \<open>it != path_nodes.begin()\<close>, \<open>prev\<close>, the heading \<open>(dx, dy)\<close>,
  \<open>yaw_current\<close>), the \<open>visited\<close> grid it writes through its reference parameter,
  and the planner object whose members it reads and writes (\<open>max_overlap\<close>,
  \<open>visited_copy\<close>, \<open>man_cells\<close> through the tool call).
  The collaborators are the record \<open>spiral_ops\<close>: the coverage grid, the tool manoeuvre
  call (what it leaves in the object and in \<open>visited_cells\<close>), the initial tool
  footprint, and the value the caller reads when \<open>checkManoeuvreCollision\<close> reaches
  its end without a \<open>return\<close> (undefined behaviour in C++; every theorem here holds for
  both values, and \<open>True\<close> is the contract the specification states).
  One iteration of \<open>for (i = 0; i < 3; ++i)\<close> is \<open>attempt_dir\<close>; the loop over the
  three directions is \<open>dir_loop\<close>; the \<open>while (!done)\<close> loop is the partial function
  \<open>spiral_loop\<close>, whose value \<open>None\<close> is "does not return".
\<close>

record spiral_ops =
  planner_cm :: costmap
  tool_manoeuvre :: "stc_obj \<Rightarrow> int \<Rightarrow> int \<Rightarrow> real \<Rightarrow> int \<Rightarrow> int \<Rightarrow> real \<Rightarrow> stc_obj \<times> cell list"
  tool_footprint_cells :: "int \<Rightarrow> int \<Rightarrow> real \<Rightarrow> cell list"
  fall_off :: bool

record spiral_state =
  st_path :: "cell list"
  st_at_begin :: bool
  st_prev :: cell
  st_dx :: int
  st_dy :: int
  st_yaw :: real
  st_visited :: grid
  st_obj :: stc_obj

datatype attempt = Accepted | Rejected | Collision

definition checkManoeuvreCollision :: "cell list \<Rightarrow> grid \<Rightarrow> bool option" where
  "checkManoeuvreCollision man_grids_arg grid =
     (if list_ex (\<lambda>c. grid_at grid c = eNodeVisited) man_grids_arg then Some False else None)"
  \<comment> \<open>\<open>None\<close>: control reaches the end of the function without a \<open>return\<close>\<close>

definition rel_of :: "stc_obj \<Rightarrow> nat \<Rightarrow> cell list" where
  "rel_of obj i = (if i = 0 then left_turn_rel obj else if i = 1 then forward_rel obj else right_turn_rel obj)"

definition overlap_limit :: "stc_obj \<Rightarrow> nat \<Rightarrow> int" where
  "overlap_limit obj i = (if i = 1 then max_overlap_forward obj else max_overlap_turn obj)"

definition rotated_cells :: "costmap \<Rightarrow> cell list \<Rightarrow> int \<Rightarrow> int \<Rightarrow> real \<Rightarrow> cell list" where
  "rotated_cells cm rel x y yaw = map (\<lambda>r. rotatePoint cm (x + fst r) (y + snd r) x y yaw) rel"

definition count_overlap :: "grid \<Rightarrow> grid \<Rightarrow> cell list \<Rightarrow> int" where
  "count_overlap grid visited cells =
     int (length (filter (\<lambda>c. grid_at grid c = eNodeOpen \<and> grid_at visited c = eNodeVisited) cells))"

definition future_rejected :: "costmap \<Rightarrow> grid \<Rightarrow> cell \<Rightarrow> bool" where
  "future_rejected cm grid p \<longleftrightarrow> \<not> map_bounds cm p \<or> grid_at grid p = eNodeVisited"

definition future_blocked :: "costmap \<Rightarrow> grid \<Rightarrow> cell list \<Rightarrow> cell list \<Rightarrow> bool" where
  "future_blocked cm grid future_left future_right \<longleftrightarrow>
     (\<exists>i < length future_left. future_rejected cm grid (future_left ! i))
     \<and> (\<exists>i < length future_left. future_rejected cm grid (future_right ! i))"
  \<comment> \<open>the source reads \<open>future_right[i]\<close> for every index of \<open>future_left\<close>\<close>

definition next_cell :: "spiral_state \<Rightarrow> cell" where
  "next_cell s = (fst (last (st_path s)) + st_dx s, snd (last (st_path s)) + st_dy s)"

definition next_yaw :: "spiral_state \<Rightarrow> real" where
  "next_yaw s = atan2 (of_int (snd (next_cell s) - snd (last (st_path s))))
                      (of_int (fst (next_cell s) - fst (last (st_path s))))"

definition tool_call :: "spiral_ops \<Rightarrow> nat \<Rightarrow> spiral_state \<Rightarrow> stc_obj \<times> cell list" where
  "tool_call ops i s =
     tool_manoeuvre ops ((st_obj s)\<lparr>max_overlap := overlap_limit (st_obj s) i\<rparr>)
       (fst (last (st_path s))) (snd (last (st_path s))) (st_yaw s)
       (fst (next_cell s)) (snd (next_cell s)) (next_yaw s)"

definition attempt_dir :: "spiral_ops \<Rightarrow> grid \<Rightarrow> nat \<Rightarrow> spiral_state \<Rightarrow> attempt \<times> spiral_state" where
  "attempt_dir ops grid i s =
     (let cm = planner_cm ops;
          x_current = fst (last (st_path s)); y_current = snd (last (st_path s));
          x_next = fst (next_cell s); y_next = snd (next_cell s);
          yaw_next = next_yaw s;
          in_bounds = list_all (map_bounds cm) (rotated_cells cm (rel_of (st_obj s) i) x_current y_current (st_yaw s));
          obj1 = (st_obj s)\<lparr>max_overlap := overlap_limit (st_obj s) i\<rparr>;
          no_collision = (case checkManoeuvreCollision (man_grids obj1) grid of
                            Some b \<Rightarrow> b | None \<Rightarrow> fall_off ops)
      in if \<not> no_collision then (Collision, s\<lparr>st_obj := obj1\<rparr>)
         else
           (let (obj2, visited_cells) = tool_call ops i s;
                overlap = count_overlap grid (st_visited s) visited_cells;
                future_left = rotated_cells cm (left_turn_rel obj2) x_next y_next yaw_next;
                future_right = rotated_cells cm (right_turn_rel obj2) x_next y_next yaw_next;
                man_is_free = in_bounds \<and> \<not> future_blocked cm grid future_left future_right
            in if man_is_free \<and> overlap \<le> max_overlap obj2
               then (Accepted,
                     s\<lparr>st_path := st_path s @ [(x_next, y_next)],
                       st_at_begin := False,
                       st_prev := (x_current, y_current),
                       st_visited := mark_cells (st_visited s) visited_cells,
                       st_obj := obj2\<lparr>visited_copy := mark_cells (visited_copy obj2) visited_cells\<rparr>\<rparr>)
               else (Rejected, s\<lparr>st_obj := obj2\<rparr>)))"

function dir_loop :: "spiral_ops \<Rightarrow> grid \<Rightarrow> nat \<Rightarrow> spiral_state \<Rightarrow> bool \<times> spiral_state" where
  "dir_loop ops grid i s =
     (if i < 3 then
        (case attempt_dir ops grid i s of
           (Accepted, s') \<Rightarrow> (True, s')
         | (Collision, s') \<Rightarrow> (False, s')
         | (Rejected, s') \<Rightarrow> dir_loop ops grid (Suc i) (s'\<lparr>st_dx := st_dy s', st_dy := - st_dx s'\<rparr>))
      else (False, s))"
  by pat_completeness auto
termination
  by (relation "measure (\<lambda>(ops, grid, i, s). 3 - i)") auto

declare dir_loop.simps [simp del]

definition turn_ccw :: "spiral_state \<Rightarrow> spiral_state" where
  "turn_ccw s =
     (if \<not> st_at_begin s then
        (let dx = fst (last (st_path s)) - fst (st_prev s);
             dy = snd (last (st_path s)) - snd (st_prev s)
         in s\<lparr>st_dx := - dy, st_dy := dx, st_yaw := atan2 (of_int dy) (of_int dx)\<rparr>)
      else s)"

partial_function (option) spiral_loop :: "spiral_ops \<Rightarrow> grid \<Rightarrow> spiral_state \<Rightarrow> spiral_state option" where
  "spiral_loop ops grid s =
     (let r = dir_loop ops grid 0 (turn_ccw s)
      in if fst r then spiral_loop ops grid (snd r) else Some (snd r))"

definition spiral_init :: "spiral_ops \<Rightarrow> stc_obj \<Rightarrow> cell list \<Rightarrow> real \<Rightarrow> grid \<Rightarrow> spiral_state" where
  "spiral_init ops obj init yaw_start visited =
     (let it = (if 1 < length init then length init - 2 else length init - 1);
          init_cells = tool_footprint_cells ops (fst (last init)) (snd (last init)) yaw_start
      in \<lparr>st_path = init, st_at_begin = (it = 0), st_prev = init ! it, st_dx = 0, st_dy = 1,
          st_yaw = yaw_start, st_visited = mark_cells visited init_cells,
          st_obj = obj\<lparr>visited_copy := mark_cells (visited_copy obj) init_cells\<rparr>\<rparr>)"

definition spiral :: "spiral_ops \<Rightarrow> stc_obj \<Rightarrow> grid \<Rightarrow> cell list \<Rightarrow> real \<Rightarrow> grid
                      \<Rightarrow> (cell list \<times> grid \<times> stc_obj) option" where
  "spiral ops obj grid init yaw_start visited =
     map_option (\<lambda>s. (st_path s, st_visited s, st_obj s))
       (spiral_loop ops grid (spiral_init ops obj init yaw_start visited))"

subsection \<open>Invariant of the loop state\<close>

definition spiral_inv :: "spiral_state \<Rightarrow> bool" where
  "spiral_inv s \<longleftrightarrow>
     st_path s \<noteq> [] \<and> four_connected (st_path s) \<and> unit_dir (st_dx s) (st_dy s)
     \<and> (\<not> st_at_begin s \<longrightarrow> adjacent (st_prev s) (last (st_path s)))"

definition tool_frame :: "spiral_ops \<Rightarrow> bool" where
  "tool_frame ops \<longleftrightarrow>
     (\<forall>obj x y yaw x' y' yaw'.
        (fst (tool_manoeuvre ops obj x y yaw x' y' yaw'))\<lparr>man_cells := man_cells obj\<rparr> = obj)"
  \<comment> \<open>the tool call writes no member but \<open>man_cells\<close>\<close>

definition tool_progress :: "spiral_ops \<Rightarrow> grid \<Rightarrow> int \<Rightarrow> bool" where
  "tool_progress ops grid bound \<longleftrightarrow>
     (\<forall>obj x y yaw x' y' yaw'.
        list_all (map_bounds (planner_cm ops)) (snd (tool_manoeuvre ops obj x y yaw x' y' yaw'))
        \<and> bound < int (length (filter (\<lambda>c. grid_at grid c = eNodeOpen)
                                   (snd (tool_manoeuvre ops obj x y yaw x' y' yaw')))))"
  \<comment> \<open>every tool manoeuvre stays on the grid and sweeps more free cells than the overlap allowed\<close>

lemma four_connected_snoc:
  "four_connected (xs @ [y]) \<longleftrightarrow> four_connected xs \<and> (xs \<noteq> [] \<longrightarrow> adjacent (last xs) y)"
  by (induction xs rule: four_connected.induct) auto

lemma adjacent_next_cell:
  "unit_dir (st_dx s) (st_dy s) \<Longrightarrow> adjacent (last (st_path s)) (next_cell s)"
  using adjacent_unit_dir [of "fst (last (st_path s))" "snd (last (st_path s))"]
  by (simp add: next_cell_def)

lemma attempt_dir_effect:
  assumes "attempt_dir ops grid i s = (a, s')"
  shows "st_path s' = (if a = Accepted then st_path s @ [next_cell s] else st_path s)
         \<and> st_dx s' = st_dx s \<and> st_dy s' = st_dy s
         \<and> st_visited s' = (if a = Accepted then mark_cells (st_visited s) (snd (tool_call ops i s))
                            else st_visited s)
         \<and> (if a = Accepted then st_prev s' = last (st_path s) \<and> \<not> st_at_begin s'
            else st_prev s' = st_prev s \<and> st_at_begin s' = st_at_begin s)"
  using assms
  by (auto simp: attempt_dir_def Let_def next_cell_def split: if_splits prod.splits option.splits)

lemma attempt_dir_accepted:
  assumes "attempt_dir ops grid i s = (Accepted, s')"
  shows "count_overlap grid (st_visited s) (snd (tool_call ops i s)) \<le> max_overlap (fst (tool_call ops i s))"
  using assms
  by (auto simp: attempt_dir_def Let_def split: if_splits prod.splits option.splits)

lemma tool_call_frame:
  assumes "tool_frame ops"
  shows "(fst (tool_call ops i s))\<lparr>man_cells := man_cells (st_obj s)\<rparr>
           = (st_obj s)\<lparr>max_overlap := overlap_limit (st_obj s) i\<rparr>"
proof -
  let ?o1 = "(st_obj s)\<lparr>max_overlap := overlap_limit (st_obj s) i\<rparr>"
  from assms have "(fst (tool_call ops i s))\<lparr>man_cells := man_cells ?o1\<rparr> = ?o1"
    unfolding tool_frame_def tool_call_def by blast
  then show ?thesis by simp
qed

lemma attempt_dir_inv:
  assumes att: "attempt_dir ops grid i s = (a, s')" and inv: "spiral_inv s"
  shows "spiral_inv s'"
proof (cases "a = Accepted")
  case True
  with attempt_dir_effect [OF att] have p: "st_path s' = st_path s @ [next_cell s]"
    and d: "st_dx s' = st_dx s" "st_dy s' = st_dy s"
    and prev: "st_prev s' = last (st_path s)" by simp_all
  from inv have "unit_dir (st_dx s) (st_dy s)" by (simp add: spiral_inv_def)
  then have adj: "adjacent (last (st_path s)) (next_cell s)" by (rule adjacent_next_cell)
  with inv p d prev show ?thesis by (simp add: spiral_inv_def four_connected_snoc)
next
  case False
  with attempt_dir_effect [OF att] have "st_path s' = st_path s" "st_dx s' = st_dx s" "st_dy s' = st_dy s"
    "st_prev s' = st_prev s" "st_at_begin s' = st_at_begin s" by simp_all
  with inv show ?thesis by (simp add: spiral_inv_def)
qed

subsection \<open>The loop over the three directions\<close>

lemma dir_loop_unfold:
  "dir_loop ops grid i s =
     (if i < 3 then
        (case attempt_dir ops grid i s of
           (Accepted, s') \<Rightarrow> (True, s')
         | (Collision, s') \<Rightarrow> (False, s')
         | (Rejected, s') \<Rightarrow> dir_loop ops grid (Suc i) (s'\<lparr>st_dx := st_dy s', st_dy := - st_dx s'\<rparr>))
      else (False, s))"
  by (rule dir_loop.simps)

lemma dir_loop_step:
  assumes "i < 3" and "attempt_dir ops grid i s = (a, s1)"
  shows "dir_loop ops grid i s =
           (case a of Accepted \<Rightarrow> (True, s1) | Collision \<Rightarrow> (False, s1)
            | Rejected \<Rightarrow> dir_loop ops grid (Suc i) (s1\<lparr>st_dx := st_dy s1, st_dy := - st_dx s1\<rparr>))"
  using assms by (cases a) (simp_all add: dir_loop_unfold [where ops = ops and grid = grid and i = i and s = s])

lemma dir_loop_stop:
  "\<not> i < 3 \<Longrightarrow> dir_loop ops grid i s = (False, s)"
  by (simp add: dir_loop_unfold [where ops = ops and grid = grid and i = i and s = s])

lemma dir_loop_preserves:
  assumes run: "dir_loop ops grid i s = (b, s')" and q: "Q s"
    and att: "\<And>i s a s'. attempt_dir ops grid i s = (a, s') \<Longrightarrow> Q s \<Longrightarrow> Q s'"
    and rot: "\<And>s. Q s \<Longrightarrow> Q (s\<lparr>st_dx := st_dy s, st_dy := - st_dx s\<rparr>)"
  shows "Q s'"
  using run q
proof (induction "3 - i" arbitrary: i s b s')
  case 0
  then show ?case by (simp add: dir_loop_stop)
next
  case (Suc n)
  then have i: "i < 3" by arith
  obtain a s1 where a: "attempt_dir ops grid i s = (a, s1)" by fastforce
  from a Suc.prems(2) have q1: "Q s1" by (rule att)
  show ?case
  proof (cases a)
    case Rejected
    with i a Suc.prems(1) have "dir_loop ops grid (Suc i) (s1\<lparr>st_dx := st_dy s1, st_dy := - st_dx s1\<rparr>) = (b, s')"
      by (simp add: dir_loop_step)
    moreover from Suc.hyps(2) have "n = 3 - Suc i" by arith
    ultimately show ?thesis using Suc.hyps(1) rot [OF q1] by blast
  next
    case Accepted
    with i a Suc.prems(1) q1 show ?thesis by (simp add: dir_loop_step)
  next
    case Collision
    with i a Suc.prems(1) q1 show ?thesis by (simp add: dir_loop_step)
  qed
qed

lemma rotate_cw_inv:
  "spiral_inv s \<Longrightarrow> spiral_inv (s\<lparr>st_dx := st_dy s, st_dy := - st_dx s\<rparr>)"
  by (simp add: spiral_inv_def)

lemma dir_loop_inv:
  "dir_loop ops grid i s = (b, s') \<Longrightarrow> spiral_inv s \<Longrightarrow> spiral_inv s'"
  by (rule dir_loop_preserves [where Q = spiral_inv]) (blast intro: attempt_dir_inv rotate_cw_inv)+

lemma attempt_dir_visited_mono:
  "attempt_dir ops grid i s = (a, s') \<Longrightarrow> grid_at (st_visited s) c \<Longrightarrow> grid_at (st_visited s') c"
  using attempt_dir_effect [of ops grid i s a s'] grid_at_mark_cells_mono by (cases "a = Accepted") auto

lemma dir_loop_visited_mono:
  "dir_loop ops grid i s = (b, s') \<Longrightarrow> grid_at (st_visited s) c \<Longrightarrow> grid_at (st_visited s') c"
  by (rule dir_loop_preserves [where Q = "\<lambda>s. grid_at (st_visited s) c"])
     (assumption | blast intro: attempt_dir_visited_mono | simp)+

lemma attempt_dir_path_prefix:
  "attempt_dir ops grid i s = (a, s') \<Longrightarrow> prefix xs (st_path s) \<Longrightarrow> prefix xs (st_path s')"
  using attempt_dir_effect [of ops grid i s a s'] by (cases "a = Accepted") (auto intro: prefix_prefix)

lemma dir_loop_path_prefix:
  "dir_loop ops grid i s = (b, s') \<Longrightarrow> prefix xs (st_path s) \<Longrightarrow> prefix xs (st_path s')"
  by (rule dir_loop_preserves [where Q = "\<lambda>s. prefix xs (st_path s)"])
     (assumption | blast intro: attempt_dir_path_prefix | simp)+

subsection \<open>The spiral loop\<close>

lemma turn_ccw_frame [simp]:
  "st_path (turn_ccw s) = st_path s" "st_visited (turn_ccw s) = st_visited s"
  "st_obj (turn_ccw s) = st_obj s" "st_prev (turn_ccw s) = st_prev s"
  "st_at_begin (turn_ccw s) = st_at_begin s"
  by (simp_all add: turn_ccw_def Let_def)

lemma turn_ccw_inv:
  assumes "spiral_inv s"
  shows "spiral_inv (turn_ccw s)"
proof (cases "st_at_begin s")
  case True
  with assms show ?thesis by (simp add: turn_ccw_def)
next
  case False
  with assms have "adjacent (st_prev s) (last (st_path s))" by (simp add: spiral_inv_def)
  then have "unit_dir (fst (last (st_path s)) - fst (st_prev s)) (snd (last (st_path s)) - snd (st_prev s))"
    by (simp add: adjacent_def unit_dir_def abs_minus_commute)
  then have "unit_dir (snd (st_prev s) - snd (last (st_path s))) (fst (last (st_path s)) - fst (st_prev s))"
    by (simp add: unit_dir_def abs_minus_commute add.commute)
  with assms False show ?thesis by (simp add: spiral_inv_def turn_ccw_def Let_def)
qed

lemma spiral_loop_rule:
  assumes run: "spiral_loop ops grid s = Some r" and q: "Q s"
    and step: "\<And>t b t'. Q t \<Longrightarrow> dir_loop ops grid 0 (turn_ccw t) = (b, t') \<Longrightarrow> Q t'"
  shows "Q r"
proof -
  have "ops = ops \<and> grid = grid \<and> Q s \<longrightarrow> Q r"
  proof (rule spiral_loop.raw_induct
      [where P = "\<lambda>ops' grid' s r. ops' = ops \<and> grid' = grid \<and> Q s \<longrightarrow> Q r", OF _ run])
    fix f ops' grid' s' r'
    assume IH: "\<And>ops'' grid'' s'' r''. f ops'' grid'' s'' = Some r'' \<Longrightarrow>
                  ops'' = ops \<and> grid'' = grid \<and> Q s'' \<longrightarrow> Q r''"
      and eq: "(let rr = dir_loop ops' grid' 0 (turn_ccw s')
                in if fst rr then f ops' grid' (snd rr) else Some (snd rr)) = Some r'"
    show "ops' = ops \<and> grid' = grid \<and> Q s' \<longrightarrow> Q r'"
    proof
      assume h: "ops' = ops \<and> grid' = grid \<and> Q s'"
      obtain bb s2 where d: "dir_loop ops grid 0 (turn_ccw s') = (bb, s2)" by fastforce
      from h d have q2: "Q s2" by (blast intro: step)
      show "Q r'"
      proof (cases bb)
        case True
        with eq h d have "f ops grid s2 = Some r'" by simp
        with IH q2 show ?thesis by blast
      next
        case False
        with eq h d have "r' = s2" by simp
        with q2 show ?thesis by simp
      qed
    qed
  qed
  with q show ?thesis by simp
qed

lemma spiral_loop_preserves:
  assumes run: "spiral_loop ops grid s = Some r" and q: "Q s"
    and turn: "\<And>s. Q s \<Longrightarrow> Q (turn_ccw s)"
    and dir: "\<And>i s b s'. dir_loop ops grid i s = (b, s') \<Longrightarrow> Q s \<Longrightarrow> Q s'"
  shows "Q r"
  using run q by (rule spiral_loop_rule) (blast intro: turn dir)

lemma spiral_loop_inv:
  "spiral_loop ops grid s = Some r \<Longrightarrow> spiral_inv s \<Longrightarrow> spiral_inv r"
  by (rule spiral_loop_preserves [where Q = spiral_inv])
     (assumption | erule turn_ccw_inv | erule (1) dir_loop_inv)+

lemma spiral_loop_path_prefix:
  "spiral_loop ops grid s = Some r \<Longrightarrow> prefix xs (st_path s) \<Longrightarrow> prefix xs (st_path r)"
  by (rule spiral_loop_preserves [where Q = "\<lambda>s. prefix xs (st_path s)"])
     (assumption | simp | erule (1) dir_loop_path_prefix)+

lemma spiral_loop_visited_mono:
  "spiral_loop ops grid s = Some r \<Longrightarrow> grid_at (st_visited s) c \<Longrightarrow> grid_at (st_visited r) c"
  by (rule spiral_loop_preserves [where Q = "\<lambda>s. grid_at (st_visited s) c"])
     (assumption | simp | erule (1) dir_loop_visited_mono)+

lemma spiral_loop_unfold:
  "spiral_loop ops grid s =
     (let r = dir_loop ops grid 0 (turn_ccw s) in if fst r then spiral_loop ops grid (snd r) else Some (snd r))"
  by (rule spiral_loop.simps)

lemma spiral_init_inv:
  assumes "init \<noteq> []" and "four_connected init"
  shows "spiral_inv (spiral_init ops obj init yaw_start visited)"
proof -
  let ?it = "if 1 < length init then length init - 2 else length init - 1"
  have "adjacent (init ! ?it) (last init)" if "?it \<noteq> 0"
  proof -
    from that assms(1) have "1 < length init" and it: "?it = length init - 2"
      by (auto split: if_splits)
    then have sl: "Suc ?it = length init - 1" and "Suc ?it < length init" by simp_all
    moreover have "last init = init ! (length init - 1)"
      using assms(1) by (rule last_conv_nth)
    ultimately have "Suc ?it < length init" and "last init = init ! Suc ?it" by simp_all
    with assms(2) show ?thesis by (simp add: four_connected_nth)
  qed
  with assms show ?thesis by (simp add: spiral_inv_def spiral_init_def Let_def unit_dir_def)
qed

lemma spiral_result:
  "spiral ops obj grid init yaw_start visited = Some (path, visited', obj') \<Longrightarrow>
   \<exists>r. spiral_loop ops grid (spiral_init ops obj init yaw_start visited) = Some r
        \<and> st_path r = path \<and> st_visited r = visited' \<and> st_obj r = obj'"
  by (auto simp: spiral_def)

subsection \<open>Only left, forward and right\<close>

lemma dir_loop_level:
  assumes "i < 3" and "dir_loop ops grid i s = (True, s')"
  shows "(st_path s' = st_path s @ [next_cell s] \<and> st_prev s' = last (st_path s) \<and> \<not> st_at_begin s')
         \<or> (\<exists>t. st_path t = st_path s \<and> st_dx t = st_dy s \<and> st_dy t = - st_dx s
                 \<and> dir_loop ops grid (Suc i) t = (True, s'))"
proof -
  obtain a t where A: "attempt_dir ops grid i s = (a, t)" by fastforce
  note eff = attempt_dir_effect [OF A]
  show ?thesis
  proof (cases a)
    case Accepted
    with assms A have "s' = t" by (simp add: dir_loop_step)
    with eff Accepted show ?thesis by simp
  next
    case Rejected
    with assms A have "dir_loop ops grid (Suc i) (t\<lparr>st_dx := st_dy t, st_dy := - st_dx t\<rparr>) = (True, s')"
      by (simp add: dir_loop_step)
    with eff Rejected show ?thesis by (intro disjI2 exI [of _ "t\<lparr>st_dx := st_dy t, st_dy := - st_dx t\<rparr>"]) simp
  next
    case Collision
    with assms A show ?thesis by (simp add: dir_loop_step)
  qed
qed

lemma dir_loop_turns:
  assumes d: "dir_loop ops grid 0 s = (True, s')"
  shows "\<exists>h \<in> {(st_dx s, st_dy s), (st_dy s, - st_dx s), (- st_dx s, - st_dy s)}.
           st_path s' = st_path s @ [(fst (last (st_path s)) + fst h, snd (last (st_path s)) + snd h)]
           \<and> st_prev s' = last (st_path s) \<and> \<not> st_at_begin s'"
proof -
  note nc = next_cell_def
  consider (a0) "st_path s' = st_path s @ [next_cell s] \<and> st_prev s' = last (st_path s) \<and> \<not> st_at_begin s'"
    | (r0) t1 where "st_path t1 = st_path s" "st_dx t1 = st_dy s" "st_dy t1 = - st_dx s"
                    "dir_loop ops grid 1 t1 = (True, s')"
    using dir_loop_level [OF _ d] by auto
  then show ?thesis
  proof cases
    case a0 then show ?thesis by (auto simp: nc)
  next
    case r0
    consider (a1) "st_path s' = st_path t1 @ [next_cell t1] \<and> st_prev s' = last (st_path t1) \<and> \<not> st_at_begin s'"
      | (r1) t2 where "st_path t2 = st_path t1" "st_dx t2 = st_dy t1" "st_dy t2 = - st_dx t1"
                      "dir_loop ops grid 2 t2 = (True, s')"
      using dir_loop_level [OF _ r0(4)] by (auto simp: numeral_2_eq_2)
    then show ?thesis
    proof cases
      case a1 with r0 show ?thesis by (auto simp: nc)
    next
      case r1
      consider (a2) "st_path s' = st_path t2 @ [next_cell t2] \<and> st_prev s' = last (st_path t2) \<and> \<not> st_at_begin s'"
        | (r2) t3 where "dir_loop ops grid 3 t3 = (True, s')"
        using dir_loop_level [OF _ r1(4)] by (auto simp: numeral_3_eq_3)
      then show ?thesis
      proof cases
        case a2 with r0 r1 show ?thesis by (auto simp: nc)
      next
        case r2 then show ?thesis by (simp add: dir_loop_stop)
      qed
    qed
  qed
qed

lemma dir_loop_false_frame:
  "dir_loop ops grid i s = (False, s') \<Longrightarrow>
   st_path s' = st_path s \<and> st_prev s' = st_prev s \<and> st_at_begin s' = st_at_begin s"
proof (induction "3 - i" arbitrary: i s)
  case 0
  then show ?case by (simp add: dir_loop_stop)
next
  case (Suc m)
  then have i: "i < 3" by arith
  obtain a t where A: "attempt_dir ops grid i s = (a, t)" by fastforce
  note eff = attempt_dir_effect [OF A]
  show ?case
  proof (cases a)
    case Rejected
    with i A Suc.prems have "dir_loop ops grid (Suc i) (t\<lparr>st_dx := st_dy t, st_dy := - st_dx t\<rparr>) = (False, s')"
      by (simp add: dir_loop_step)
    moreover have "m = 3 - Suc i" using Suc.hyps(2) by arith
    ultimately show ?thesis using Suc.hyps(1) eff Rejected by fastforce
  qed (use i A Suc.prems eff in \<open>simp_all add: dir_loop_step\<close>)
qed

lemma unit_no_back:
  "unit_dir ux uy \<Longrightarrow> h \<in> {(- uy, ux), (ux, uy), (uy, - ux)} \<Longrightarrow> h \<noteq> (- ux, - uy)"
  using unit_dir_cases [of ux uy] by auto

lemma turned_step_not_back:
  assumes inv: "spiral_inv t" and nb: "\<not> st_at_begin t"
    and d: "dir_loop ops grid 0 (turn_ccw t) = (True, t')"
  shows "st_path t' = st_path t @ [last (st_path t')] \<and> last (st_path t') \<noteq> st_prev t
         \<and> st_prev t' = last (st_path t) \<and> \<not> st_at_begin t'"
proof -
  let ?ux = "fst (last (st_path t)) - fst (st_prev t)" and ?uy = "snd (last (st_path t)) - snd (st_prev t)"
  have u: "unit_dir ?ux ?uy"
    using inv nb by (simp add: spiral_inv_def adjacent_def unit_dir_def abs_minus_commute)
  have h: "st_dx (turn_ccw t) = - ?uy" "st_dy (turn_ccw t) = ?ux" using nb by (simp_all add: turn_ccw_def Let_def)
  from dir_loop_turns [OF d] h obtain hx hy where
    hin: "(hx, hy) \<in> {(- ?uy, ?ux), (?ux, ?uy), (?uy, - ?ux)}"
    and p: "st_path t' = st_path t @ [(fst (last (st_path t)) + hx, snd (last (st_path t)) + hy)]"
    and rest: "st_prev t' = last (st_path t)" "\<not> st_at_begin t'" by auto
  from unit_no_back [OF u hin] have "(fst (last (st_path t)) + hx, snd (last (st_path t)) + hy) \<noteq> st_prev t"
    by (cases "st_prev t") auto
  with p rest show ?thesis by simp
qed

lemma no_reversal_step:
  assumes inv: "spiral_inv t"
    and nr: "\<forall>k. n \<le> k \<longrightarrow> k + 2 < length (st_path t) \<longrightarrow> st_path t ! k \<noteq> st_path t ! (k + 2)"
    and pv: "\<not> st_at_begin t \<longrightarrow> 2 \<le> length (st_path t) \<and> st_prev t = st_path t ! (length (st_path t) - 2)"
    and bg: "st_at_begin t \<longrightarrow> length (st_path t) \<le> Suc n"
    and d: "dir_loop ops grid 0 (turn_ccw t) = (b, t')"
  shows "(\<forall>k. n \<le> k \<longrightarrow> k + 2 < length (st_path t') \<longrightarrow> st_path t' ! k \<noteq> st_path t' ! (k + 2))
         \<and> (\<not> st_at_begin t' \<longrightarrow> 2 \<le> length (st_path t') \<and> st_prev t' = st_path t' ! (length (st_path t') - 2))
         \<and> (st_at_begin t' \<longrightarrow> length (st_path t') \<le> Suc n)"
proof (cases b)
  case False
  with d dir_loop_false_frame [of ops grid 0 "turn_ccw t" t'] nr pv bg show ?thesis by simp
next
  case True
  let ?P = "st_path t"
  define c where "c = last (st_path t')"
  from d True have dT: "dir_loop ops grid 0 (turn_ccw t) = (True, t')" by simp
  have ne: "?P \<noteq> []" using inv by (simp add: spiral_inv_def)
  have "\<not> st_at_begin t \<Longrightarrow> c \<noteq> st_prev t" and
    p: "st_path t' = ?P @ [c]" and r: "st_prev t' = last ?P" "\<not> st_at_begin t'"
    unfolding c_def using turned_step_not_back [OF inv _ dT] dir_loop_turns [OF dT]
    by (cases "st_at_begin t"; auto simp: turn_ccw_def)+
  show ?thesis
  proof (intro conjI allI impI)
    fix k assume k: "n \<le> k" "k + 2 < length (st_path t')"
    show "st_path t' ! k \<noteq> st_path t' ! (k + 2)"
    proof (cases "k + 2 < length ?P")
      case True with nr k p show ?thesis by (simp add: nth_append)
    next
      case False
      with k p have kk: "k + 2 = length ?P" by simp
      with k bg have "\<not> st_at_begin t" by auto
      with pv kk have "st_path t' ! k = st_prev t" by (simp add: p nth_append kk [symmetric])
      moreover have "st_path t' ! (k + 2) = c" using kk p by (simp add: nth_append)
      ultimately show ?thesis using \<open>\<not> st_at_begin t \<Longrightarrow> c \<noteq> st_prev t\<close> \<open>\<not> st_at_begin t\<close> by simp
    qed
  next
    show "2 \<le> length (st_path t')" using p ne by (cases ?P) auto
    show "st_prev t' = st_path t' ! (length (st_path t') - 2)" using p r ne by (simp add: nth_append last_conv_nth)
  qed (use r in simp_all)
qed

lemma spiral_path_prefix:
  "spiral ops obj grid init yaw_start visited = Some (path, visited', obj') \<Longrightarrow> prefix init path"
  using spiral_loop_path_prefix [of ops grid "spiral_init ops obj init yaw_start visited" _ init]
  by (auto simp: spiral_def spiral_init_def Let_def)

text \<open>C11 (refinement). Once the spiral has a previous step, the manoeuvre cells it
  checks are the catalogue's offsets rotated exactly by a quarter-turn multiple: for the
  heading of a unit grid step, \<open>rotated_cells\<close> (\<open>rotatePoint\<close> through world
  coordinates and back) computes the integer rotation of each offset by the step
  \<open>(dx, dy)\<close>, translated to the current cell.\<close>

theorem rotated_cells_integer:
  assumes "0 < resolution cm" and "unit_dir dx dy"
  shows "rotated_cells cm rel x y (atan2 (of_int dy) (of_int dx))
           = map (\<lambda>v. (x + fst (rot_offset dx dy v), y + snd (rot_offset dx dy v))) rel"
  by (simp add: rotated_cells_def rotatePoint_unit [OF assms])

text \<open>C1 (safety). A spiral extends the path it was given and keeps it 4-connected:
  every cell it appends is one unit step from the one before, provided the seed path
  (a single cell, or the relocation path) is itself 4-connected.\<close>

theorem spiral_four_connected:
  assumes run: "spiral ops obj grid init yaw_start visited = Some (path, visited', obj')"
    and ne: "init \<noteq> []" and conn: "four_connected init"
  shows "four_connected path \<and> prefix init path"
proof -
  from spiral_result [OF run] obtain r where
    r: "spiral_loop ops grid (spiral_init ops obj init yaw_start visited) = Some r"
    and p: "st_path r = path" by blast
  have "spiral_inv r" using spiral_loop_inv [OF r spiral_init_inv [OF ne conn]] .
  moreover have "prefix init (st_path r)"
    using spiral_loop_path_prefix [OF r] by (simp add: spiral_init_def Let_def)
  ultimately show ?thesis using p by (simp add: spiral_inv_def)
qed

text \<open>C4 (invariant). Coverage is monotone: a cell that is visited when the spiral starts
  is still visited when it returns; the spiral only ever sets cells of \<open>visited\<close>.\<close>

theorem spiral_visited_mono:
  assumes run: "spiral ops obj grid init yaw_start visited = Some (path, visited', obj')"
    and c: "grid_at visited c"
  shows "grid_at visited' c"
proof -
  from spiral_result [OF run] obtain r where
    r: "spiral_loop ops grid (spiral_init ops obj init yaw_start visited) = Some r"
    and v: "st_visited r = visited'" by blast
  have "grid_at (st_visited (spiral_init ops obj init yaw_start visited)) c"
    using c by (simp add: spiral_init_def Let_def grid_at_mark_cells_mono)
  from spiral_loop_visited_mono [OF r this] v show ?thesis by simp
qed

text \<open>C2 (safety). Overlap bound: a direction is accepted only if the tool cells of its
  manoeuvre that are free and already visited number at most \<open>max_overlap_turn\<close> for the
  left and right moves and \<open>max_overlap_forward\<close> for the forward move; the step appends
  the candidate cell and marks exactly those tool cells visited.\<close>

theorem attempt_dir_overlap_bound:
  assumes frame: "tool_frame ops" and acc: "attempt_dir ops grid i s = (Accepted, s')"
  shows "count_overlap grid (st_visited s) (snd (tool_call ops i s)) \<le> overlap_limit (st_obj s) i
         \<and> st_visited s' = mark_cells (st_visited s) (snd (tool_call ops i s))
         \<and> st_path s' = st_path s @ [next_cell s]"
proof -
  have "max_overlap (fst (tool_call ops i s)) = overlap_limit (st_obj s) i"
    using arg_cong [OF tool_call_frame [OF frame, where i = i and s = s], of max_overlap] by simp
  with attempt_dir_accepted [OF acc] attempt_dir_effect [OF acc] show ?thesis by simp
qed

text \<open>C17 (safety). The spiral never reverses: from the last cell of its seed on, each step
  turns left, goes straight or turns right relative to the step before, so no cell of the
  path is followed two steps later by the same cell. The direction loop starts from the left
  of the last step (\<open>turn_ccw\<close>) and rotates clockwise at most twice.\<close>

theorem spiral_no_reversal:
  assumes run: "spiral ops obj grid init yaw_start visited = Some (path, visited', obj')"
    and ne: "init \<noteq> []" and conn: "four_connected init"
  shows "\<forall>k. length init - 1 \<le> k \<longrightarrow> k + 2 < length path \<longrightarrow> path ! k \<noteq> path ! (k + 2)"
proof -
  let ?n = "length init - 1"
  let ?Q = "\<lambda>t. spiral_inv t
     \<and> (\<forall>k. ?n \<le> k \<longrightarrow> k + 2 < length (st_path t) \<longrightarrow> st_path t ! k \<noteq> st_path t ! (k + 2))
     \<and> (\<not> st_at_begin t \<longrightarrow> 2 \<le> length (st_path t) \<and> st_prev t = st_path t ! (length (st_path t) - 2))
     \<and> (st_at_begin t \<longrightarrow> length (st_path t) \<le> Suc ?n)"
  from spiral_result [OF run] obtain r where
    r: "spiral_loop ops grid (spiral_init ops obj init yaw_start visited) = Some r" "st_path r = path"
    by blast
  have q0: "?Q (spiral_init ops obj init yaw_start visited)"
    using spiral_init_inv [OF ne conn] ne by (auto simp: spiral_init_def Let_def)
  have "?Q r"
  proof (rule spiral_loop_rule [where Q = ?Q, OF r(1) q0])
    fix t b t' assume q: "?Q t" and d: "dir_loop ops grid 0 (turn_ccw t) = (b, t')"
    have "spiral_inv t'" using q d turn_ccw_inv dir_loop_inv by blast
    with no_reversal_step [OF _ _ _ _ d, of ?n] q show "?Q t'" by blast
  qed
  with r(2) show ?thesis by simp
qed

end
