(* ===== verification/Spiral_As_Written.thy ===== *)
theory Spiral_As_Written
  imports Spiral
begin

text \<open>
  The collaborators of \<open>SpiralSTC::spiral\<close> as \<open>src/src/spiral_stc.cpp\<close> wires them.
  The initial tool footprint is \<open>computeFootprintCells(..., "tool", init_cells)\<close>, whose
  failure is only logged, leaving \<open>init_cells\<close> empty; the tool manoeuvre is
  \<open>computeManoeuvreFootprint(..., eAnyDirection, "tool", visited_cells)\<close>. That function
  appends what it computes to the member \<open>man_cells\<close> and never writes its output parameter,
  so \<open>visited_cells\<close> stays empty and no step of the spiral marks a cell. The lemmas show
  that this wiring satisfies the frame condition of the spiral theory and that, with the
  relative manoeuvres that \<open>makePlan\<close> derives from the equally empty \<open>left_turn\<close> and
  \<open>right_turn\<close> lists, the spiral turns left at every step and circles a 2-by-2 block of
  cells for ever when the undefined return of \<open>checkManoeuvreCollision\<close> reads as
  \<open>true\<close>, and never leaves its seed when it reads as \<open>false\<close>.
\<close>

definition as_written_ops :: "fp_env \<Rightarrow> bool \<Rightarrow> spiral_ops" where
  "as_written_ops e fo =
     \<lparr>planner_cm = grid_cm e,
      tool_manoeuvre = (\<lambda>obj x y yaw x' y' yaw'.
         snd (computeManoeuvreFootprint e obj x y yaw x' y' yaw' eAnyDirection Tool [])),
      tool_footprint_cells = (\<lambda>x y yaw.
         case computeFootprintCells e x y yaw Tool of Some cs \<Rightarrow> cs | None \<Rightarrow> []),
      fall_off = fo\<rparr>"

definition stalled_obj :: "grid \<Rightarrow> stc_obj \<Rightarrow> bool" where
  "stalled_obj grid obj \<longleftrightarrow>
     left_turn_rel obj = [] \<and> right_turn_rel obj = []
     \<and> \<not> list_ex (\<lambda>c. grid_at grid c) (man_grids obj) \<and> 0 \<le> max_overlap_turn obj"
  \<comment> \<open>no relative manoeuvre cells, no blocked vehicle cell, a non-negative turn overlap\<close>

subsection \<open>The wiring\<close>

lemma computeManoeuvreFootprint_frame:
  "snd (snd (computeManoeuvreFootprint e obj x y yaw x' y' yaw' d p out)) = out \<and>
   (fst (snd (computeManoeuvreFootprint e obj x y yaw x' y' yaw' d p out)))\<lparr>man_cells := man_cells obj\<rparr> = obj"
  by (simp add: computeManoeuvreFootprint_def split: option.split)

lemma as_written_tool_frame: "tool_frame (as_written_ops e fo)"
  by (simp add: tool_frame_def as_written_ops_def computeManoeuvreFootprint_frame)

lemma as_written_tool_cells [simp]: "snd (tool_call (as_written_ops e fo) i s) = []"
  by (simp add: tool_call_def as_written_ops_def computeManoeuvreFootprint_frame)

lemma as_written_planner_cm [simp]: "planner_cm (as_written_ops e fo) = grid_cm e"
  by (simp add: as_written_ops_def)

lemma as_written_fall_off [simp]: "fall_off (as_written_ops e fo) = fo"
  by (simp add: as_written_ops_def)

subsection \<open>The stalled spiral\<close>

lemma stalled_obj_tool_call:
  assumes "stalled_obj grid (st_obj s)"
  shows "stalled_obj grid (fst (tool_call (as_written_ops e fo) i s))
         \<and> max_overlap (fst (tool_call (as_written_ops e fo) i s)) = overlap_limit (st_obj s) i"
proof -
  have "(fst (tool_call (as_written_ops e fo) i s))\<lparr>man_cells := man_cells (st_obj s)\<rparr>
          = (st_obj s)\<lparr>max_overlap := overlap_limit (st_obj s) i\<rparr>"
    by (rule tool_call_frame [OF as_written_tool_frame])
  from arg_cong [OF this, of "stalled_obj grid"] arg_cong [OF this, of max_overlap] assms
  show ?thesis by (simp add: stalled_obj_def)
qed

lemma stalled_attempt_accepted:
  assumes st: "stalled_obj grid (st_obj s)"
  shows "\<exists>s'. attempt_dir (as_written_ops e True) grid 0 s = (Accepted, s')
              \<and> stalled_obj grid (st_obj s') \<and> st_path s' = st_path s @ [next_cell s]"
proof -
  let ?ops = "as_written_ops e True"
  obtain obj2 cs where tc: "tool_call ?ops 0 s = (obj2, cs)" by fastforce
  from stalled_obj_tool_call [OF st, of e True 0] tc
  have o2: "stalled_obj grid obj2" "max_overlap obj2 = max_overlap_turn (st_obj s)"
    by (simp_all add: overlap_limit_def)
  from tc have "cs = []" using as_written_tool_cells [of e True 0 s] by simp
  with st o2 tc show ?thesis
    by (simp add: attempt_dir_def Let_def stalled_obj_def rel_of_def checkManoeuvreCollision_def
                  count_overlap_def future_blocked_def rotated_cells_def next_cell_def)
qed

lemma stalled_dir_loop:
  assumes "stalled_obj grid (st_obj s)"
  shows "\<exists>s'. dir_loop (as_written_ops e True) grid 0 s = (True, s') \<and> stalled_obj grid (st_obj s')"
  using stalled_attempt_accepted [OF assms, of e] by (auto simp: dir_loop_step)

lemma stalled_spiral_loop_None:
  assumes "stalled_obj grid (st_obj s)"
  shows "spiral_loop (as_written_ops e True) grid s = None"
proof (rule ccontr)
  let ?ops = "as_written_ops e True"
  assume "spiral_loop ?ops grid s \<noteq> None"
  then obtain r where run: "spiral_loop ?ops grid s = Some r" by blast
  have "ops' = ?ops \<and> grid' = grid \<and> stalled_obj grid (st_obj s') \<longrightarrow> False"
    if "spiral_loop ops' grid' s' = Some r'" for ops' grid' s' r'
  proof (rule spiral_loop.raw_induct
      [where P = "\<lambda>ops' grid' s r. ops' = ?ops \<and> grid' = grid \<and> stalled_obj grid (st_obj s) \<longrightarrow> False",
       OF _ that])
    fix f ops1 grid1 s1 r1
    assume IH: "\<And>ops'' grid'' s'' r''. f ops'' grid'' s'' = Some r'' \<Longrightarrow>
                  ops'' = ?ops \<and> grid'' = grid \<and> stalled_obj grid (st_obj s'') \<longrightarrow> False"
      and eq: "(let rr = dir_loop ops1 grid1 0 (turn_ccw s1)
                in if fst rr then f ops1 grid1 (snd rr) else Some (snd rr)) = Some r1"
    show "ops1 = ?ops \<and> grid1 = grid \<and> stalled_obj grid (st_obj s1) \<longrightarrow> False"
    proof
      assume h: "ops1 = ?ops \<and> grid1 = grid \<and> stalled_obj grid (st_obj s1)"
      then have "stalled_obj grid (st_obj (turn_ccw s1))" by simp
      from stalled_dir_loop [OF this, of e] obtain s2 where
        d: "dir_loop ?ops grid 0 (turn_ccw s1) = (True, s2)" and s2: "stalled_obj grid (st_obj s2)"
        by blast
      from eq h d have "f ?ops grid s2 = Some r1" by simp
      from IH [OF this] s2 show False by simp
    qed
  qed
  from this [OF run] assms show False by simp
qed

lemma stalled_spiral_loop_stuck:
  shows "map_option st_path (spiral_loop (as_written_ops e False) grid s) = Some (st_path s)"
proof -
  have "(case checkManoeuvreCollision (man_grids (st_obj s)) grid of Some b \<Rightarrow> b | None \<Rightarrow> fall_off (as_written_ops e False)) = False"
    by (simp add: checkManoeuvreCollision_def)
  then have "attempt_dir (as_written_ops e False) grid 0 (turn_ccw s)
               = (Collision, (turn_ccw s)\<lparr>st_obj := (st_obj s)\<lparr>max_overlap := overlap_limit (st_obj s) 0\<rparr>\<rparr>)"
    by (simp add: attempt_dir_def Let_def del: as_written_fall_off)
  then have "dir_loop (as_written_ops e False) grid 0 (turn_ccw s)
               = (False, (turn_ccw s)\<lparr>st_obj := (st_obj s)\<lparr>max_overlap := overlap_limit (st_obj s) 0\<rparr>\<rparr>)"
    by (simp add: dir_loop_step)
  then show ?thesis
    by (simp add: spiral_loop_unfold [where grid = grid and s = s] turn_ccw_def Let_def)
qed

lemma stalled_obj_init [simp]:
  "stalled_obj grid (st_obj (spiral_init ops obj init yaw_start visited)) = stalled_obj grid obj"
  by (simp add: spiral_init_def Let_def stalled_obj_def)

text \<open>C3 (liveness). The spiral as the source wires it does not make coverage progress.
  With the relative manoeuvres empty (as \<open>makePlan\<close> leaves them), no blocked cell in
  \<open>man_grids\<close> and a non-negative \<open>max_overlap_turn\<close>: if the missing \<open>return\<close> of
  \<open>checkManoeuvreCollision\<close> reads as \<open>true\<close>, the left turn is accepted at every
  step and \<open>spiral\<close> never returns; if it reads as \<open>false\<close>, \<open>spiral\<close> returns its
  seed path without a step.\<close>

theorem spiral_as_written_no_progress:
  assumes "stalled_obj grid obj"
  shows "spiral (as_written_ops e True) obj grid init yaw_start visited = None
         \<and> map_option fst (spiral (as_written_ops e False) obj grid init yaw_start visited) = Some init"
proof
  show "spiral (as_written_ops e True) obj grid init yaw_start visited = None"
    using stalled_spiral_loop_None [of grid "spiral_init (as_written_ops e True) obj init yaw_start visited" e] assms
    by (simp add: spiral_def)
  show "map_option fst (spiral (as_written_ops e False) obj grid init yaw_start visited) = Some init"
    using stalled_spiral_loop_stuck [of e grid "spiral_init (as_written_ops e False) obj init yaw_start visited"]
    by (simp add: spiral_def option.map_comp comp_def spiral_init_def Let_def)
qed

end
