(* ===== verification/Planner.thy ===== *)
theory Planner
  imports Spiral_As_Written
begin

text \<open>
  The planning call of \<open>src/src/spiral_stc.cpp\<close>: the manoeuvre catalogue of
  \<open>SpiralSTC::makePlan\<close> (lines 498--545), the coverage loop
  \<open>SpiralSTC::spiral_stc\<close> (lines 306--464) and \<open>makePlan\<close> itself (lines 466--579)
  without its logging, plan conversion and publishing.
  The relocation search \<open>a_star_to_open_space\<close>, the goal list \<open>map_2_goals\<close> and the
  grid parser \<open>parseGrid\<close> belong to the planner's base class, which is not under
  \<open>src/\<close>: \<open>map_2_goals\<close> is modelled from the specification (the open cells in
  row-major order); the search and the parser are parameters (\<open>stc_ops\<close>, and the
  parsed grid, start and yaw passed to \<open>makePlan\<close>).
  The relocation loop \<open>while (!accept_a_star)\<close> and the outer \<open>while (goals.size() != 0)\<close>
  may not end, so both are partial functions; one iteration of the outer loop is
  \<open>stc_step\<close>, which returns \<open>Inl\<close> of the final state when the loop exits and
  \<open>Inr\<close> of the next state when it continues.
\<close>

subsection \<open>The manoeuvre catalogue\<close>

definition rel_cells :: "int \<Rightarrow> int \<Rightarrow> cell list \<Rightarrow> cell list" where
  "rel_cells mid_x mid_y cs = map (\<lambda>c. (fst c - mid_x, snd c - mid_y)) cs"
  \<comment> \<open>\<open>x_rel[i] = {(int)x[i].x - mid_x, (int)x[i].y - mid_y}\<close> after \<open>resize(x.size())\<close>\<close>

definition make_catalogue :: "fp_env \<Rightarrow> stc_obj \<Rightarrow> stc_obj" where
  "make_catalogue e obj =
     (let cm = grid_cm e;
          mid_x = int (size_x cm) div 2; mid_y = int (size_y cm) div 2;
          mid_x_plus_one = mid_x + 1; mid_y_plus_one = mid_y + 1; mid_y_minus_one = mid_y - 1;
          yaw = 0;
          r1 = computeManoeuvreFootprint e obj mid_x mid_y yaw mid_x mid_y_plus_one
                 (atan2 (of_int (mid_y_plus_one - mid_y)) (of_int (mid_x - mid_x))) eAnyDirection Vehicle
                 (left_turn obj);
          r2 = computeManoeuvreFootprint e (fst (snd r1)) mid_x mid_y yaw mid_x_plus_one mid_y
                 (atan2 (of_int (mid_y - mid_y)) (of_int (mid_x_plus_one - mid_x))) eAnyDirection Vehicle
                 (forward obj);
          r3 = computeManoeuvreFootprint e (fst (snd r2)) mid_x mid_y yaw mid_x mid_y_minus_one
                 (atan2 (of_int (mid_y_minus_one - mid_y)) (of_int (mid_x - mid_x))) eAnyDirection Vehicle
                 (right_turn obj);
          r4 = computeManoeuvreFootprint e (fst (snd r3)) mid_x mid_y yaw mid_x mid_y (yaw + pi)
                 eCounterClockwise Vehicle (turn_around_left obj);
          r5 = computeManoeuvreFootprint e (fst (snd r4)) mid_x mid_y yaw mid_x mid_y (yaw + pi)
                 eClockwise Vehicle (turn_around_right obj);
          lt = snd (snd r1); fw = snd (snd r2); rt = snd (snd r3); tal = snd (snd r4); tar = snd (snd r5)
      in (fst (snd r5))\<lparr>left_turn := lt, forward := fw, right_turn := rt,
                         turn_around_left := tal, turn_around_right := tar,
                         left_turn_rel := rel_cells mid_x mid_y lt, forward_rel := rel_cells mid_x mid_y fw,
                         right_turn_rel := rel_cells mid_x mid_y rt,
                         turn_around_left_rel := rel_cells mid_x mid_y tal,
                         turn_around_right_rel := rel_cells mid_x mid_y tar\<rparr>)"

subsection \<open>Goals and the relocation search\<close>

definition map_2_goals :: "grid \<Rightarrow> bool \<Rightarrow> cell list" where
  "map_2_goals g v =
     concat (map (\<lambda>y. map (\<lambda>x. (int x, int y)) (filter (\<lambda>x. g ! y ! x = v) [0..<length (g ! y)]))
                 [0..<length g])"
  \<comment> \<open>the cells holding \<open>v\<close>, in row-major order\<close>

record stc_ops =
  a_star :: "grid \<Rightarrow> cell \<Rightarrow> grid \<Rightarrow> cell list \<Rightarrow> cell list \<Rightarrow> bool \<times> cell list"
  \<comment> \<open>\<open>a_star_to_open_space(grid, start, 1, visited, goals, path_nodes)\<close>: the resign
     flag and \<open>path_nodes\<close> after the call\<close>

definition end_footprint :: "fp_env \<Rightarrow> int \<Rightarrow> int \<Rightarrow> real \<Rightarrow> bool \<times> cell list" where
  "end_footprint e x_n y_n yaw =
     (case computeFootprintCells e x_n y_n yaw Vehicle of Some cs \<Rightarrow> (True, cs) | None \<Rightarrow> (False, []))"

definition a_star_accepted :: "fp_env \<Rightarrow> grid \<Rightarrow> grid \<Rightarrow> int \<Rightarrow> cell list \<Rightarrow> bool" where
  "a_star_accepted e grid visited bound pn =
     (let x_n = fst (last pn); y_n = snd (last pn); prev = pn ! (length pn - 2);
          yaw = atan2 (of_int (y_n - snd prev)) (of_int (x_n - fst prev));
          fp = end_footprint e x_n y_n yaw;
          accept = fst fp \<and> \<not> list_ex (\<lambda>c. grid_at grid c = eNodeVisited) (snd fp);
          visit_count = length (filter (\<lambda>c. grid_at visited c = eNodeVisited)
                                  (takeWhile (\<lambda>c. grid_at grid c \<noteq> eNodeVisited) (snd fp)))
      in accept \<and> \<not> int visit_count > bound)"
  \<comment> \<open>the end-footprint test of the relocation loop, lines 370--386\<close>

partial_function (option) astar_loop ::
  "fp_env \<Rightarrow> stc_ops \<Rightarrow> grid \<Rightarrow> int \<Rightarrow> cell list \<Rightarrow> cell list \<Rightarrow> grid \<Rightarrow> (bool \<times> cell list \<times> grid) option"
where
  "astar_loop e aops grid bound goals pn visited =
     (let r = a_star aops grid (last pn) visited goals pn; pn' = snd r
      in if fst r then Some (True, pn', visited)
         else if length pn' \<le> 1 then Some (False, pn', visited)
         else if a_star_accepted e grid visited bound pn' then Some (False, pn', visited)
         else astar_loop e aops grid bound goals (take 1 pn') (grid_mark visited (last pn')))"

subsection \<open>The coverage loop\<close>

record stc_state =
  sc_path :: "cell list"
  sc_visited :: grid
  sc_obj :: stc_obj
  sc_goals :: "cell list"
  sc_full :: "cell list"
  sc_mpc :: int
  sc_vc :: int

definition mark_counting :: "cell list \<Rightarrow> grid \<times> int \<Rightarrow> grid \<times> int" where
  "mark_counting pn vm =
     fold (\<lambda>c (v, m). (grid_mark v c, if grid_at v c then m + 1 else m)) pn vm"
  \<comment> \<open>lines 403--410: mark the relocation path, counting cells already visited\<close>

definition resize_list :: "'a list \<Rightarrow> nat \<Rightarrow> 'a \<Rightarrow> 'a list" where
  "resize_list xs n x = take n xs @ replicate (n - length xs) x"
  \<comment> \<open>\<open>std::vector::resize(n, x)\<close>\<close>

definition stc_step ::
  "fp_env \<Rightarrow> stc_ops \<Rightarrow> spiral_ops \<Rightarrow> grid \<Rightarrow> real \<Rightarrow> stc_state \<Rightarrow> (stc_state + stc_state) option" where
  "stc_step e aops ops grid yaw_start s =
     (if sc_goals s = [] then Some (Inl s)
      else
        (let obj1 = (sc_obj s)\<lparr>spiral_counter := spiral_counter (sc_obj s) + 1\<rparr>
         in if spiral_counter obj1 = 2 then Some (Inl (s\<lparr>sc_obj := obj1\<rparr>))
            else
              (let vc1 = sc_vc s - 1
               in case astar_loop e aops grid (max_overlap obj1) (sc_goals s) [last (sc_path s)] (sc_visited s) of
                    None \<Rightarrow> None
                  | Some r \<Rightarrow>
                      (let pn = fst (snd r); v1 = snd (snd r)
                       in if fst r then Some (Inl (s\<lparr>sc_path := pn, sc_visited := v1, sc_obj := obj1, sc_vc := vc1\<rparr>))
                          else
                            (let vm = mark_counting pn (v1, sc_mpc s);
                                 mpc1 = (if pn \<noteq> [] then snd vm - 1 else snd vm)
                             in case spiral ops obj1 grid pn yaw_start (fst vm) of
                                  None \<Rightarrow> None
                                | Some q \<Rightarrow>
                                    (let path = fst q; v2 = fst (snd q); obj2 = snd (snd q)
                                     in Some (Inr \<lparr>sc_path = path, sc_visited = v2, sc_obj = obj2,
                                                   sc_goals = map_2_goals v2 eNodeOpen,
                                                   sc_full = sc_full s @ path, sc_mpc = mpc1,
                                                   sc_vc = vc1 + int (length path)\<rparr>)))))))"

partial_function (option) stc_loop ::
  "fp_env \<Rightarrow> stc_ops \<Rightarrow> spiral_ops \<Rightarrow> grid \<Rightarrow> real \<Rightarrow> stc_state \<Rightarrow> stc_state option"
where
  "stc_loop e aops ops grid yaw_start s =
     (case stc_step e aops ops grid yaw_start s of
        None \<Rightarrow> None
      | Some r \<Rightarrow> (case r of Inl s' \<Rightarrow> Some s' | Inr s' \<Rightarrow> stc_loop e aops ops grid yaw_start s'))"

definition stc_setup :: "stc_obj \<Rightarrow> grid \<Rightarrow> stc_obj" where
  "stc_setup obj visited =
     obj\<lparr>visited_copy := resize_list (visited_copy obj) (length (visited ! 0)) (replicate (length visited) False)\<rparr>"
  \<comment> \<open>line 317: \<open>visited_copy.resize(visited[0].size(), std::vector<bool>(visited.size()))\<close>\<close>

definition spiral_stc ::
  "fp_env \<Rightarrow> stc_ops \<Rightarrow> spiral_ops \<Rightarrow> grid \<Rightarrow> cell \<Rightarrow> real \<Rightarrow> stc_obj
   \<Rightarrow> (cell list \<times> int \<times> int \<times> stc_obj) option" where
  "spiral_stc e aops ops grid init yaw_start obj =
     (let visited = grid; obj0 = stc_setup obj visited
      in case spiral ops obj0 grid [init] yaw_start visited of
           None \<Rightarrow> None
         | Some q \<Rightarrow>
             (let path = fst q; v1 = fst (snd q); obj1 = snd (snd q);
                  s0 = \<lparr>sc_path = path, sc_visited = v1, sc_obj = obj1, sc_goals = map_2_goals v1 eNodeOpen,
                        sc_full = path, sc_mpc = 0, sc_vc = int (length path)\<rparr>
              in map_option (\<lambda>s. (sc_full s, sc_mpc s, sc_vc s, sc_obj s))
                   (stc_loop e aops ops grid yaw_start s0)))"

record spiral_cpp_metrics =
  visited_counter :: int
  multiple_pass_counter :: int
  accessible_counter :: int
  total_area_covered :: real
  \<comment> \<open>the member \<open>spiral_cpp_metrics_\<close>\<close>

definition makePlan ::
  "bool \<Rightarrow> (grid \<times> cell \<times> real) option \<Rightarrow> fp_env \<Rightarrow> stc_ops \<Rightarrow> spiral_ops \<Rightarrow> stc_obj
   \<Rightarrow> spiral_cpp_metrics \<Rightarrow> (bool \<times> cell list \<times> spiral_cpp_metrics \<times> stc_obj) option" where
  "makePlan initialized parsed e aops ops obj met =
     (if \<not> initialized then Some (False, [], met, obj)
      else case parsed of
             None \<Rightarrow> Some (False, [], met, obj)
           | Some p \<Rightarrow>
               (let grid = fst p; start_point = fst (snd p); yaw_start = snd (snd p);
                    obj1 = make_catalogue e obj
                in map_option
                     (\<lambda>r. let goal_points = fst r; mpc = fst (snd r); vc = fst (snd (snd r))
                          in (True, goal_points,
                              met\<lparr>visited_counter := vc, multiple_pass_counter := mpc,
                                  accessible_counter := vc - mpc\<rparr>,
                              snd (snd (snd r))))
                     (spiral_stc e aops ops grid start_point yaw_start obj1)))"
  \<comment> \<open>the plan is the cell list \<open>goal_points\<close> that \<open>parsePointlist2Plan\<close> converts to poses;
     the conversion, the logging and \<open>publishPlan\<close> are output only\<close>

definition a_star_extends :: "stc_ops \<Rightarrow> bool" where
  "a_star_extends aops \<longleftrightarrow> (\<forall>g c v gl pn. prefix pn (snd (a_star aops g c v gl pn)))"
  \<comment> \<open>contract of the search: it extends \<open>path_nodes\<close> from its last node\<close>

definition a_star_progress :: "stc_ops \<Rightarrow> nat \<Rightarrow> nat \<Rightarrow> bool" where
  "a_star_progress aops w h \<longleftrightarrow>
     (\<forall>g c v gl pn. \<not> fst (a_star aops g c v gl pn) \<longrightarrow> 1 < length (snd (a_star aops g c v gl pn)) \<longrightarrow>
        in_dims w h (last (snd (a_star aops g c v gl pn))) \<and> \<not> grid_at v (last (snd (a_star aops g c v gl pn))))"
  \<comment> \<open>contract of the search from the specification: a path it returns ends at a goal,
     a cell of the grid that is not visited\<close>

subsection \<open>The catalogue as written\<close>

lemma spiral_stalled_None:
  "stalled_obj grid obj \<Longrightarrow> spiral (as_written_ops e True) obj grid init yaw_start visited = None"
  using stalled_spiral_loop_None [of grid "spiral_init (as_written_ops e True) obj init yaw_start visited" e]
  by (simp add: spiral_def)

lemma computeManoeuvreFootprint_obj [simp]:
  "snd (snd (computeManoeuvreFootprint e obj x y yaw x' y' yaw' d p out)) = out"
  "man_grids (fst (snd (computeManoeuvreFootprint e obj x y yaw x' y' yaw' d p out))) = man_grids obj"
  "max_overlap (fst (snd (computeManoeuvreFootprint e obj x y yaw x' y' yaw' d p out))) = max_overlap obj"
  "max_overlap_turn (fst (snd (computeManoeuvreFootprint e obj x y yaw x' y' yaw' d p out))) = max_overlap_turn obj"
  "max_overlap_forward (fst (snd (computeManoeuvreFootprint e obj x y yaw x' y' yaw' d p out)))
     = max_overlap_forward obj"
  "spiral_counter (fst (snd (computeManoeuvreFootprint e obj x y yaw x' y' yaw' d p out))) = spiral_counter obj"
  "visited_copy (fst (snd (computeManoeuvreFootprint e obj x y yaw x' y' yaw' d p out))) = visited_copy obj"
  by (simp_all add: computeManoeuvreFootprint_def split: option.split)

lemma make_catalogue_fields:
  "left_turn_rel (make_catalogue e obj) = rel_cells (int (size_x (grid_cm e)) div 2) (int (size_y (grid_cm e)) div 2) (left_turn obj)
   \<and> right_turn_rel (make_catalogue e obj) = rel_cells (int (size_x (grid_cm e)) div 2) (int (size_y (grid_cm e)) div 2) (right_turn obj)
   \<and> left_turn (make_catalogue e obj) = left_turn obj \<and> right_turn (make_catalogue e obj) = right_turn obj
   \<and> man_grids (make_catalogue e obj) = man_grids obj
   \<and> max_overlap_turn (make_catalogue e obj) = max_overlap_turn obj
   \<and> max_overlap_forward (make_catalogue e obj) = max_overlap_forward obj
   \<and> spiral_counter (make_catalogue e obj) = spiral_counter obj"
  by (simp add: make_catalogue_def Let_def)

lemma make_catalogue_stalled:
  assumes "left_turn obj = []" "right_turn obj = []"
    and "\<not> list_ex (\<lambda>c. grid_at grid c) (man_grids obj)" "0 \<le> max_overlap_turn obj"
  shows "stalled_obj grid (make_catalogue e obj)"
  using assms make_catalogue_fields [of e obj] by (simp add: stalled_obj_def rel_cells_def)

lemma stalled_stc_setup [simp]: "stalled_obj grid (stc_setup obj v) = stalled_obj grid obj"
  by (simp add: stc_setup_def stalled_obj_def)

lemma attempt_dir_as_written_man_grids:
  assumes "man_grids (st_obj s) = []"
  shows "(fst (attempt_dir (as_written_ops e fo) grid i s) = Collision \<longleftrightarrow> \<not> fo)
         \<and> man_grids (st_obj (snd (attempt_dir (as_written_ops e fo) grid i s))) = []"
proof -
  have "man_grids (fst (tool_call (as_written_ops e fo) i s)) = man_grids (st_obj s)"
    using arg_cong [OF tool_call_frame [OF as_written_tool_frame], of man_grids] by simp
  with assms show ?thesis
    by (cases fo) (auto simp: attempt_dir_def Let_def checkManoeuvreCollision_def split: prod.split)
qed

text \<open>C5 (safety). The vehicle collision check is dead as the source wires it. The member
  \<open>man_grids\<close> that \<open>checkManoeuvreCollision\<close> reads at line 228 is written by no code
  of the file: \<open>computeManoeuvreFootprint\<close> appends to \<open>man_cells\<close>, and the catalogue
  of \<open>makePlan\<close> passes its own lists. From the constructed object, where it is empty,
  every direction of every spiral step checks the empty list, so whether a direction is a
  collision depends on the missing \<open>return\<close> alone, never on the obstacles of the grid;
  and neither the direction loop nor the catalogue ever fills the member.\<close>

theorem as_written_collision_ignores_grid:
  assumes "man_grids (st_obj s) = []"
  shows "(fst (attempt_dir (as_written_ops e fo) grid i s) = Collision \<longleftrightarrow> \<not> fo)
         \<and> (fst (attempt_dir (as_written_ops e fo) grid i s) = Collision
              \<longleftrightarrow> fst (attempt_dir (as_written_ops e fo) grid' i s) = Collision)
         \<and> man_grids (st_obj (snd (dir_loop (as_written_ops e fo) grid i s))) = []
         \<and> man_grids (make_catalogue e obj) = man_grids obj"
proof (intro conjI)
  show "fst (attempt_dir (as_written_ops e fo) grid i s) = Collision \<longleftrightarrow> \<not> fo"
    using attempt_dir_as_written_man_grids [OF assms] by blast
  show "fst (attempt_dir (as_written_ops e fo) grid i s) = Collision
          \<longleftrightarrow> fst (attempt_dir (as_written_ops e fo) grid' i s) = Collision"
    using attempt_dir_as_written_man_grids [OF assms, of e fo grid i]
      attempt_dir_as_written_man_grids [OF assms, of e fo grid' i] by blast
  show "man_grids (st_obj (snd (dir_loop (as_written_ops e fo) grid i s))) = []"
  proof (rule dir_loop_preserves [where Q = "\<lambda>s. man_grids (st_obj s) = []"])
    show "dir_loop (as_written_ops e fo) grid i s
            = (fst (dir_loop (as_written_ops e fo) grid i s), snd (dir_loop (as_written_ops e fo) grid i s))"
      by simp
  next
    fix j t a t' assume "attempt_dir (as_written_ops e fo) grid j t = (a, t')" "man_grids (st_obj t) = []"
    then show "man_grids (st_obj t') = []"
      using attempt_dir_as_written_man_grids [of t e fo grid j] by simp
  qed (use assms in simp_all)
  show "man_grids (make_catalogue e obj) = man_grids obj"
    using make_catalogue_fields [of e obj] by simp
qed

text \<open>C9 (liveness). No planning call returns. \<open>makePlan\<close> derives the relative
  manoeuvres from the members \<open>left_turn\<close> and \<open>right_turn\<close>, which its calls of
  \<open>computeManoeuvreFootprint\<close> never fill, so they are empty in every call; with no
  blocked cell in \<open>man_grids\<close> (a member nothing assigns), a non-negative
  \<open>max_overlap_turn\<close> and the missing \<open>return\<close> of \<open>checkManoeuvreCollision\<close>
  reading as \<open>true\<close>, the first spiral of \<open>spiral_stc\<close> never returns.\<close>

theorem makePlan_as_written_no_return:
  assumes "left_turn obj = []" "right_turn obj = []"
    and "\<not> list_ex (\<lambda>c. grid_at grid c) (man_grids obj)" "0 \<le> max_overlap_turn obj"
  shows "makePlan True (Some (grid, start, yaw_start)) e aops (as_written_ops e True) obj met = None"
proof -
  have "stalled_obj grid (stc_setup (make_catalogue e obj) grid)"
    using make_catalogue_stalled [OF assms] by simp
  then show ?thesis by (simp add: makePlan_def spiral_stc_def spiral_stalled_None)
qed

subsection \<open>Relocation\<close>

lemma prefix_take1: "prefix xs ys \<Longrightarrow> xs \<noteq> [] \<Longrightarrow> take 1 ys = take 1 xs"
  by (cases xs) (auto simp: prefix_def)

lemma astar_loop_rule:
  assumes run: "astar_loop e aops grid bound goals pn visited = Some r" and i: "I pn visited"
    and stop: "\<And>pn v. I pn v \<Longrightarrow>
                 fst (a_star aops grid (last pn) v goals pn) \<or> length (snd (a_star aops grid (last pn) v goals pn)) \<le> 1
                 \<or> a_star_accepted e grid v bound (snd (a_star aops grid (last pn) v goals pn)) \<Longrightarrow>
                 Q (fst (a_star aops grid (last pn) v goals pn), snd (a_star aops grid (last pn) v goals pn), v)"
    and reject: "\<And>pn v. I pn v \<Longrightarrow> \<not> fst (a_star aops grid (last pn) v goals pn) \<Longrightarrow>
                 1 < length (snd (a_star aops grid (last pn) v goals pn)) \<Longrightarrow>
                 \<not> a_star_accepted e grid v bound (snd (a_star aops grid (last pn) v goals pn)) \<Longrightarrow>
                 I (take 1 (snd (a_star aops grid (last pn) v goals pn)))
                   (grid_mark v (last (snd (a_star aops grid (last pn) v goals pn))))"
  shows "Q r"
proof -
  have "e' = e \<and> aops' = aops \<and> grid' = grid \<and> bound' = bound \<and> goals' = goals \<and> I pn' v'
          \<longrightarrow> Q r'"
    if "astar_loop e' aops' grid' bound' goals' pn' v' = Some r'" for e' aops' grid' bound' goals' pn' v' r'
  proof (rule astar_loop.raw_induct
      [where P = "\<lambda>e' aops' grid' bound' goals' pn' v' r'. e' = e \<and> aops' = aops \<and> grid' = grid
                    \<and> bound' = bound \<and> goals' = goals \<and> I pn' v' \<longrightarrow> Q r'",
       OF _ that])
    fix f e1 aops1 grid1 bound1 goals1 pn1 v1 r1
    assume IH: "\<And>e2 aops2 grid2 bound2 goals2 pn2 v2 r2. f e2 aops2 grid2 bound2 goals2 pn2 v2 = Some r2 \<Longrightarrow>
                  e2 = e \<and> aops2 = aops \<and> grid2 = grid \<and> bound2 = bound \<and> goals2 = goals \<and> I pn2 v2
                  \<longrightarrow> Q r2"
      and eq: "(let r = a_star aops1 grid1 (last pn1) v1 goals1 pn1; pn' = snd r
                in if fst r then Some (True, pn', v1)
                   else if length pn' \<le> 1 then Some (False, pn', v1)
                   else if a_star_accepted e1 grid1 v1 bound1 pn' then Some (False, pn', v1)
                   else f e1 aops1 grid1 bound1 goals1 (take 1 pn') (grid_mark v1 (last pn'))) = Some r1"
    show "e1 = e \<and> aops1 = aops \<and> grid1 = grid \<and> bound1 = bound \<and> goals1 = goals \<and> I pn1 v1
            \<longrightarrow> Q r1"
    proof
      assume h: "e1 = e \<and> aops1 = aops \<and> grid1 = grid \<and> bound1 = bound \<and> goals1 = goals \<and> I pn1 v1"
      let ?r = "a_star aops grid (last pn1) v1 goals pn1"
      show "Q r1"
      proof (cases "fst ?r \<or> length (snd ?r) \<le> 1 \<or> a_star_accepted e grid v1 bound (snd ?r)")
        case True
        with eq h stop [of pn1 v1] show ?thesis by (auto simp: Let_def split: if_splits)
      next
        case False
        with eq h have "f e aops grid bound goals (take 1 (snd ?r)) (grid_mark v1 (last (snd ?r))) = Some r1"
          by (simp add: Let_def)
        from IH [OF this] h False reject [of pn1 v1] show ?thesis by simp
      qed
    qed
  qed
  with run i show ?thesis by blast
qed

lemma astar_loop_preserves:
  assumes run: "astar_loop e aops grid bound goals pn visited = Some r" and q: "Q pn visited"
    and search: "\<And>pn v. Q pn v \<Longrightarrow> Q (snd (a_star aops grid (last pn) v goals pn)) v"
    and reject: "\<And>pn v. Q pn v \<Longrightarrow> Q (take 1 pn) (grid_mark v (last pn))"
  shows "Q (fst (snd r)) (snd (snd r))"
proof (rule astar_loop_rule [OF run, where I = Q and Q = "\<lambda>r. Q (fst (snd r)) (snd (snd r))"])
  fix pn v assume "Q pn v"
  then show "Q (fst (snd (fst (a_star aops grid (last pn) v goals pn), snd (a_star aops grid (last pn) v goals pn), v)))
               (snd (snd (fst (a_star aops grid (last pn) v goals pn), snd (a_star aops grid (last pn) v goals pn), v)))"
    by (simp add: search)
next
  fix pn v assume "Q pn v"
  then show "Q (take 1 (snd (a_star aops grid (last pn) v goals pn)))
               (grid_mark v (last (snd (a_star aops grid (last pn) v goals pn))))"
    by (intro reject search)
qed (rule q)

lemma astar_loop_head:
  assumes run: "astar_loop e aops grid bound goals pn visited = Some r"
    and ext: "a_star_extends aops" and ne: "pn \<noteq> []"
  shows "take 1 (fst (snd r)) = take 1 pn"
proof -
  have "take 1 (fst (snd r)) = take 1 pn \<and> fst (snd r) \<noteq> []"
  proof (rule astar_loop_preserves [OF run, where Q = "\<lambda>pn' v. take 1 pn' = take 1 pn \<and> pn' \<noteq> []"])
    fix pn' v assume q: "take 1 pn' = take 1 pn \<and> pn' \<noteq> []"
    let ?r = "snd (a_star aops grid (last pn') v goals pn')"
    from ext have "prefix pn' ?r" unfolding a_star_extends_def by blast
    with q show "take 1 ?r = take 1 pn \<and> ?r \<noteq> []" using prefix_take1 [of pn' ?r] by auto
  qed (use ne in auto)
  then show ?thesis ..
qed

lemma stc_step_Inr:
  assumes "stc_step e aops ops grid yaw_start s = Some (Inr s')"
  shows "\<exists>pn v1 v2 ob.
           astar_loop e aops grid (max_overlap (sc_obj s)) (sc_goals s) [last (sc_path s)] (sc_visited s)
             = Some (False, pn, v1)
           \<and> spiral ops ((sc_obj s)\<lparr>spiral_counter := spiral_counter (sc_obj s) + 1\<rparr>) grid pn yaw_start
                 (fst (mark_counting pn (v1, sc_mpc s))) = Some (sc_path s', v2, ob)
           \<and> sc_full s' = sc_full s @ sc_path s'"
  using assms by (auto simp: stc_step_def Let_def split: if_splits option.splits)

lemma stc_step_junction:
  assumes ext: "a_star_extends aops"
    and step: "stc_step e aops ops grid yaw_start s = Some (Inr s')"
    and inv: "last (sc_full s) = last (sc_path s)"
  shows "sc_full s' = sc_full s @ sc_path s' \<and> sc_path s' \<noteq> [] \<and> hd (sc_path s') = last (sc_full s)"
proof -
  from stc_step_Inr [OF step] obtain pn v1 v2 ob where
    a: "astar_loop e aops grid (max_overlap (sc_obj s)) (sc_goals s) [last (sc_path s)] (sc_visited s)
          = Some (False, pn, v1)"
    and sp: "spiral ops ((sc_obj s)\<lparr>spiral_counter := spiral_counter (sc_obj s) + 1\<rparr>) grid pn yaw_start
               (fst (mark_counting pn (v1, sc_mpc s))) = Some (sc_path s', v2, ob)"
    and f: "sc_full s' = sc_full s @ sc_path s'" by blast
  have t: "take 1 pn = [last (sc_path s)]" using astar_loop_head [OF a ext] by simp
  then have "pn \<noteq> []" by auto
  with spiral_path_prefix [OF sp] have "take 1 (sc_path s') = take 1 pn" by (rule prefix_take1)
  with t inv have "take 1 (sc_path s') = [last (sc_full s)]" by simp
  then have "sc_path s' \<noteq> []" "hd (sc_path s') = last (sc_full s)"
    by (cases "sc_path s'"; simp)+
  with f show ?thesis by simp
qed

lemma stc_step_Inl_full:
  "stc_step e aops ops grid yaw_start s = Some (Inl s') \<Longrightarrow> sc_full s' = sc_full s"
  by (auto simp: stc_step_def Let_def split: if_splits option.splits)

text \<open>C10 (safety). Every relocation repeats a cell in the output path. The search
  extends \<open>path_nodes\<close>, which \<open>spiral_stc\<close> cuts down to the last node of the
  previous spiral; that node starts the relocation path, the relocation path starts the
  next spiral, and the whole of the next spiral is appended to \<open>full_path\<close>, whose last
  cell is that node already. So after any relocation the output is not 4-connected, as
  the specification's connectivity property requires: it repeats the junction cell.
  The relation between the last cells is re-established, so this holds at every
  relocation.\<close>

theorem stc_step_repeats_junction:
  assumes ext: "a_star_extends aops"
    and step: "stc_step e aops ops grid yaw_start s = Some (Inr s')"
    and ne: "sc_full s \<noteq> []" and inv: "last (sc_full s) = last (sc_path s)"
  shows "sc_full s' = sc_full s @ sc_path s' \<and> hd (sc_path s') = last (sc_full s)
         \<and> last (sc_full s') = last (sc_path s') \<and> \<not> four_connected (sc_full s')"
  using stc_step_junction [OF ext step inv] four_connected_junction [OF ne] by auto

subsection \<open>Set-up and the debug guard\<close>

lemma resize_list_Nil [simp]: "resize_list [] n x = replicate n x"
  by (simp add: resize_list_def)

text \<open>C12 (bounds). The debug grid \<open>visited_copy\<close> is sized transposed: on the first
  call (the member still empty) it gets \<open>visited[0].size()\<close> rows of
  \<open>visited.size()\<close> cells, that is width rows of height cells, while every write
  \<open>visited_copy[y][x]\<close> indexes it by row \<open>y < height\<close> and column \<open>x < width\<close>.
  On a grid taller than wide the last rows are out of range.\<close>

theorem stc_setup_transposed:
  assumes "grid_dims grid W H" and "0 < H" and "visited_copy obj = []"
  shows "grid_dims (visited_copy (stc_setup obj grid)) H W
         \<and> (W < H \<longrightarrow> length (visited_copy (stc_setup obj grid)) < H)"
proof -
  from assms(1,2) have "length (grid ! 0) = W" by (simp add: grid_dims_def list_all_length)
  moreover from assms(1) have "length grid = H" by (simp add: grid_dims_def)
  ultimately show ?thesis using assms(3)
    by (simp add: stc_setup_def grid_dims_def list_all_iff)
qed

text \<open>C13 (functional). The debug break of \<open>spiral_stc\<close>: the member
  \<open>spiral_counter\<close> is incremented before each relocation and the loop stops when it
  reaches 2, whatever cells are still open. Starting from 0, a planning call makes at most
  one relocation.\<close>

theorem stc_step_debug_break:
  assumes "sc_goals s \<noteq> []" and "spiral_counter (sc_obj s) = 1"
  shows "stc_step e aops ops grid yaw_start s
           = Some (Inl (s\<lparr>sc_obj := (sc_obj s)\<lparr>spiral_counter := 2\<rparr>\<rparr>))"
  using assms by (simp add: stc_step_def)

text \<open>C14 (functional). \<open>spiral_counter\<close> is a member that no call resets, so once a
  planning call has passed the debug break the guard never fires again: from a counter
  of 2 or more, the coverage loop ends only when no goal is left or the relocation
  search resigns.\<close>

theorem stc_step_guard_spent:
  assumes "2 \<le> spiral_counter (sc_obj s)" and "stc_step e aops ops grid yaw_start s = Some (Inl s')"
  shows "sc_goals s = []
         \<or> astar_loop e aops grid (max_overlap (sc_obj s)) (sc_goals s) [last (sc_path s)] (sc_visited s)
              = Some (True, sc_path s', sc_visited s')"
  using assms by (auto simp: stc_step_def Let_def split: if_splits option.splits)

subsection \<open>Invariants of the coverage loop\<close>

lemma stc_loop_rule:
  assumes run: "stc_loop e aops ops grid yaw_start s = Some r" and i: "I s"
    and cont: "\<And>s s'. stc_step e aops ops grid yaw_start s = Some (Inr s') \<Longrightarrow> I s \<Longrightarrow> I s'"
    and stop: "\<And>s s'. stc_step e aops ops grid yaw_start s = Some (Inl s') \<Longrightarrow> I s \<Longrightarrow> Q s'"
  shows "Q r"
proof -
  have "e' = e \<and> aops' = aops \<and> ops' = ops \<and> grid' = grid \<and> y' = yaw_start \<and> I s' \<longrightarrow> Q r'"
    if "stc_loop e' aops' ops' grid' y' s' = Some r'" for e' aops' ops' grid' y' s' r'
  proof (rule stc_loop.raw_induct
      [where P = "\<lambda>e' aops' ops' grid' y' s' r'. e' = e \<and> aops' = aops \<and> ops' = ops \<and> grid' = grid
                    \<and> y' = yaw_start \<and> I s' \<longrightarrow> Q r'", OF _ that])
    fix f e1 aops1 ops1 grid1 y1 s1 r1
    assume IH: "\<And>e2 aops2 ops2 grid2 y2 s2 r2. f e2 aops2 ops2 grid2 y2 s2 = Some r2 \<Longrightarrow>
                  e2 = e \<and> aops2 = aops \<and> ops2 = ops \<and> grid2 = grid \<and> y2 = yaw_start \<and> I s2 \<longrightarrow> Q r2"
      and eq: "(case stc_step e1 aops1 ops1 grid1 y1 s1 of None \<Rightarrow> None
                | Some r \<Rightarrow> (case r of Inl s' \<Rightarrow> Some s' | Inr s' \<Rightarrow> f e1 aops1 ops1 grid1 y1 s')) = Some r1"
    show "e1 = e \<and> aops1 = aops \<and> ops1 = ops \<and> grid1 = grid \<and> y1 = yaw_start \<and> I s1 \<longrightarrow> Q r1"
    proof
      assume h: "e1 = e \<and> aops1 = aops \<and> ops1 = ops \<and> grid1 = grid \<and> y1 = yaw_start \<and> I s1"
      from eq obtain rr where st: "stc_step e aops ops grid yaw_start s1 = Some rr"
        using h by (cases "stc_step e aops ops grid yaw_start s1") auto
      show "Q r1"
      proof (cases rr)
        case (Inl s')
        with eq h st have "r1 = s'" by simp
        with stop st Inl h show ?thesis by simp
      next
        case (Inr s')
        with eq h st have "f e aops ops grid yaw_start s' = Some r1" by simp
        from IH [OF this] h cont st Inr show ?thesis by simp
      qed
    qed
  qed
  with run i show ?thesis by blast
qed

subsection \<open>Monotone coverage\<close>

lemma astar_loop_visited_mono:
  "astar_loop e aops grid bound goals pn visited = Some r \<Longrightarrow> grid_at visited c
   \<Longrightarrow> grid_at (snd (snd r)) c"
  by (rule astar_loop_preserves [where Q = "\<lambda>pn v. grid_at v c"]) (simp_all add: grid_at_mark_mono)

lemma mark_counting_visited_mono:
  "grid_at (fst vm) c \<Longrightarrow> grid_at (fst (mark_counting pn vm)) c"
  by (induction pn arbitrary: vm) (auto simp: mark_counting_def grid_at_mark_mono split: prod.split)

lemma stc_step_visited_mono:
  assumes st: "stc_step e aops ops grid yaw_start s = Some r" and c: "grid_at (sc_visited s) c"
  shows "grid_at (sc_visited (case r of Inl s' \<Rightarrow> s' | Inr s' \<Rightarrow> s')) c"
proof -
  have a: "grid_at v c"
    if "astar_loop e aops grid (max_overlap (sc_obj s)) (sc_goals s) [last (sc_path s)] (sc_visited s)
          = Some (b, pn, v)" for b pn v
    using astar_loop_visited_mono [OF that c] by simp
  have sp: "grid_at v2 c"
    if "astar_loop e aops grid (max_overlap (sc_obj s)) (sc_goals s) [last (sc_path s)] (sc_visited s)
          = Some (b, pn, v)"
      and "spiral ops obj grid pn yaw_start (fst (mark_counting pn (v, m))) = Some (p, v2, ob)"
    for b pn v obj m p v2 ob
  proof -
    from spiral_result [OF that(2)] obtain q where
      q: "spiral_loop ops grid (spiral_init ops obj pn yaw_start (fst (mark_counting pn (v, m)))) = Some q"
      and v2: "st_visited q = v2" by blast
    have "grid_at (fst (mark_counting pn (v, m))) c"
      using mark_counting_visited_mono [of "(v, m)" c pn] a [OF that(1)] by simp
    then have "grid_at (st_visited (spiral_init ops obj pn yaw_start (fst (mark_counting pn (v, m))))) c"
      by (simp add: spiral_init_def Let_def grid_at_mark_cells_mono)
    from spiral_loop_visited_mono [OF q this] v2 show ?thesis by simp
  qed
  from st show ?thesis
    using c a sp by (auto simp: stc_step_def Let_def split: if_splits option.splits)
qed

text \<open>C31 (invariant). Coverage is monotone over the whole coverage loop, as the
  specification's first testable property requires: a cell that is visited when the loop
  starts is still visited when it ends. The relocation loop, the marking of the relocation
  path and every later spiral only set cells of \<open>visited\<close>, and each round hands its mask
  on to the next.\<close>

theorem stc_loop_visited_mono:
  assumes "stc_loop e aops ops grid yaw_start s = Some s'" and "grid_at (sc_visited s) c"
  shows "grid_at (sc_visited s') c"
  by (rule stc_loop_rule [OF assms(1), where I = "\<lambda>s. grid_at (sc_visited s) c"])
     (use assms(2) stc_step_visited_mono in fastforce)+

subsection \<open>The counters\<close>

lemma mark_counting_count:
  "snd (mark_counting pn vm) \<le> snd vm + int (length pn)"
proof (induction pn arbitrary: vm)
  case (Cons c pn)
  obtain v m where vm: "vm = (v, m)" by fastforce
  have "mark_counting (c # pn) vm = mark_counting pn (grid_mark v c, if grid_at v c then m + 1 else m)"
    by (simp add: mark_counting_def vm)
  with Cons.IH [of "(grid_mark v c, if grid_at v c then m + 1 else m)"] vm show ?case by auto
qed (simp add: mark_counting_def)

lemma stc_step_Inr_counters:
  assumes "stc_step e aops ops grid yaw_start s = Some (Inr s')"
  shows "\<exists>pn v1 v2 ob.
           astar_loop e aops grid (max_overlap (sc_obj s)) (sc_goals s) [last (sc_path s)] (sc_visited s)
             = Some (False, pn, v1)
           \<and> spiral ops ((sc_obj s)\<lparr>spiral_counter := spiral_counter (sc_obj s) + 1\<rparr>) grid pn yaw_start
                 (fst (mark_counting pn (v1, sc_mpc s))) = Some (sc_path s', v2, ob)
           \<and> sc_full s' = sc_full s @ sc_path s'
           \<and> sc_mpc s' = (if pn \<noteq> [] then snd (mark_counting pn (v1, sc_mpc s)) - 1
                           else snd (mark_counting pn (v1, sc_mpc s)))
           \<and> sc_vc s' = sc_vc s - 1 + int (length (sc_path s'))"
  using assms by (auto simp: stc_step_def Let_def split: if_split_asm option.splits split del: if_split)

lemma stc_step_Inl_counters:
  "stc_step e aops ops grid yaw_start s = Some (Inl s') \<Longrightarrow>
   sc_mpc s' = sc_mpc s \<and> sc_full s' = sc_full s \<and> sc_vc s - 1 \<le> sc_vc s' \<and> sc_vc s' \<le> sc_vc s"
  by (auto simp: stc_step_def Let_def split: if_splits option.splits)

lemma stc_step_counters:
  assumes ext: "a_star_extends aops" and step: "stc_step e aops ops grid yaw_start s = Some (Inr s')"
    and inv: "sc_mpc s + 1 \<le> sc_vc s"
  shows "sc_mpc s' + 1 \<le> sc_vc s'"
proof -
  from stc_step_Inr_counters [OF step] obtain pn v1 v2 ob where
    a: "astar_loop e aops grid (max_overlap (sc_obj s)) (sc_goals s) [last (sc_path s)] (sc_visited s)
          = Some (False, pn, v1)"
    and sp: "spiral ops ((sc_obj s)\<lparr>spiral_counter := spiral_counter (sc_obj s) + 1\<rparr>) grid pn yaw_start
               (fst (mark_counting pn (v1, sc_mpc s))) = Some (sc_path s', v2, ob)"
    and m: "sc_mpc s' = (if pn \<noteq> [] then snd (mark_counting pn (v1, sc_mpc s)) - 1
                         else snd (mark_counting pn (v1, sc_mpc s)))"
    and v: "sc_vc s' = sc_vc s - 1 + int (length (sc_path s'))" by blast
  have "take 1 pn = [last (sc_path s)]" using astar_loop_head [OF a ext] by simp
  then have ne: "pn \<noteq> []" by auto
  have "length pn \<le> length (sc_path s')" using prefix_length_le [OF spiral_path_prefix [OF sp]] .
  with mark_counting_count [of pn "(v1, sc_mpc s)"] m v ne inv show ?thesis by simp
qed

lemma spiral_stc_counters:
  assumes ext: "a_star_extends aops"
    and run: "spiral_stc e aops ops grid init yaw_start obj = Some (full, mpc, vc, obj')"
  shows "mpc \<le> vc \<and> vc \<le> int (length full)"
proof -
  from run obtain p0 v0 o0 r where
    first: "spiral ops (stc_setup obj grid) grid [init] yaw_start grid = Some (p0, v0, o0)"
    and loop: "stc_loop e aops ops grid yaw_start
                 \<lparr>sc_path = p0, sc_visited = v0, sc_obj = o0, sc_goals = map_2_goals v0 eNodeOpen,
                  sc_full = p0, sc_mpc = 0, sc_vc = int (length p0)\<rparr> = Some r"
    and res: "full = sc_full r" "mpc = sc_mpc r" "vc = sc_vc r"
    by (auto simp: spiral_stc_def Let_def split: option.splits)
  have "1 \<le> length p0" using prefix_length_le [OF spiral_path_prefix [OF first]] by simp
  then have "sc_mpc r \<le> sc_vc r \<and> sc_vc r \<le> int (length (sc_full r))"
    using loop
  proof (rule_tac stc_loop_rule [OF loop,
        where I = "\<lambda>s. sc_mpc s + 1 \<le> sc_vc s \<and> sc_vc s \<le> int (length (sc_full s))"])
    fix s s' assume st: "stc_step e aops ops grid yaw_start s = Some (Inr s')"
      and i: "sc_mpc s + 1 \<le> sc_vc s \<and> sc_vc s \<le> int (length (sc_full s))"
    from stc_step_Inr_counters [OF st] have "sc_full s' = sc_full s @ sc_path s'"
      "sc_vc s' = sc_vc s - 1 + int (length (sc_path s'))" by auto
    with stc_step_counters [OF ext st] i show "sc_mpc s' + 1 \<le> sc_vc s' \<and> sc_vc s' \<le> int (length (sc_full s'))"
      by simp
  next
    fix s s' assume st: "stc_step e aops ops grid yaw_start s = Some (Inl s')"
      and i: "sc_mpc s + 1 \<le> sc_vc s \<and> sc_vc s \<le> int (length (sc_full s))"
    from stc_step_Inl_counters [OF st] have eq: "sc_mpc s' = sc_mpc s" "sc_full s' = sc_full s"
      and le: "sc_vc s - 1 \<le> sc_vc s'" "sc_vc s' \<le> sc_vc s" by auto
    show "sc_mpc s' \<le> sc_vc s' \<and> sc_vc s' \<le> int (length (sc_full s'))"
      unfolding eq using i le by linarith
  qed simp
  with res show ?thesis by simp
qed

text \<open>C23 (bounds). The metrics of a plan: for any search that extends \<open>path_nodes\<close>, the
  \<open>accessible_counter\<close> that \<open>makePlan\<close> computes as
  \<open>visited_counter - multiple_pass_counter\<close> is not negative, and \<open>visited_counter\<close>
  does not exceed the number of cells of the plan.\<close>

theorem makePlan_metrics_bounds:
  assumes ext: "a_star_extends aops"
    and run: "makePlan initialized parsed e aops ops obj met = Some (True, plan, met', obj')"
  shows "0 \<le> accessible_counter met' \<and> visited_counter met' \<le> int (length plan)"
proof -
  from run obtain grid start yaw_start mpc vc where
    r: "spiral_stc e aops ops grid start yaw_start (make_catalogue e obj) = Some (plan, mpc, vc, obj')"
    and m: "accessible_counter met' = vc - mpc" "visited_counter met' = vc"
    by (auto simp: makePlan_def Let_def split: if_splits option.splits)
  from spiral_stc_counters [OF ext r] m show ?thesis by simp
qed

lemma astar_loop_unfold:
  "astar_loop e aops grid bound goals pn visited =
     (let r = a_star aops grid (last pn) visited goals pn; pn' = snd r
      in if fst r then Some (True, pn', visited)
         else if length pn' \<le> 1 then Some (False, pn', visited)
         else if a_star_accepted e grid visited bound pn' then Some (False, pn', visited)
         else astar_loop e aops grid bound goals (take 1 pn') (grid_mark visited (last pn')))"
  by (rule astar_loop.simps)

text \<open>C15 (termination). The relocation loop \<open>while (!accept_a_star)\<close> ends whenever the
  search keeps the specification's contract, that a path it returns ends at a cell of the
  grid that is not visited: each rejected end cell is marked visited, so the number of
  open cells of \<open>visited\<close> falls at every round.\<close>

theorem astar_loop_terminates:
  assumes prog: "a_star_progress aops w h" and dims: "grid_dims visited w h"
  shows "\<exists>r. astar_loop e aops grid bound goals pn visited = Some r"
  using dims
proof (induction "open_count visited" arbitrary: pn visited rule: less_induct)
  case less
  let ?p = "snd (a_star aops grid (last pn) visited goals pn)"
  show ?case
  proof (cases "fst (a_star aops grid (last pn) visited goals pn) \<or> length ?p \<le> 1
                \<or> a_star_accepted e grid visited bound ?p")
    case True
    then show ?thesis by (auto simp: astar_loop_unfold [of e aops grid bound goals pn visited] Let_def)
  next
    case False
    then have "\<not> fst (a_star aops grid (last pn) visited goals pn)" and "1 < length ?p" by auto
    with prog have c: "in_dims w h (last ?p)" "\<not> grid_at visited (last ?p)"
      unfolding a_star_progress_def by blast+
    have "grid_at (grid_mark visited (last ?p)) (last ?p)"
      using grid_at_mark_same [OF less.prems c(1)] .
    with c(2) have lt: "open_count (grid_mark visited (last ?p)) < open_count visited"
      by (rule open_count_mark_hit)
    have "grid_dims (grid_mark visited (last ?p)) w h" using less.prems by (simp add: grid_dims_mark)
    with less.hyps [OF lt] obtain r where
      "astar_loop e aops grid bound goals (take 1 ?p) (grid_mark visited (last ?p)) = Some r" by blast
    with False show ?thesis by (cases r) (simp add: astar_loop_unfold [of e aops grid bound goals pn visited] Let_def)
  qed
qed

lemma stc_loop_junctions:
  assumes run: "stc_loop e aops ops grid yaw_start s = Some r" and ext: "a_star_extends aops"
    and i: "sc_full s \<noteq> [] \<and> last (sc_full s) = last (sc_path s)"
  shows "sc_full r = sc_full s \<or> \<not> four_connected (sc_full r)"
proof (rule stc_loop_rule [OF run, where I = "\<lambda>s'. sc_full s' \<noteq> [] \<and> last (sc_full s') = last (sc_path s')
                                   \<and> (sc_full s' = sc_full s \<or> \<not> four_connected (sc_full s'))"])
  show "sc_full s \<noteq> [] \<and> last (sc_full s) = last (sc_path s) \<and> (sc_full s = sc_full s \<or> \<not> four_connected (sc_full s))"
    using i by simp
next
  fix s1 s2
  assume st: "stc_step e aops ops grid yaw_start s1 = Some (Inr s2)"
    and h: "sc_full s1 \<noteq> [] \<and> last (sc_full s1) = last (sc_path s1)
            \<and> (sc_full s1 = sc_full s \<or> \<not> four_connected (sc_full s1))"
  from stc_step_junction [OF ext st] h have
    j: "sc_full s2 = sc_full s1 @ sc_path s2" "sc_path s2 \<noteq> []" "hd (sc_path s2) = last (sc_full s1)" by auto
  with h have "\<not> four_connected (sc_full s2)" using four_connected_junction [of "sc_full s1" "sc_path s2"] by simp
  with j show "sc_full s2 \<noteq> [] \<and> last (sc_full s2) = last (sc_path s2)
               \<and> (sc_full s2 = sc_full s \<or> \<not> four_connected (sc_full s2))" by simp
next
  fix s1 s2
  assume "stc_step e aops ops grid yaw_start s1 = Some (Inl s2)"
    and "sc_full s1 \<noteq> [] \<and> last (sc_full s1) = last (sc_path s1)
         \<and> (sc_full s1 = sc_full s \<or> \<not> four_connected (sc_full s1))"
  then show "sc_full s2 = sc_full s \<or> \<not> four_connected (sc_full s2)" using stc_step_Inl_full by metis
qed

text \<open>C16 (safety). The whole coverage path of \<open>spiral_stc\<close> is 4-connected only when it
  is the first spiral alone: as soon as one relocation has been made, the output repeats a
  cell, for any search that extends \<open>path_nodes\<close>.\<close>

theorem spiral_stc_relocation_not_connected:
  assumes ext: "a_star_extends aops"
    and first: "spiral ops (stc_setup obj grid) grid [init] yaw_start grid = Some (p0, v0, o0)"
    and run: "spiral_stc e aops ops grid init yaw_start obj = Some (full, mpc, vc, obj')"
    and reloc: "full \<noteq> p0"
  shows "\<not> four_connected full"
proof -
  let ?s0 = "\<lparr>sc_path = p0, sc_visited = v0, sc_obj = o0, sc_goals = map_2_goals v0 eNodeOpen,
              sc_full = p0, sc_mpc = 0, sc_vc = int (length p0)\<rparr>"
  from run first obtain r where r: "stc_loop e aops ops grid yaw_start ?s0 = Some r" and f: "sc_full r = full"
    by (auto simp: spiral_stc_def)
  have "p0 \<noteq> []" using spiral_path_prefix [OF first] by auto
  then have "sc_full ?s0 \<noteq> [] \<and> last (sc_full ?s0) = last (sc_path ?s0)" by simp
  from stc_loop_junctions [OF r ext this] f reloc show ?thesis by simp
qed

end
