(* ===== verification/Visualisation.thy ===== *)
theory Visualisation
  imports Costmap_Grid "HOL-Library.Word"
begin

text \<open>
  The RViz output of \<open>src/src/spiral_stc.cpp\<close> (lines 815--930): the marker messages
  \<open>cubeMarker\<close> and \<open>lineStrip\<close>, the grid lines \<open>visualizeGridlines\<close>, the cubes of the
  true cells of a boolean grid \<open>visualizeGrid\<close> and the polyline of a spiral
  \<open>visualizeSpiral\<close>. Each function returns the marker it hands to its publisher; the
  publishing itself is I/O. The loops of \<open>visualizeGridlines\<close> count with a
  \<open>uint32_t\<close>, modelled as a \<open>32 word\<close>, so that the wrap-around of \<open>i++\<close> is part of
  the model, and the loop is a partial function whose value \<open>None\<close> is a loop that does
  not end. A read past the end of a row (\<open>grid[iy][ix]\<close> with \<open>ix\<close> bounded by the
  length of row 0, or \<open>grid[0]\<close> of an empty grid) is undefined behaviour and the value
  \<open>None\<close>. The lemmas give the points of every marker: the horizontal grid lines are
  counted from the map's X size and the vertical ones from its Y size, the cubes are the centres
  \<open>mapToWorld\<close> of the planner grid (the costmap \<open>makePlan\<close> sizes at line 491) of the
  true cells in row-major order, and the spiral polyline converts back to its cells.
\<close>

type_synonym point3 = "real \<times> real \<times> real"
  \<comment> \<open>\<open>geometry_msgs::msg::Point\<close> (x, y, z)\<close>

datatype marker_type = LINE_LIST | CUBE_LIST | LINE_STRIP
  \<comment> \<open>the constants of \<open>visualization_msgs::msg::Marker\<close> the planner uses\<close>

record marker =
  m_frame_id :: string
  m_ns :: string
  m_id :: int
  m_type :: marker_type
  m_orientation_w :: real
  m_scale :: point3
  m_color :: "real \<times> real \<times> real \<times> real"
  m_points :: "point3 list"
  \<comment> \<open>\<open>visualization_msgs::msg::Marker\<close>: every marker of the planner has action \<open>ADD\<close>
     and the zero stamp \<open>rclcpp::Time()\<close>; colour is (a, r, g, b)\<close>

record viz_env =
  global_frame :: string
  tile_size :: real
  grid_origin :: point
  size_m_x :: real
  size_m_y :: real
  \<comment> \<open>the members \<open>global_frame_\<close>, \<open>tile_size_\<close>, \<open>grid_origin_\<close> and the costmap's
     \<open>getSizeInMetersX/Y()\<close>\<close>

definition cubeMarker ::
  "string \<Rightarrow> string \<Rightarrow> int \<Rightarrow> real \<Rightarrow> real \<Rightarrow> real \<Rightarrow> real \<Rightarrow> real \<Rightarrow> marker" where
  "cubeMarker frame_id name_space mid sz a r g b =
     \<lparr>m_frame_id = frame_id, m_ns = name_space, m_id = mid, m_type = CUBE_LIST,
      m_orientation_w = 1, m_scale = (sz, sz, sz), m_color = (a, r, g, b), m_points = []\<rparr>"

definition lineStrip ::
  "string \<Rightarrow> string \<Rightarrow> int \<Rightarrow> real \<Rightarrow> real \<Rightarrow> real \<Rightarrow> real \<Rightarrow> real \<Rightarrow> marker" where
  "lineStrip frame_id name_space mid sz a r g b =
     \<lparr>m_frame_id = frame_id, m_ns = name_space, m_id = mid, m_type = LINE_STRIP,
      m_orientation_w = 1, m_scale = (sz, sz, sz), m_color = (a, r, g, b), m_points = []\<rparr>"

definition row_line :: "viz_env \<Rightarrow> nat \<Rightarrow> point3 list" where
  "row_line env i =
     [(fst (grid_origin env), snd (grid_origin env) + real i * tile_size env, 0),
      (fst (grid_origin env) + size_m_x env, snd (grid_origin env) + real i * tile_size env, 0)]"
  \<comment> \<open>body of the first loop of \<open>visualizeGridlines\<close>\<close>

definition col_line :: "viz_env \<Rightarrow> nat \<Rightarrow> point3 list" where
  "col_line env i =
     [(fst (grid_origin env) + real i * tile_size env, snd (grid_origin env), 0),
      (fst (grid_origin env) + real i * tile_size env, snd (grid_origin env) + size_m_y env, 0)]"
  \<comment> \<open>body of the second loop\<close>

partial_function (option) lines_loop ::
  "real \<Rightarrow> (nat \<Rightarrow> point3 list) \<Rightarrow> 32 word \<Rightarrow> point3 list \<Rightarrow> point3 list option" where
  "lines_loop bound body i pts =
     (if real (unat i) < bound then lines_loop bound body (i + 1) (pts @ body (unat i)) else Some pts)"
  \<comment> \<open>\<open>for (uint32_t i = 0; i < bound; i++)\<close>, the counter compared as a double\<close>

definition visualizeGridlines :: "viz_env \<Rightarrow> marker option" where
  "visualizeGridlines env =
     (case lines_loop (size_m_x env / tile_size env) (row_line env) 0 [] of
        None \<Rightarrow> None
      | Some pts1 \<Rightarrow>
          (case lines_loop (size_m_y env / tile_size env) (col_line env) 0 pts1 of
             None \<Rightarrow> None
           | Some pts2 \<Rightarrow>
               Some \<lparr>m_frame_id = global_frame env, m_ns = ''grid_lines'', m_id = 0,
                     m_type = LINE_LIST, m_orientation_w = 1, m_scale = (0.02, 0, 0),
                     m_color = (0.5, 0, 0, 0), m_points = pts2\<rparr>))"

definition cell_point :: "viz_env \<Rightarrow> int \<Rightarrow> int \<Rightarrow> point3" where
  "cell_point env x y =
     ((of_int x + 0.5) * tile_size env + fst (grid_origin env),
      (of_int y + 0.5) * tile_size env + snd (grid_origin env), 0)"
  \<comment> \<open>\<open>p.x = (ix + 0.5)*tile_size_ + grid_origin_.x\<close> and the same for y\<close>

definition grid_cube_points :: "viz_env \<Rightarrow> grid \<Rightarrow> point3 list" where
  "grid_cube_points env grid =
     [cell_point env (int ix) (int iy). iy \<leftarrow> [0..<length grid], ix \<leftarrow> [0..<length (grid ! 0)], grid ! iy ! ix]"

definition visualizeGrid ::
  "viz_env \<Rightarrow> grid \<Rightarrow> string \<Rightarrow> real \<Rightarrow> real \<Rightarrow> real \<Rightarrow> real \<Rightarrow> marker option" where
  "visualizeGrid env grid name_space a r g b =
     (if grid = [] then None
      else if list_all (\<lambda>row. length (grid ! 0) \<le> length row) grid
      then Some ((cubeMarker (global_frame env) name_space 0 (tile_size env) a r g b)
                   \<lparr>m_points := grid_cube_points env grid\<rparr>)
      else None)"
  \<comment> \<open>\<open>None\<close>: \<open>grid[0]\<close> of an empty grid, or a row shorter than row 0 read past its end\<close>

definition visualizeSpiral ::
  "viz_env \<Rightarrow> cell list \<Rightarrow> string \<Rightarrow> real \<Rightarrow> real \<Rightarrow> real \<Rightarrow> real \<Rightarrow> real \<Rightarrow> marker" where
  "visualizeSpiral env spiral_nodes name_space w a r g b =
     (lineStrip (global_frame env) name_space 0 w a r g b)
       \<lparr>m_points := map (\<lambda>c. cell_point env (fst c) (snd c)) spiral_nodes\<rparr>"

definition planner_grid_of :: "viz_env \<Rightarrow> costmap" where
  "planner_grid_of env =
     \<lparr>size_x = nat \<lceil>size_m_x env / tile_size env\<rceil>, size_y = nat \<lceil>size_m_y env / tile_size env\<rceil>,
      resolution = tile_size env, origin_x = fst (grid_origin env), origin_y = snd (grid_origin env)\<rparr>"
  \<comment> \<open>line 491: \<open>planner_grid.resizeMap(ceil(X/tile_size_), ceil(Y/tile_size_), tile_size_, origin)\<close>\<close>

subsection \<open>The grid-line loops\<close>

lemma real_less_nat_ceiling: "(real k < b) = (k < nat \<lceil>b\<rceil>)"
  by (simp add: zless_nat_eq_int_zless less_ceiling_iff)

lemma unat_succ: "unat (i :: 32 word) < n \<Longrightarrow> n < 2 ^ 32 \<Longrightarrow> unat (i + 1) = Suc (unat i)"
  by (simp add: unat_word_ariths)

lemma unat_real_bound: "real (unat (i :: 32 word)) \<le> 2 ^ 32 - 1"
proof -
  have "unat i < 2 ^ LENGTH(32)" by (rule unsigned_less)
  then have "unat i \<le> 2 ^ 32 - 1" by simp
  then have "real (unat i) \<le> real (2 ^ 32 - 1 :: nat)" by (simp only: of_nat_le_iff)
  then show ?thesis by simp
qed

lemma lines_loop_Some:
  assumes n: "nat \<lceil>bound\<rceil> < 2 ^ 32" and i: "unat i \<le> nat \<lceil>bound\<rceil>"
  shows "lines_loop bound body i pts = Some (pts @ concat (map body [unat i..<nat \<lceil>bound\<rceil>]))"
  using i
proof (induction "nat \<lceil>bound\<rceil> - unat i" arbitrary: i pts)
  case 0
  then have "\<not> real (unat i) < bound" by (simp add: real_less_nat_ceiling)
  with 0 show ?case by (subst lines_loop.simps) (simp del: of_nat_unat)
next
  case (Suc m)
  then have lt: "unat i < nat \<lceil>bound\<rceil>" by arith
  have s: "unat (i + 1) = Suc (unat i)" using unat_succ [OF lt n] .
  from Suc.hyps(1) [of "i + 1" "pts @ body (unat i)"] Suc.hyps(2) s lt
  have "lines_loop bound body (i + 1) (pts @ body (unat i))
          = Some ((pts @ body (unat i)) @ concat (map body [Suc (unat i)..<nat \<lceil>bound\<rceil>]))" by simp
  with lt show ?case
    by (subst lines_loop.simps) (simp add: real_less_nat_ceiling upt_conv_Cons del: of_nat_unat)
qed

lemma lines_loop_None:
  assumes big: "2 ^ 32 - 1 < bound"
  shows "lines_loop bound body i pts = None"
proof (rule ccontr)
  assume "lines_loop bound body i pts \<noteq> None"
  then obtain r where run: "lines_loop bound body i pts = Some r" by blast
  have "b' = bound \<longrightarrow> False" if "lines_loop b' body' i' pts' = Some r'" for b' body' i' pts' r'
  proof (rule lines_loop.raw_induct [where P = "\<lambda>b' body' i' pts' r'. b' = bound \<longrightarrow> False", OF _ that])
    fix f b1 and body1 :: "nat \<Rightarrow> point3 list" and i1 :: "32 word" and pts1 r1
    assume IH: "\<And>b2 body2 i2 pts2 r2. f b2 body2 i2 pts2 = Some r2 \<Longrightarrow> b2 = bound \<longrightarrow> False"
      and eq: "(if real (unat i1) < b1 then f b1 body1 (i1 + 1) (pts1 @ body1 (unat i1)) else Some pts1) = Some r1"
    show "b1 = bound \<longrightarrow> False"
    proof
      assume "b1 = bound"
      moreover have "real (unat i1) < bound" using unat_real_bound [of i1] big by linarith
      ultimately have "f bound body1 (i1 + 1) (pts1 @ body1 (unat i1)) = Some r1"
        using eq by (simp del: of_nat_unat)
      from IH [OF this] show False by simp
    qed
  qed
  from this [OF run] show False by simp
qed

subsection \<open>Cell centres\<close>

lemma cell_point_mapToWorld:
  "(fst (cell_point env x y), fst (snd (cell_point env x y))) = mapToWorld (planner_grid_of env) x y"
  by (simp add: cell_point_def mapToWorld_def planner_grid_of_def algebra_simps)

lemma comprehension_row:
  "concat (map (\<lambda>x. if P (int x, y) then [k (int x) y] else []) xs)
     = map (\<lambda>c. k (fst c) (snd c)) (filter P (map (\<lambda>x. (int x, y)) xs))"
  by (induction xs) auto

lemma comprehension_filter:
  "[k (int x) (int y). y \<leftarrow> ys, x \<leftarrow> xs, P (int x, int y)]
     = map (\<lambda>c. k (fst c) (snd c)) (filter P [(int x, int y). y \<leftarrow> ys, x \<leftarrow> xs])"
  by (induction ys) (simp_all add: filter_concat map_concat comprehension_row)

lemma grid_cube_points_cells:
  assumes "grid_dims g w h" "0 < h"
  shows "map (\<lambda>p. (fst p, fst (snd p))) (grid_cube_points env g)
           = map (\<lambda>c. mapToWorld (planner_grid_of env) (fst c) (snd c)) (filter (grid_at g) (row_major w h))"
proof -
  have "length (g ! 0) = w" "length g = h" using assms by (auto simp: grid_dims_def list_all_length)
  then have "grid_cube_points env g
               = [cell_point env (int ix) (int iy). iy \<leftarrow> [0..<h], ix \<leftarrow> [0..<w], grid_at g (int ix, int iy)]"
    by (simp add: grid_cube_points_def grid_at_def)
  then show ?thesis
    by (simp add: comprehension_filter row_major_def cell_point_mapToWorld)
qed

lemma visualizeGrid_rect:
  assumes "grid_dims g w h" "0 < h"
  shows "visualizeGrid env g name_space a r gr b
           = Some ((cubeMarker (global_frame env) name_space 0 (tile_size env) a r gr b)
                     \<lparr>m_points := grid_cube_points env g\<rparr>)"
proof -
  have "g \<noteq> []" "length (g ! 0) = w" "list_all (\<lambda>row. length row = w) g"
    using assms by (auto simp: grid_dims_def list_all_length)
  then show ?thesis by (simp add: visualizeGrid_def list_all_iff)
qed

text \<open>C18 (bounds). The grid lines: while the two loop bounds fit the \<open>uint32_t\<close> counter,
  \<open>visualizeGridlines\<close> returns one horizontal line per column of the planner grid and one
  vertical line per row. The first loop, which steps in y, is bounded by the map's X size
  and the second, which steps in x, by its Y size, so on a map that is not square the
  lines do not match the grid's rows and columns.\<close>

theorem visualizeGridlines_points:
  assumes "size_x (planner_grid_of env) < 2 ^ 32" and "size_y (planner_grid_of env) < 2 ^ 32"
  shows "map_option m_points (visualizeGridlines env)
           = Some (concat (map (row_line env) [0..<size_x (planner_grid_of env)])
                   @ concat (map (col_line env) [0..<size_y (planner_grid_of env)]))"
  using assms
  by (simp add: visualizeGridlines_def planner_grid_of_def lines_loop_Some)

text \<open>C19 (liveness). When the map is wider than \<open>2^32 - 1\<close> tiles, the \<open>uint32_t\<close>
  counter of the first grid-line loop wraps around before it reaches the bound, and
  \<open>visualizeGridlines\<close> does not return.\<close>

theorem visualizeGridlines_wraps:
  assumes "2 ^ 32 - 1 < size_m_x env / tile_size env"
  shows "visualizeGridlines env = None"
  using assms by (simp add: visualizeGridlines_def lines_loop_None)

text \<open>C20 (refinement). On a rectangular grid, the cubes of \<open>visualizeGrid\<close> are the cell
  centres \<open>mapToWorld\<close> of the planner grid of exactly the true cells, in row-major
  order: the marker refines the set of marked cells.\<close>

theorem visualizeGrid_cell_centres:
  assumes "grid_dims g w h" and "0 < h"
  shows "map_option (\<lambda>m. map (\<lambda>p. (fst p, fst (snd p))) (m_points m)) (visualizeGrid env g name_space a r gr b)
           = Some (map (\<lambda>c. mapToWorld (planner_grid_of env) (fst c) (snd c)) (filter (grid_at g) (row_major w h)))"
  using visualizeGrid_rect [OF assms] grid_cube_points_cells [OF assms] by (simp add: cubeMarker_def)

text \<open>C21 (roundtrip). Every vertex of a spiral's polyline converts back to its cell:
  \<open>worldToMapNoBounds\<close> of the planner grid inverts the points of \<open>visualizeSpiral\<close>.\<close>

theorem visualizeSpiral_roundtrip:
  assumes "0 < tile_size env"
  shows "map (\<lambda>p. worldToMapNoBounds (planner_grid_of env) (fst p, fst (snd p)))
             (m_points (visualizeSpiral env spiral_nodes name_space w a r g b)) = spiral_nodes"
proof -
  have "worldToMapNoBounds (planner_grid_of env) (fst (cell_point env x y), fst (snd (cell_point env x y))) = (x, y)"
    for x y
    using assms by (simp only: cell_point_mapToWorld) (simp add: worldToMap_mapToWorld planner_grid_of_def)
  then show ?thesis by (simp add: visualizeSpiral_def lineStrip_def map_idI)
qed

end
