(* ===== verification/Plugin.thy ===== *)
theory Plugin
  imports Planner Visualisation
begin

text \<open>
  The plugin \<open>SpiralSTC\<close> as the nav2 planner server drives it (\<open>src/src/spiral_stc.cpp\<close>,
  lines 15--103): the lifecycle handlers \<open>configure\<close>, \<open>activate\<close>, \<open>deactivate\<close> and
  \<open>cleanup\<close> over the record \<open>plugin\<close> of the members they touch, and \<open>createPlan\<close>,
  which calls \<open>makePlan\<close> and stamps the result with the node's clock. A null
  \<open>shared_ptr\<close> (\<open>node_\<close> and the three publishers before \<open>configure\<close>) is the value
  \<open>None\<close>, and its dereference the error \<open>NullPointer\<close>; a publisher is \<open>Some b\<close>
  with \<open>b\<close> its activation. Parameters are a map from names to typed values:
  \<open>declare_parameter_if_not_declared\<close> (nav2_util) declares a name with the launch
  override or the default, and \<open>get_parameter\<close> of the wrong type throws. The handlers
  form the step function \<open>lc_step\<close> over the events \<open>lc_event\<close>, a sequence of events is
  run by \<open>lc_run\<close>, and the order the lifecycle manager allows is \<open>managed\<close>.

  The lemmas show the defaults of \<open>configure\<close>; that the configuration is frozen at the
  first \<open>configure\<close>, because \<open>cleanup\<close> does not reset \<open>initialized_\<close>; that the
  plan publisher is never activated; that in the manager's order no handler dereferences
  a null pointer; and that \<open>createPlan\<close> before \<open>configure\<close> dereferences \<open>node_\<close>
  although \<open>makePlan\<close> checks \<open>initialized_\<close>. The composition of \<open>spiral_stc\<close>'s
  resize of \<open>visited_copy\<close> with \<open>visualizeGrid\<close> is also here.
\<close>

datatype param_value = PDouble real | PInt int
  \<comment> \<open>\<open>rclcpp::ParameterValue\<close> of the two types the plugin declares\<close>

type_synonym params = "string \<rightharpoonup> param_value"

datatype lc_error = NullPointer string | ParameterTypeError string

record plugin =
  initialized :: bool
  node_set :: bool
  plugin_name :: string
  frame :: string
  node_params :: params
  plan_pub :: "bool option"
  grid_pub :: "bool option"
  spirals_pub :: "bool option"
  cfg_vehicle_width :: real
  cfg_division_factor :: int
  cfg_manoeuvre_resolution :: int
  \<comment> \<open>the members \<open>initialized_\<close>, \<open>node_\<close>, \<open>name_\<close>, \<open>global_frame_\<close>, the node's
     parameters, \<open>plan_pub_\<close>, \<open>grid_pub\<close>, \<open>spirals_pub\<close>, \<open>vehicle_width_\<close>,
     \<open>division_factor_\<close>, \<open>manoeuvre_resolution_\<close>\<close>

definition constructed :: "plugin \<Rightarrow> bool" where
  "constructed s \<longleftrightarrow> \<not> initialized s \<and> \<not> node_set s \<and> node_params s = Map.empty
     \<and> plan_pub s = None \<and> grid_pub s = None \<and> spirals_pub s = None"
  \<comment> \<open>the state after \<open>SpiralSTC::SpiralSTC()\<close> (lines 15--17) on a fresh node\<close>

definition declare_parameter_if_not_declared :: "params \<Rightarrow> params \<Rightarrow> string \<Rightarrow> param_value \<Rightarrow> params" where
  "declare_parameter_if_not_declared overrides ps name default_value =
     (case ps name of
        Some _ \<Rightarrow> ps
      | None \<Rightarrow> ps(name \<mapsto> (case overrides name of Some v \<Rightarrow> v | None \<Rightarrow> default_value)))"

definition get_double :: "params \<Rightarrow> string \<Rightarrow> real \<Rightarrow> lc_error + real" where
  "get_double ps name cur =
     (case ps name of
        None \<Rightarrow> Inr cur
      | Some (PDouble d) \<Rightarrow> Inr d
      | Some (PInt _) \<Rightarrow> Inl (ParameterTypeError name))"
  \<comment> \<open>\<open>node_->get_parameter(name, double&)\<close>\<close>

definition get_int :: "params \<Rightarrow> string \<Rightarrow> int \<Rightarrow> lc_error + int" where
  "get_int ps name cur =
     (case ps name of
        None \<Rightarrow> Inr cur
      | Some (PInt i) \<Rightarrow> Inr i
      | Some (PDouble _) \<Rightarrow> Inl (ParameterTypeError name))"

definition configure :: "plugin \<Rightarrow> params \<Rightarrow> string \<Rightarrow> string \<Rightarrow> lc_error + plugin" where
  "configure s overrides name global_frame_id =
     (if initialized s then Inr s
      else
        (let s1 = s\<lparr>node_set := True, plugin_name := name, frame := global_frame_id,
                    plan_pub := Some False, grid_pub := Some False, spirals_pub := Some False\<rparr>;
             n_vw = name @ ''.vehicle_width''; n_df = name @ ''.division_factor'';
             n_mr = name @ ''.manoeuvre_resolution'';
             ps1 = declare_parameter_if_not_declared overrides (node_params s) n_vw (PDouble 1.1)
         in case get_double ps1 n_vw (cfg_vehicle_width s) of
              Inl err \<Rightarrow> Inl err
            | Inr vw \<Rightarrow>
                (let ps2 = declare_parameter_if_not_declared overrides ps1 n_df (PInt 3)
                 in case get_int ps2 n_df (cfg_division_factor s) of
                      Inl err \<Rightarrow> Inl err
                    | Inr df \<Rightarrow>
                        (let ps3 = declare_parameter_if_not_declared overrides ps2 n_mr (PInt 100)
                         in case get_int ps3 n_mr (cfg_manoeuvre_resolution s) of
                              Inl err \<Rightarrow> Inl err
                            | Inr mr \<Rightarrow>
                                Inr (s1\<lparr>node_params := ps3, cfg_vehicle_width := vw, cfg_division_factor := df,
                                        cfg_manoeuvre_resolution := mr, initialized := True\<rparr>)))))"

definition activate :: "plugin \<Rightarrow> lc_error + plugin" where
  "activate s =
     (case grid_pub s of
        None \<Rightarrow> Inl (NullPointer ''grid_pub'')
      | Some _ \<Rightarrow>
          (case spirals_pub s of
             None \<Rightarrow> Inl (NullPointer ''spirals_pub'')
           | Some _ \<Rightarrow> Inr (s\<lparr>grid_pub := Some True, spirals_pub := Some True\<rparr>)))"

definition deactivate :: "plugin \<Rightarrow> lc_error + plugin" where
  "deactivate s =
     (case grid_pub s of
        None \<Rightarrow> Inl (NullPointer ''grid_pub'')
      | Some _ \<Rightarrow>
          (case spirals_pub s of
             None \<Rightarrow> Inl (NullPointer ''spirals_pub'')
           | Some _ \<Rightarrow> Inr (s\<lparr>grid_pub := Some False, spirals_pub := Some False\<rparr>)))"

definition cleanup :: "plugin \<Rightarrow> lc_error + plugin" where
  "cleanup s = Inr s"
  \<comment> \<open>lines 84--90: logging only, the clean-up is a TODO\<close>

datatype lc_event = Configure params string string | Activate | Deactivate | Cleanup

fun lc_step :: "plugin \<Rightarrow> lc_event \<Rightarrow> lc_error + plugin" where
  "lc_step s (Configure ov name f) = configure s ov name f"
| "lc_step s Activate = activate s"
| "lc_step s Deactivate = deactivate s"
| "lc_step s Cleanup = cleanup s"

fun lc_run :: "plugin \<Rightarrow> lc_event list \<Rightarrow> lc_error + plugin" where
  "lc_run s [] = Inr s"
| "lc_run s (ev # evs) = (case lc_step s ev of Inl err \<Rightarrow> Inl err | Inr s' \<Rightarrow> lc_run s' evs)"

inductive lc_reach :: "plugin \<Rightarrow> bool" where
  start: "constructed s \<Longrightarrow> lc_reach s"
| step: "lc_reach s \<Longrightarrow> lc_step s ev = Inr s' \<Longrightarrow> lc_reach s'"

datatype lc_phase = Unconfigured | Inactive | Active
  \<comment> \<open>the primary states of a managed node (\<open>rclcpp_lifecycle\<close>)\<close>

fun managed :: "lc_phase \<Rightarrow> lc_event \<Rightarrow> lc_phase option" where
  "managed Unconfigured (Configure _ _ _) = Some Inactive"
| "managed Inactive Activate = Some Active"
| "managed Active Deactivate = Some Inactive"
| "managed Inactive Cleanup = Some Unconfigured"
| "managed _ _ = None"

fun managed_run :: "lc_phase \<Rightarrow> lc_event list \<Rightarrow> lc_phase option" where
  "managed_run p [] = Some p"
| "managed_run p (ev # evs) = (case managed p ev of None \<Rightarrow> None | Some p' \<Rightarrow> managed_run p' evs)"

definition overrides_typed :: "params \<Rightarrow> string \<Rightarrow> bool" where
  "overrides_typed ov name \<longleftrightarrow>
     (case ov (name @ ''.vehicle_width'') of Some (PInt _) \<Rightarrow> False | _ \<Rightarrow> True)
     \<and> (case ov (name @ ''.division_factor'') of Some (PDouble _) \<Rightarrow> False | _ \<Rightarrow> True)
     \<and> (case ov (name @ ''.manoeuvre_resolution'') of Some (PDouble _) \<Rightarrow> False | _ \<Rightarrow> True)"
  \<comment> \<open>launch overrides of the types the plugin reads\<close>

fun event_typed :: "lc_event \<Rightarrow> bool" where
  "event_typed (Configure ov name f) = overrides_typed ov name"
| "event_typed _ = True"

definition plugin_config :: "plugin \<Rightarrow> string \<times> string \<times> params \<times> real \<times> int \<times> int" where
  "plugin_config s = (plugin_name s, frame s, node_params s, cfg_vehicle_width s, cfg_division_factor s, cfg_manoeuvre_resolution s)"
  \<comment> \<open>what \<open>configure\<close> sets up\<close>

definition createPlan ::
  "plugin \<Rightarrow> (grid \<times> cell \<times> real) option \<Rightarrow> fp_env \<Rightarrow> stc_ops \<Rightarrow> spiral_ops \<Rightarrow> stc_obj
   \<Rightarrow> spiral_cpp_metrics \<Rightarrow> (lc_error + string \<times> cell list) option" where
  "createPlan s parsed e aops ops obj met =
     map_option
       (\<lambda>r. if node_set s then Inr (frame s, fst (snd r)) else Inl (NullPointer ''node_''))
       (makePlan (initialized s) parsed e aops ops obj met)"
  \<comment> \<open>lines 92--103: \<open>makePlan\<close>, then \<open>node_->now()\<close> and \<open>global_frame_\<close> in the header\<close>

subsection \<open>Lifecycle\<close>

lemma lc_step_frozen:
  assumes "lc_step s ev = Inr s'" and "initialized s"
  shows "initialized s' \<and> plugin_config s' = plugin_config s"
  using assms
  by (cases ev) (auto simp: configure_def activate_def deactivate_def cleanup_def plugin_config_def
                      split: option.splits)

lemma lc_step_plan_pub:
  "lc_step s ev = Inr s' \<Longrightarrow> plan_pub s' = plan_pub s \<or> plan_pub s' = Some False"
  by (cases ev) (auto simp: configure_def Let_def activate_def deactivate_def cleanup_def
                      split: option.splits sum.splits if_splits)

lemma lc_run_reach: "lc_reach s \<Longrightarrow> lc_run s evs = Inr s' \<Longrightarrow> lc_reach s'"
  by (induction evs arbitrary: s) (auto intro: lc_reach.step split: sum.splits)

lemma configure_typed:
  assumes "\<not> initialized s" and "node_params s = Map.empty" and "overrides_typed ov name"
  shows "\<exists>s'. configure s ov name f = Inr s' \<and> initialized s'
              \<and> grid_pub s' = Some False \<and> spirals_pub s' = Some False \<and> plan_pub s' = Some False"
  using assms
  by (auto simp: configure_def Let_def declare_parameter_if_not_declared_def get_double_def get_int_def
                 overrides_typed_def split: option.splits param_value.splits)

definition managed_inv :: "plugin \<Rightarrow> lc_phase \<Rightarrow> bool" where
  "managed_inv s p \<longleftrightarrow>
     (initialized s \<longrightarrow> grid_pub s \<noteq> None \<and> spirals_pub s \<noteq> None)
     \<and> (\<not> initialized s \<longrightarrow> node_params s = Map.empty)
     \<and> (p \<noteq> Unconfigured \<longrightarrow> initialized s)"

lemma managed_step:
  assumes inv: "managed_inv s p" and m: "managed p ev = Some p'" and t: "event_typed ev"
  shows "\<exists>s'. lc_step s ev = Inr s' \<and> managed_inv s' p'"
proof (cases ev)
  case (Configure ov name f)
  with m have p: "p = Unconfigured" "p' = Inactive" by (cases p; simp)+
  show ?thesis
  proof (cases "initialized s")
    case True
    with inv p Configure show ?thesis by (simp add: configure_def managed_inv_def)
  next
    case False
    with inv have "node_params s = Map.empty" by (simp add: managed_inv_def)
    from configure_typed [OF False this, of ov name f] t Configure obtain s' where
      "configure s ov name f = Inr s'" "initialized s'" "grid_pub s' = Some False" "spirals_pub s' = Some False"
      by auto
    with Configure p show ?thesis by (intro exI [of _ s']) (simp add: managed_inv_def)
  qed
next
  case Activate
  with m have "p = Inactive" "p' = Active" by (cases p; simp)+
  with inv Activate show ?thesis by (auto simp: managed_inv_def activate_def)
next
  case Deactivate
  with m have "p = Active" "p' = Inactive" by (cases p; simp)+
  with inv Deactivate show ?thesis by (auto simp: managed_inv_def deactivate_def)
next
  case Cleanup
  with m have "p = Inactive" "p' = Unconfigured" by (cases p; simp)+
  with inv Cleanup show ?thesis by (auto simp: managed_inv_def cleanup_def)
qed

lemma managed_run_ok:
  "managed_inv s p \<Longrightarrow> managed_run p evs \<noteq> None \<Longrightarrow> list_all event_typed evs \<Longrightarrow> \<exists>s'. lc_run s evs = Inr s'"
proof (induction evs arbitrary: s p)
  case (Cons ev evs)
  then obtain p' where m: "managed p ev = Some p'" and r: "managed_run p' evs \<noteq> None"
    by (auto split: option.splits)
  from managed_step [OF Cons.prems(1) m] Cons.prems(3) obtain s' where
    "lc_step s ev = Inr s'" "managed_inv s' p'" by auto
  with Cons.IH [of s' p'] r Cons.prems(3) show ?case by simp
qed simp

text \<open>C24 (functional). On a fresh node without launch overrides, \<open>configure\<close> creates the
  three publishers inactive and reads the defaults of the source: a vehicle width of 1.1, a
  division factor of 3 and a manoeuvre resolution of 100.\<close>

theorem configure_defaults:
  assumes "\<not> initialized s" and "node_params s = Map.empty"
  shows "\<exists>s'. configure s Map.empty name f = Inr s' \<and> initialized s' \<and> node_set s'
              \<and> cfg_vehicle_width s' = 1.1 \<and> cfg_division_factor s' = 3 \<and> cfg_manoeuvre_resolution s' = 100
              \<and> plan_pub s' = Some False \<and> grid_pub s' = Some False \<and> spirals_pub s' = Some False"
  using assms
  by (simp add: configure_def Let_def declare_parameter_if_not_declared_def get_double_def get_int_def)

text \<open>C25 (invariant). Once configured, the plugin keeps its name, frame, parameters and
  the values it read from them through every sequence of lifecycle events: \<open>cleanup\<close>
  does not reset \<open>initialized_\<close>, so a later \<open>configure\<close> with another name or other
  overrides is ignored.\<close>

theorem lc_run_configuration_frozen:
  assumes "lc_run s evs = Inr s'" and "initialized s"
  shows "initialized s' \<and> plugin_config s' = plugin_config s"
  using assms
proof (induction evs arbitrary: s)
  case (Cons ev evs)
  then obtain t where "lc_step s ev = Inr t" "lc_run t evs = Inr s'" by (auto split: sum.splits)
  with lc_step_frozen [of s ev t] Cons show ?case by auto
qed simp

text \<open>C26 (safety). The plan publisher \<open>plan_pub_\<close> is created by \<open>configure\<close> but never
  activated: \<open>activate\<close> activates only \<open>grid_pub\<close> and \<open>spirals_pub\<close>. In every
  state reachable from construction it is inactive or null, so a lifecycle publisher
  drops what is published on it.\<close>

theorem plan_pub_never_active:
  "lc_reach s \<Longrightarrow> plan_pub s \<noteq> Some True"
proof (induction rule: lc_reach.induct)
  case (start s)
  then show ?case by (simp add: constructed_def)
next
  case (step s ev s')
  then show ?case using lc_step_plan_pub [OF step.hyps(2)] by auto
qed

text \<open>C27 (safety). In the order the lifecycle manager allows (configure, activate,
  deactivate, cleanup, and again), with launch overrides of the types the plugin reads,
  no handler fails: \<open>activate\<close> and \<open>deactivate\<close> only run once the publishers exist.\<close>

theorem managed_lifecycle_no_error:
  assumes "constructed s" and "managed_run Unconfigured evs \<noteq> None" and "list_all event_typed evs"
  shows "\<exists>s'. lc_run s evs = Inr s'"
proof -
  from assms(1) have "managed_inv s Unconfigured" by (simp add: constructed_def managed_inv_def)
  from managed_run_ok [OF this assms(2,3)] show ?thesis .
qed

text \<open>C28 (error). \<open>createPlan\<close> before \<open>configure\<close>: \<open>makePlan\<close> sees
  \<open>initialized_\<close> false and returns at once, but \<open>createPlan\<close> then stamps the path with
  \<open>node_->now()\<close> on the null \<open>node_\<close>.\<close>

theorem createPlan_unconfigured:
  assumes "constructed s"
  shows "createPlan s parsed e aops ops obj met = Some (Inl (NullPointer ''node_''))"
  using assms by (simp add: createPlan_def makePlan_def constructed_def)

subsection \<open>The debugging copy of the visited grid\<close>

text \<open>C22 (error). \<open>visited_copy\<close> is a member, resized by every \<open>spiral_stc\<close> with
  \<open>resize\<close>, which keeps the rows it has. After a call on a grid \<open>w0\<close> cells wide and
  \<open>h0\<close> high, a call on a wider and lower grid leaves rows of both lengths, and
  \<open>visualizeGrid\<close> of the copy reads past the end of the new rows.\<close>

theorem visited_copy_resize_undefined:
  assumes "length (visited_copy obj) = w0" and "list_all (\<lambda>row. length row = h0) (visited_copy obj)"
    and "0 < w0" and "w0 < length (grid ! 0)" and "length grid < h0"
  shows "visualizeGrid env (visited_copy (stc_setup obj grid)) name_space a r gr b = None"
proof -
  let ?vc = "visited_copy obj"
  have new: "visited_copy (stc_setup obj grid)
               = ?vc @ replicate (length (grid ! 0) - w0) (replicate (length grid) False)"
    using assms(1,4) by (simp add: stc_setup_def resize_list_def)
  have ne: "?vc \<noteq> []" and h: "length (?vc ! 0) = h0" using assms(1-3) by (auto simp: list_all_length)
  let ?row = "replicate (length grid) False"
  have row: "?row \<in> set (visited_copy (stc_setup obj grid))" using new assms(4) by simp
  have r0: "visited_copy (stc_setup obj grid) ! 0 = ?vc ! 0" using new ne by (simp add: nth_append)
  have "\<not> list_all (\<lambda>row. length (visited_copy (stc_setup obj grid) ! 0) \<le> length row)
           (visited_copy (stc_setup obj grid))"
  proof
    assume a: "list_all (\<lambda>row. length (visited_copy (stc_setup obj grid) ! 0) \<le> length row)
                 (visited_copy (stc_setup obj grid))"
    have "length (visited_copy (stc_setup obj grid) ! 0) \<le> length ?row"
      using a row unfolding list_all_iff by (rule bspec)
    with r0 h assms(5) show False by simp
  qed
  then show ?thesis by (simp add: visualizeGrid_def)
qed

end
