(* ===== verification/Grid_Parse.thy ===== *)
theory Grid_Parse
  imports Plugin
begin

text \<open>
  The step of \<open>SpiralSTC::makePlan\<close> that turns the costmap into the planner's grid:
  \<open>parseGrid(costmap_, grid, vehicle_width_/division_factor_, vehicle_width_/division_factor_,
  start, start_point, yaw_start)\<close> (lines 481--489 of \<open>src/src/spiral_stc.cpp\<close>). The
  function belongs to the base class \<open>FullCoveragePathPlanner\<close>, which is not in the
  repository, so it is modelled from the specification's GridModel (section 4.1) and its
  derived dimensions (section 6): the coverage grid has the costmap's origin, cells of side
  \<open>tile\<close> and \<open>ceil(map size in metres / tile)\<close> columns and rows; a coverage cell is blocked
  when the centre of an occupied costmap cell lies in it; a grid with no free cell is
  \<open>GridParseFailed\<close>, a start outside the grid or on a blocked cell \<open>StartBlocked\<close>. The
  members \<open>tile_size_\<close> and \<open>grid_origin_\<close> that \<open>parseGrid\<close> sets are read back at line 491
  to size \<open>planner_grid\<close>.

  The lemmas show that no obstacle of the costmap is lost by the downsampling: the centre of
  every occupied costmap cell falls on a blocked cell inside \<open>planner_grid\<close>'s bounds (C33);
  and that a blocked start makes \<open>createPlan\<close> return an empty path without an error (C32).
\<close>

record obstacle_map =
  om_costmap :: costmap
  om_lethal :: grid
  \<comment> \<open>\<open>costmap_\<close>: its geometry, and per cell \<open>[y][x]\<close> whether its cost marks an obstacle\<close>

datatype parse_error = StartBlocked | GridParseFailed

definition coverage_costmap :: "costmap \<Rightarrow> real \<Rightarrow> costmap" where
  "coverage_costmap cm tile =
     \<lparr>size_x = nat \<lceil>real (size_x cm) * resolution cm / tile\<rceil>,
      size_y = nat \<lceil>real (size_y cm) * resolution cm / tile\<rceil>,
      resolution = tile, origin_x = origin_x cm, origin_y = origin_y cm\<rparr>"
  \<comment> \<open>the coverage grid: \<open>W = ceil(width / tile)\<close>, \<open>H = ceil(height / tile)\<close>, the map's origin\<close>

definition coverage_cell_of :: "costmap \<Rightarrow> real \<Rightarrow> cell \<Rightarrow> cell" where
  "coverage_cell_of cm tile u = worldToMapNoBounds (coverage_costmap cm tile) (mapToWorld cm (fst u) (snd u))"
  \<comment> \<open>the coverage cell in which the centre of costmap cell \<open>u\<close> lies\<close>

definition downsample :: "obstacle_map \<Rightarrow> real \<Rightarrow> grid" where
  "downsample om tile =
     (let cm = om_costmap om; cov = coverage_costmap cm tile;
          hits = map (coverage_cell_of cm tile) (filter (grid_at (om_lethal om)) (row_major (size_x cm) (size_y cm)))
      in map (\<lambda>y. map (\<lambda>x. (int x, int y) \<in> set hits) [0..<size_x cov]) [0..<size_y cov])"

definition parseGrid :: "obstacle_map \<Rightarrow> real \<Rightarrow> real \<Rightarrow> point \<times> real \<Rightarrow> parse_error + grid \<times> cell \<times> real" where
  "parseGrid om robotRadius toolRadius start =
     (let grid = downsample om toolRadius; cov = coverage_costmap (om_costmap om) toolRadius;
          start_point = worldToMapNoBounds cov (fst start)
      in if list_all (list_all id) grid then Inl GridParseFailed
         else if \<not> in_dims (size_x cov) (size_y cov) start_point \<or> grid_at grid start_point then Inl StartBlocked
         else Inr (grid, start_point, snd start))"
  \<comment> \<open>the grid, \<open>start_point\<close> and \<open>yaw_start\<close>; the specification gives one cell size, which
     the only call passes for both radii\<close>

definition parsed_viz_env :: "viz_env \<Rightarrow> obstacle_map \<Rightarrow> real \<Rightarrow> viz_env" where
  "parsed_viz_env env om tile =
     env\<lparr>tile_size := tile, grid_origin := (origin_x (om_costmap om), origin_y (om_costmap om)),
         size_m_x := real (size_x (om_costmap om)) * resolution (om_costmap om),
         size_m_y := real (size_y (om_costmap om)) * resolution (om_costmap om)\<rparr>"
  \<comment> \<open>the members \<open>tile_size_\<close>, \<open>grid_origin_\<close> that \<open>parseGrid\<close> sets, and the
     costmap's size in metres, as line 491 reads them\<close>

definition plan_tile :: "plugin \<Rightarrow> real" where
  "plan_tile s = cfg_vehicle_width s / real_of_int (cfg_division_factor s)"
  \<comment> \<open>\<open>vehicle_width_/division_factor_\<close>, line 485\<close>

definition parsed_input :: "obstacle_map \<Rightarrow> real \<Rightarrow> point \<times> real \<Rightarrow> (grid \<times> cell \<times> real) option" where
  "parsed_input om tile start =
     (case parseGrid om tile tile start of Inl _ \<Rightarrow> None | Inr p \<Rightarrow> Some p)"
  \<comment> \<open>lines 480--489: the same value for both parameters, \<open>return false\<close> when it fails\<close>

definition createPlan_request ::
  "plugin \<Rightarrow> obstacle_map \<Rightarrow> point \<times> real \<Rightarrow> fp_env \<Rightarrow> stc_ops \<Rightarrow> spiral_ops \<Rightarrow> stc_obj
   \<Rightarrow> spiral_cpp_metrics \<Rightarrow> (lc_error + string \<times> cell list) option" where
  "createPlan_request s om start e aops ops obj met =
     createPlan s (parsed_input om (plan_tile s) start) e aops ops obj met"
  \<comment> \<open>\<open>createPlan(start, goal)\<close> on the node's costmap: \<open>makePlan\<close> with its \<open>parseGrid\<close> call\<close>

subsection \<open>The coverage grid\<close>

lemma planner_grid_parsed [simp]:
  "planner_grid_of (parsed_viz_env env om tile) = coverage_costmap (om_costmap om) tile"
  by (simp add: planner_grid_of_def parsed_viz_env_def coverage_costmap_def)

lemma coverage_costmap_fields [simp]:
  "resolution (coverage_costmap cm tile) = tile"
  "origin_x (coverage_costmap cm tile) = origin_x cm"
  "origin_y (coverage_costmap cm tile) = origin_y cm"
  by (simp_all add: coverage_costmap_def)

lemma grid_at_downsample:
  assumes "in_dims (size_x (coverage_costmap (om_costmap om) tile)) (size_y (coverage_costmap (om_costmap om) tile)) c"
  shows "grid_at (downsample om tile) c \<longleftrightarrow>
           (\<exists>u. in_dims (size_x (om_costmap om)) (size_y (om_costmap om)) u \<and> grid_at (om_lethal om) u
                \<and> coverage_cell_of (om_costmap om) tile u = c)"
proof -
  obtain x y where c: "c = (x, y)" by (cases c)
  with assms have "0 \<le> x" "0 \<le> y" "nat x < size_x (coverage_costmap (om_costmap om) tile)"
    "nat y < size_y (coverage_costmap (om_costmap om) tile)" by (auto simp: in_dims_def)
  then have "grid_at (downsample om tile) c \<longleftrightarrow>
               c \<in> coverage_cell_of (om_costmap om) tile `
                      {u \<in> set (row_major (size_x (om_costmap om)) (size_y (om_costmap om))). grid_at (om_lethal om) u}"
    by (simp add: c downsample_def Let_def grid_at_def)
  then show ?thesis by (auto simp: row_major_in_dims)
qed

lemma coverage_cell_of_eq:
  "coverage_cell_of cm tile u =
     (\<lfloor>(of_int (fst u) + 1 / 2) * resolution cm / tile\<rfloor>, \<lfloor>(of_int (snd u) + 1 / 2) * resolution cm / tile\<rfloor>)"
  by (simp add: coverage_cell_of_def worldToMapNoBounds_def mapToWorld_def)

lemma floor_centre_bound:
  assumes r: "0 < r" and t: "0 < tile" and k: "0 \<le> k" "k < int n"
  shows "0 \<le> \<lfloor>(of_int k + 1 / 2) * r / tile\<rfloor> \<and> \<lfloor>(of_int k + 1 / 2) * r / tile\<rfloor> < int (nat \<lceil>real n * r / tile\<rceil>)"
proof -
  let ?a = "(of_int k + 1 / 2) * r / tile" and ?b = "real n * r / tile"
  have "of_int k + 1 / 2 < real n" using k by linarith
  then have ab: "?a < ?b" using r t by (simp add: divide_strict_right_mono)
  have a0: "0 \<le> ?a" using k r t by simp
  have "of_int \<lfloor>?a\<rfloor> < (of_int \<lceil>?b\<rceil> :: real)"
    using of_int_floor_le [of ?a] le_of_int_ceiling [of ?b] ab by linarith
  then have "\<lfloor>?a\<rfloor> < \<lceil>?b\<rceil>" by (simp only: of_int_less_iff)
  moreover have "0 \<le> \<lfloor>?a\<rfloor>" using a0 by simp
  moreover have "0 \<le> \<lceil>?b\<rceil>" using a0 ab by simp
  ultimately show ?thesis by simp
qed

lemma coverage_cell_in_dims:
  assumes "0 < resolution cm" "0 < tile" "in_dims (size_x cm) (size_y cm) u"
  shows "in_dims (size_x (coverage_costmap cm tile)) (size_y (coverage_costmap cm tile)) (coverage_cell_of cm tile u)"
  using assms floor_centre_bound [of "resolution cm" tile "fst u" "size_x cm"]
    floor_centre_bound [of "resolution cm" tile "snd u" "size_y cm"]
  by (simp add: coverage_cell_of_eq in_dims_def coverage_costmap_def)

lemma parseGrid_Inr:
  assumes "parseGrid om rr tile start = Inr (grid, sp, yaw)"
  shows "grid = downsample om tile \<and> sp = worldToMapNoBounds (coverage_costmap (om_costmap om) tile) (fst start)
         \<and> in_dims (size_x (coverage_costmap (om_costmap om) tile)) (size_y (coverage_costmap (om_costmap om) tile)) sp
         \<and> \<not> grid_at grid sp \<and> yaw = snd start"
  using assms by (auto simp: parseGrid_def Let_def split: if_splits)

lemma parseGrid_tile_pos:
  assumes "parseGrid om rr tile start = Inr p" and r: "0 < resolution (om_costmap om)"
  shows "0 < tile"
proof -
  obtain grid sp yaw where p: "p = (grid, sp, yaw)" by (cases p)
  from parseGrid_Inr [OF assms(1) [unfolded p]]
  have "0 < size_x (coverage_costmap (om_costmap om) tile)" by (auto simp: in_dims_def)
  then have "0 < real (size_x (om_costmap om)) * resolution (om_costmap om) / tile"
    by (simp add: coverage_costmap_def)
  moreover have "0 \<le> real (size_x (om_costmap om)) * resolution (om_costmap om)" using r by simp
  ultimately show ?thesis by (auto simp: zero_less_divide_iff)
qed

lemma parsed_input_blocked:
  "\<not> in_dims (size_x (coverage_costmap (om_costmap om) tile)) (size_y (coverage_costmap (om_costmap om) tile))
        (worldToMapNoBounds (coverage_costmap (om_costmap om) tile) (fst start))
   \<or> grid_at (downsample om tile) (worldToMapNoBounds (coverage_costmap (om_costmap om) tile) (fst start))
   \<Longrightarrow> parsed_input om tile start = None"
  by (auto simp: parsed_input_def parseGrid_def Let_def)

subsection \<open>Parsing, composed with the planner\<close>

text \<open>C32 (error). A start pose off the coverage grid or on a blocked coverage cell makes
  \<open>parseGrid\<close> fail, so \<open>makePlan\<close> returns \<open>false\<close> with the metrics and the members
  unchanged; \<open>createPlan\<close> ignores that result and hands nav2 an empty path with the frame,
  raising nothing, where the specification has \<open>StartBlocked\<close> abort the planning call with
  an error.\<close>

theorem createPlan_start_blocked:
  assumes "initialized s" and "node_set s"
    and "\<not> in_dims (size_x (coverage_costmap (om_costmap om) (plan_tile s)))
              (size_y (coverage_costmap (om_costmap om) (plan_tile s)))
              (worldToMapNoBounds (coverage_costmap (om_costmap om) (plan_tile s)) (fst start))
         \<or> grid_at (downsample om (plan_tile s))
              (worldToMapNoBounds (coverage_costmap (om_costmap om) (plan_tile s)) (fst start))"
  shows "makePlan (initialized s) (parsed_input om (plan_tile s) start) e aops ops obj met = Some (False, [], met, obj)
         \<and> createPlan_request s om start e aops ops obj met = Some (Inr (frame s, []))"
  using parsed_input_blocked [OF assms(3)] assms(1,2)
  by (simp add: createPlan_request_def createPlan_def makePlan_def)

text \<open>C33 (safety). No obstacle is lost by the downsampling: the centre of every occupied
  cell of the costmap falls, in \<open>planner_grid\<close>'s frame, on a cell inside its bounds that is
  blocked in the planner's grid. The bound needs \<open>W = ceil(width / tile)\<close>: a floor would
  drop the last partial column.\<close>

theorem downsample_keeps_obstacles:
  assumes p: "parseGrid om tile tile start = Inr (grid, sp, yaw)" and r: "0 < resolution (om_costmap om)"
    and u: "in_dims (size_x (om_costmap om)) (size_y (om_costmap om)) u" and l: "grid_at (om_lethal om) u"
  shows "map_bounds (planner_grid_of (parsed_viz_env env om tile))
           (worldToMapNoBounds (planner_grid_of (parsed_viz_env env om tile)) (mapToWorld (om_costmap om) (fst u) (snd u)))
         \<and> grid_at grid
           (worldToMapNoBounds (planner_grid_of (parsed_viz_env env om tile)) (mapToWorld (om_costmap om) (fst u) (snd u)))"
proof -
  have t: "0 < tile" by (rule parseGrid_tile_pos [OF p r])
  have c: "worldToMapNoBounds (planner_grid_of (parsed_viz_env env om tile)) (mapToWorld (om_costmap om) (fst u) (snd u))
             = coverage_cell_of (om_costmap om) tile u"
    by (simp add: coverage_cell_of_def)
  have d: "in_dims (size_x (coverage_costmap (om_costmap om) tile)) (size_y (coverage_costmap (om_costmap om) tile))
             (coverage_cell_of (om_costmap om) tile u)"
    by (rule coverage_cell_in_dims [OF r t u])
  from grid_at_downsample [OF d] u l have "grid_at (downsample om tile) (coverage_cell_of (om_costmap om) tile u)"
    by blast
  with parseGrid_Inr [OF p] c d show ?thesis by simp
qed

end
