(* ===== verification/Relocator.thy ===== *)
theory Relocator
  imports Planner
begin

text \<open>
  The relocation search \<open>a_star_to_open_space\<close>, which \<open>spiral_stc\<close> calls through the
  interface \<open>stc_ops\<close>. It belongs to the planner's base class, outside \<open>src/\<close>, and is
  modelled from the specification (section Relocator): a breadth-first search on the
  4-connected coverage grid with unit step cost, in which blocked and visited cells are
  impassable, from the spiral's last cell to the nearest cell of \<open>goals\<close>, ties broken by
  the smallest row-major index. The search returns the resign flag and \<open>path_nodes\<close>
  extended by the path found. The lemmas show that the search meets both contracts the
  planner theory assumes of it (\<open>a_star_extends\<close>, \<open>a_star_progress\<close>), so that the
  planner's theorems apply to it, and that, with the goals \<open>spiral_stc\<close> passes, it is
  equivalent to a one-step lookup among the four neighbours: every passable cell is a goal,
  so the search never goes past its first layer.
\<close>

definition neighbours :: "cell \<Rightarrow> cell list" where
  "neighbours c = [(fst c + 1, snd c), (fst c - 1, snd c), (fst c, snd c + 1), (fst c, snd c - 1)]"

definition passable :: "nat \<Rightarrow> nat \<Rightarrow> grid \<Rightarrow> grid \<Rightarrow> cell \<Rightarrow> bool" where
  "passable w h grid visited c \<longleftrightarrow> in_dims w h c \<and> \<not> grid_at grid c \<and> \<not> grid_at visited c"
  \<comment> \<open>a cell of the \<open>w\<close>-by-\<open>h\<close> grid that is neither blocked nor visited\<close>

definition row_key :: "nat \<Rightarrow> cell \<Rightarrow> int" where
  "row_key w c = snd c * int w + fst c"
  \<comment> \<open>the row-major index that breaks ties\<close>

fun dedup_fst :: "('a \<times> 'b) list \<Rightarrow> 'a list \<Rightarrow> ('a \<times> 'b) list" where
  "dedup_fst [] seen = []"
| "dedup_fst (x # xs) seen =
     (if fst x \<in> set seen then dedup_fst xs seen else x # dedup_fst xs (fst x # seen))"
  \<comment> \<open>keep the first entry of every cell not seen yet\<close>

definition expand ::
  "nat \<Rightarrow> nat \<Rightarrow> grid \<Rightarrow> grid \<Rightarrow> (cell \<times> cell list) list \<Rightarrow> cell list \<Rightarrow> (cell \<times> cell list) list" where
  "expand w h grid visited layer seen =
     dedup_fst [(n, snd q @ [n]). q \<leftarrow> layer, n \<leftarrow> neighbours (fst q), passable w h grid visited n] seen"
  \<comment> \<open>the next layer of the search: each new passable cell with the path that reaches it\<close>

function bfs ::
  "nat \<Rightarrow> nat \<Rightarrow> grid \<Rightarrow> grid \<Rightarrow> cell list \<Rightarrow> (cell \<times> cell list) list \<Rightarrow> cell list \<Rightarrow> cell list option" where
  "bfs w h grid visited goals layer seen =
     (case filter (\<lambda>q. fst q \<in> set goals) layer of
        q # qs \<Rightarrow> Some (snd (arg_min_list (\<lambda>q. row_key w (fst q)) (q # qs)))
      | [] \<Rightarrow>
          (let nxt = expand w h grid visited layer seen
           in if nxt = [] then None else bfs w h grid visited goals nxt (seen @ map fst nxt)))"
  by pat_completeness auto

definition a_star_to_open_space :: "nat \<Rightarrow> nat \<Rightarrow> grid \<Rightarrow> cell \<Rightarrow> grid \<Rightarrow> cell list \<Rightarrow> cell list \<Rightarrow> bool \<times> cell list" where
  "a_star_to_open_space w h grid start visited goals path_nodes =
     (let l1 = expand w h grid visited [(start, [])] [start]
      in case bfs w h grid visited goals l1 (start # map fst l1) of
           None \<Rightarrow> (True, path_nodes)
         | Some p \<Rightarrow> (False, path_nodes @ p))"
  \<comment> \<open>resign when the frontier empties; otherwise \<open>path_nodes\<close> extended by the path\<close>

definition relocator_ops :: "nat \<Rightarrow> nat \<Rightarrow> stc_ops" where
  "relocator_ops w h = \<lparr>a_star = a_star_to_open_space w h\<rparr>"

definition one_step_relocation :: "nat \<Rightarrow> nat \<Rightarrow> grid \<Rightarrow> cell \<Rightarrow> grid \<Rightarrow> cell list \<Rightarrow> bool \<times> cell list" where
  "one_step_relocation w h grid start visited path_nodes =
     (case filter (passable w h grid visited) (neighbours start) of
        [] \<Rightarrow> (True, path_nodes)
      | n # ns \<Rightarrow> (False, path_nodes @ [arg_min_list (row_key w) (n # ns)]))"
  \<comment> \<open>reference: step to the passable neighbour of least row-major index\<close>

definition one_step_ops :: "nat \<Rightarrow> nat \<Rightarrow> stc_ops" where
  "one_step_ops w h = \<lparr>a_star = (\<lambda>grid start visited goals pn. one_step_relocation w h grid start visited pn)\<rparr>"

subsection \<open>Termination of the search\<close>

lemma dedup_fst_subset: "set (dedup_fst xs seen) \<subseteq> set xs"
  by (induction xs seen rule: dedup_fst.induct) auto

lemma dedup_fst_fresh: "q \<in> set (dedup_fst xs seen) \<Longrightarrow> fst q \<notin> set seen"
  by (induction xs seen rule: dedup_fst.induct) (auto split: if_splits)

lemma expand_entry:
  assumes "q \<in> set (expand w h grid visited layer seen)"
  shows "passable w h grid visited (fst q) \<and> fst q \<notin> set seen
         \<and> (\<exists>p \<in> set layer. fst q \<in> set (neighbours (fst p)) \<and> snd q = snd p @ [fst q])"
proof -
  from assms have "fst q \<notin> set seen" unfolding expand_def by (rule dedup_fst_fresh)
  moreover from assms have "q \<in> set [(n, snd p @ [n]). p \<leftarrow> layer, n \<leftarrow> neighbours (fst p), passable w h grid visited n]"
    unfolding expand_def using dedup_fst_subset by blast
  then obtain p n where "p \<in> set layer" "n \<in> set (neighbours (fst p))" "passable w h grid visited n"
    "q = (n, snd p @ [n])" by (auto split: if_splits)
  ultimately show ?thesis by auto
qed

termination bfs
proof (relation "measure (\<lambda>(w, h, grid, visited, goals, layer, seen).
                   length (filter (\<lambda>c. passable w h grid visited c \<and> c \<notin> set seen) (row_major w h)))")
  fix w h grid visited goals layer seen nxt
  assume nxt: "nxt = expand w h grid visited layer seen" and ne: "nxt \<noteq> []"
  obtain q where q: "q \<in> set nxt" using ne last_in_set by blast
  with nxt have p: "passable w h grid visited (fst q)" and f: "fst q \<notin> set seen"
    using expand_entry by blast+
  have "length (filter (\<lambda>c. (passable w h grid visited c \<and> c \<notin> set seen) \<and> c \<notin> set (map fst nxt)) (row_major w h))
          < length (filter (\<lambda>c. passable w h grid visited c \<and> c \<notin> set seen) (row_major w h))"
    using p f q by (intro length_filter_strengthen [of "fst q"]) (auto simp: row_major_in_dims passable_def)
  then show "((w, h, grid, visited, goals, nxt, seen @ map fst nxt), w, h, grid, visited, goals, layer, seen)
               \<in> measure (\<lambda>(w, h, grid, visited, goals, layer, seen).
                   length (filter (\<lambda>c. passable w h grid visited c \<and> c \<notin> set seen) (row_major w h)))"
    by (simp add: conj_assoc)
qed simp

declare bfs.simps [simp del]

subsection \<open>What the search returns\<close>

lemma bfs_result:
  assumes "bfs w h grid visited goals layer seen = Some p"
    and "\<forall>q \<in> set layer. snd q \<noteq> [] \<and> last (snd q) = fst q \<and> passable w h grid visited (fst q)"
  shows "p \<noteq> [] \<and> passable w h grid visited (last p) \<and> last p \<in> set goals"
  using assms
proof (induction w h grid visited goals layer seen rule: bfs.induct)
  case (1 w h grid visited goals layer seen)
  show ?case
  proof (cases "filter (\<lambda>q. fst q \<in> set goals) layer")
    case (Cons q qs)
    let ?m = "arg_min_list (\<lambda>q. row_key w (fst q)) (q # qs)"
    have "?m \<in> set (q # qs)" by (rule arg_min_list_in) simp
    then have "?m \<in> set (filter (\<lambda>q. fst q \<in> set goals) layer)" using Cons by simp
    then have "?m \<in> set layer" "fst ?m \<in> set goals" by simp_all
    moreover have "p = snd ?m" using "1.prems"(1) Cons by (simp add: bfs.simps)
    ultimately show ?thesis using "1.prems"(2) by auto
  next
    case Nil
    let ?nxt = "expand w h grid visited layer seen"
    from "1.prems"(1) Nil have ne: "?nxt \<noteq> []"
      and r: "bfs w h grid visited goals ?nxt (seen @ map fst ?nxt) = Some p"
      by (simp_all add: bfs.simps Let_def split: if_splits)
    have "\<forall>q \<in> set ?nxt. snd q \<noteq> [] \<and> last (snd q) = fst q \<and> passable w h grid visited (fst q)"
      using expand_entry by fastforce
    from "1.IH" [OF Nil refl ne r this] show ?thesis .
  qed
qed

lemma expand_start:
  "\<forall>q \<in> set (expand w h grid visited [(start, [])] [start]).
     snd q \<noteq> [] \<and> last (snd q) = fst q \<and> passable w h grid visited (fst q)"
  using expand_entry by fastforce

lemma a_star_to_open_space_cases:
  "a_star_to_open_space w h grid start visited goals pn = (True, pn)
   \<or> (\<exists>p. a_star_to_open_space w h grid start visited goals pn = (False, pn @ p)
          \<and> p \<noteq> [] \<and> passable w h grid visited (last p) \<and> last p \<in> set goals)"
  using bfs_result [OF _ expand_start]
  by (auto simp: a_star_to_open_space_def Let_def split: option.splits)

subsection \<open>The one-step lookup\<close>

lemma dedup_fst_distinct:
  "distinct xs \<Longrightarrow> set xs \<inter> set seen = {} \<Longrightarrow> dedup_fst (map (\<lambda>n. (n, f n)) xs) seen = map (\<lambda>n. (n, f n)) xs"
  by (induction xs arbitrary: seen) auto

lemma arg_min_list_pairs:
  "xs \<noteq> [] \<Longrightarrow> arg_min_list (\<lambda>q. k (fst q)) (map (\<lambda>n. (n, g n)) xs) = (arg_min_list k xs, g (arg_min_list k xs))"
proof (induction xs rule: induct_list012)
  case (3 x y zs)
  then show ?case by (simp add: Let_def)
qed simp_all

lemma expand_first_layer:
  "expand w h grid visited [(start, [])] [start]
     = map (\<lambda>n. (n, [n])) (filter (passable w h grid visited) (neighbours start))"
proof -
  have l: "concat (map (\<lambda>n. if passable w h grid visited n then [(n, [n])] else []) xs)
             = map (\<lambda>n. (n, [n])) (filter (passable w h grid visited) xs)" for xs
    by (induction xs) auto
  have "[(n, snd q @ [n]). q \<leftarrow> [(start, [])], n \<leftarrow> neighbours (fst q), passable w h grid visited n]
          = map (\<lambda>n. (n, [n])) (filter (passable w h grid visited) (neighbours start))"
    by (simp add: l cong: if_cong)
  moreover have "distinct (filter (passable w h grid visited) (neighbours start))"
    and "set (filter (passable w h grid visited) (neighbours start)) \<inter> set [start] = {}"
    by (cases start; auto simp: neighbours_def)+
  ultimately show ?thesis by (simp add: expand_def dedup_fst_distinct)
qed

lemma a_star_to_open_space_one_step:
  assumes cover: "\<forall>c. passable w h grid visited c \<longrightarrow> c \<in> set goals"
  shows "a_star_to_open_space w h grid start visited goals pn = one_step_relocation w h grid start visited pn"
proof (cases "filter (passable w h grid visited) (neighbours start)")
  case Nil
  then have l1: "expand w h grid visited [(start, [])] [start] = []" by (simp add: expand_first_layer)
  have "bfs w h grid visited goals [] [start] = None" by (subst bfs.simps) (simp add: expand_def)
  then show ?thesis using Nil by (simp add: a_star_to_open_space_def one_step_relocation_def l1)
next
  case (Cons n ns)
  let ?l1 = "map (\<lambda>n. (n, [n])) (n # ns)"
  have l1: "expand w h grid visited [(start, [])] [start] = ?l1" using Cons by (simp add: expand_first_layer)
  have "\<forall>m \<in> set (n # ns). passable w h grid visited m"
    using Cons by (metis filter_is_subset mem_Collect_eq set_filter)
  with cover have g: "\<forall>m \<in> set (n # ns). m \<in> set goals" by blast
  have "filter (\<lambda>q. fst q \<in> set goals) ?l1 = ?l1" by (subst filter_id_conv) (use g in auto)
  then have "bfs w h grid visited goals ?l1 (start # map fst ?l1)
               = Some (snd (arg_min_list (\<lambda>q. row_key w (fst q)) ?l1))"
    by (subst bfs.simps) simp
  moreover have "arg_min_list (\<lambda>q. row_key w (fst q)) ?l1
                  = (arg_min_list (row_key w) (n # ns), [arg_min_list (row_key w) (n # ns)])"
    by (rule arg_min_list_pairs) simp
  ultimately show ?thesis using Cons
    by (simp only: a_star_to_open_space_def one_step_relocation_def l1 Let_def) simp
qed

lemma map_2_goals_open:
  assumes "grid_dims v w h" and "in_dims w h c" and "\<not> grid_at v c"
  shows "c \<in> set (map_2_goals v eNodeOpen)"
proof -
  obtain x y where c: "c = (x, y)" by fastforce
  with assms have "0 \<le> x" "nat x < w" "0 \<le> y" "nat y < h" "\<not> v ! nat y ! nat x"
    by (auto simp: in_dims_def grid_at_def)
  moreover have "length v = h" "length (v ! nat y) = w"
    using assms(1) \<open>nat y < h\<close> by (auto simp: grid_dims_def list_all_length)
  ultimately show ?thesis unfolding map_2_goals_def c
    by (simp, intro bexI [of _ "nat y"] rev_image_eqI [of "nat x"]) simp_all
qed

lemma passable_goal:
  assumes "grid_dims v0 w h" and "\<forall>c. grid_at v0 c \<longrightarrow> grid_at v c"
  shows "\<forall>c. passable w h grid v c \<longrightarrow> c \<in> set (map_2_goals v0 eNodeOpen)"
  using assms(2) by (auto simp: passable_def intro: map_2_goals_open [OF assms(1)])

lemma neighbours_adjacent: "n \<in> set (neighbours c) \<Longrightarrow> adjacent c n"
  by (auto simp: neighbours_def adjacent_def)

lemma one_step_relocation_cases:
  "one_step_relocation w h grid start visited pn = (True, pn)
   \<or> (\<exists>n. one_step_relocation w h grid start visited pn = (False, pn @ [n]) \<and> adjacent start n
          \<and> passable w h grid visited n)"
proof (cases "filter (passable w h grid visited) (neighbours start)")
  case (Cons m ms)
  let ?n = "arg_min_list (row_key w) (m # ms)"
  have "?n \<in> set (m # ms)" by (rule arg_min_list_in) simp
  then have "?n \<in> set (filter (passable w h grid visited) (neighbours start))" using Cons by simp
  then have "adjacent start ?n" "passable w h grid visited ?n" by (simp_all add: neighbours_adjacent)
  with Cons show ?thesis by (simp add: one_step_relocation_def)
qed (simp add: one_step_relocation_def)

lemma relocator_contracts:
  "a_star_extends (relocator_ops w h) \<and> a_star_progress (relocator_ops w h) w h"
proof -
  have "prefix pn (snd (a_star_to_open_space w h g c v gl pn))
        \<and> (\<not> fst (a_star_to_open_space w h g c v gl pn) \<longrightarrow> 1 < length (snd (a_star_to_open_space w h g c v gl pn)) \<longrightarrow>
             in_dims w h (last (snd (a_star_to_open_space w h g c v gl pn)))
             \<and> \<not> grid_at v (last (snd (a_star_to_open_space w h g c v gl pn))))" for g c v gl pn
    using a_star_to_open_space_cases [of w h g c v gl pn] by (auto simp: passable_def)
  then show ?thesis by (simp add: a_star_extends_def a_star_progress_def relocator_ops_def)
qed

text \<open>C29 (equivalence). The relocation loop \<open>while (!accept_a_star)\<close> of
  \<open>spiral_stc\<close>, run with the specification's breadth-first search and the goals
  \<open>spiral_stc\<close> passes (\<open>map_2_goals\<close> of a visited grid that the current one
  extends), computes the same as the loop run with the one-step lookup among the four
  neighbours: every passable cell is a goal, so each search stops at its first layer or
  resigns, and an open cell behind a visited one is never reached.\<close>

theorem astar_loop_relocator_one_step:
  assumes d0: "grid_dims v0 w h" and d: "grid_dims v w h" and sub: "\<forall>c. grid_at v0 c \<longrightarrow> grid_at v c"
  shows "astar_loop e (relocator_ops w h) grid bound (map_2_goals v0 eNodeOpen) pn v
           = astar_loop e (one_step_ops w h) grid bound (map_2_goals v0 eNodeOpen) pn v"
  using d sub
proof (induction "open_count v" arbitrary: pn v rule: less_induct)
  case less
  let ?gl = "map_2_goals v0 eNodeOpen"
  let ?r = "one_step_relocation w h grid (last pn) v pn"
  have eq: "a_star (relocator_ops w h) grid (last pn) v ?gl pn = ?r"
    "a_star (one_step_ops w h) grid (last pn) v ?gl pn = ?r"
    using a_star_to_open_space_one_step [OF passable_goal [OF d0 less.prems(2)]]
    by (simp_all add: relocator_ops_def one_step_ops_def)
  show ?case
  proof (cases "fst ?r \<or> length (snd ?r) \<le> 1 \<or> a_star_accepted e grid v bound (snd ?r)")
    case True
    then show ?thesis by (auto simp: astar_loop_unfold [of e _ grid bound ?gl pn v] eq Let_def)
  next
    case False
    with one_step_relocation_cases [of w h grid "last pn" v pn] obtain n where
      r: "?r = (False, pn @ [n])" and p: "passable w h grid v n" by auto
    from p have c: "in_dims w h n" "\<not> grid_at v n" by (simp_all add: passable_def)
    have "grid_at (grid_mark v n) n" using grid_at_mark_same [OF less.prems(1) c(1)] .
    with c(2) have "open_count (grid_mark v n) < open_count v" by (rule open_count_mark_hit)
    moreover have "grid_dims (grid_mark v n) w h" using less.prems(1) by (simp add: grid_dims_mark)
    moreover have "\<forall>c. grid_at v0 c \<longrightarrow> grid_at (grid_mark v n) c"
      using less.prems(2) by (simp add: grid_at_mark_mono)
    ultimately have "astar_loop e (relocator_ops w h) grid bound ?gl (take 1 (pn @ [n])) (grid_mark v n)
                       = astar_loop e (one_step_ops w h) grid bound ?gl (take 1 (pn @ [n])) (grid_mark v n)"
      by (rule less.hyps)
    with False r show ?thesis by (simp add: astar_loop_unfold [of e _ grid bound ?gl pn v] eq Let_def)
  qed
qed

text \<open>C30 (safety). Composed with \<open>spiral_stc\<close>'s loop: under the specification's search,
  every round that continues starts its next spiral at a neighbour of the previous spiral's
  last cell. The relocation loop rejects end cells and marks them visited, but the search
  only ever proposes neighbours.\<close>

theorem stc_step_relocates_to_neighbour:
  assumes step: "stc_step e (relocator_ops w h) ops grid yaw_start s = Some (Inr s')"
    and dims: "grid_dims (sc_visited s) w h"
    and goals: "sc_goals s = map_2_goals (sc_visited s) eNodeOpen"
  shows "2 \<le> length (sc_path s') \<and> adjacent (last (sc_path s)) (sc_path s' ! 1)"
proof -
  let ?st = "last (sc_path s)" and ?v0 = "sc_visited s"
  from stc_step_Inr [OF step] obtain pn v1 v2 ob where
    a: "astar_loop e (relocator_ops w h) grid (max_overlap (sc_obj s)) (sc_goals s) [?st] ?v0 = Some (False, pn, v1)"
    and sp: "spiral ops ((sc_obj s)\<lparr>spiral_counter := spiral_counter (sc_obj s) + 1\<rparr>) grid pn yaw_start
               (fst (mark_counting pn (v1, sc_mpc s))) = Some (sc_path s', v2, ob)"
    by blast
  have "fst (False, pn, v1) \<or> (\<exists>n. fst (snd (False, pn, v1)) = [?st, n] \<and> adjacent ?st n)"
  proof (rule astar_loop_rule [OF a,
        where I = "\<lambda>pn v. pn = [?st] \<and> (\<forall>c. grid_at ?v0 c \<longrightarrow> grid_at v c) \<and> grid_dims v w h"])
    show "[?st] = [?st] \<and> (\<forall>c. grid_at ?v0 c \<longrightarrow> grid_at ?v0 c) \<and> grid_dims ?v0 w h" using dims by simp
  next
    fix pn v assume i: "pn = [?st] \<and> (\<forall>c. grid_at ?v0 c \<longrightarrow> grid_at v c) \<and> grid_dims v w h"
    have eq: "a_star (relocator_ops w h) grid (last pn) v (sc_goals s) pn = one_step_relocation w h grid ?st v [?st]"
      using i goals a_star_to_open_space_one_step [OF passable_goal [OF dims, of v]]
      by (simp add: relocator_ops_def)
    show "fst (fst (a_star (relocator_ops w h) grid (last pn) v (sc_goals s) pn),
               snd (a_star (relocator_ops w h) grid (last pn) v (sc_goals s) pn), v)
          \<or> (\<exists>n. fst (snd (fst (a_star (relocator_ops w h) grid (last pn) v (sc_goals s) pn),
                              snd (a_star (relocator_ops w h) grid (last pn) v (sc_goals s) pn), v))
                   = [?st, n] \<and> adjacent ?st n)"
      using one_step_relocation_cases [of w h grid ?st v "[?st]"] unfolding eq by auto
    show "take 1 (snd (a_star (relocator_ops w h) grid (last pn) v (sc_goals s) pn)) = [?st]
          \<and> (\<forall>c. grid_at ?v0 c \<longrightarrow> grid_at (grid_mark v (last (snd (a_star (relocator_ops w h) grid (last pn) v (sc_goals s) pn)))) c)
          \<and> grid_dims (grid_mark v (last (snd (a_star (relocator_ops w h) grid (last pn) v (sc_goals s) pn)))) w h"
      using one_step_relocation_cases [of w h grid ?st v "[?st]"] i unfolding eq
      by (auto simp: grid_dims_mark grid_at_mark_mono)
  qed
  then obtain n where pn: "pn = [?st, n]" and adj: "adjacent ?st n" by auto
  from spiral_path_prefix [OF sp] pn obtain rest where "sc_path s' = [?st, n] @ rest"
    by (auto simp: prefix_def)
  with adj show ?thesis by simp
qed

end
