(* ===== verification/Examples.thy ===== *)
theory Examples
  imports Grid_Parse Relocator
begin

text \<open>
  Concrete instances on which the properties of the development are exercised: a
  6-by-5 grid of unit cells with a square vehicle footprint two cells wide, filled by its
  corner cells (\<open>e1\<close>); a free 3-by-3 grid of unit cells with one-cell relative
  manoeuvres and a one-cell tool (\<open>ops3\<close>, \<open>obj3\<close>), on which the spiral from the
  corner \<open>(0, 0)\<close> visits all nine cells; the same grid with an obstacle at \<open>(2, 2)\<close>
  that the vehicle manoeuvre cells contain (\<open>objB\<close>); and the object as \<open>makePlan\<close>
  leaves it, with no relative manoeuvre cells (\<open>objW\<close>); a 4-by-2 costmap of unit
  cells with one obstacle at \<open>(3, 0)\<close>, which \<open>parseGrid\<close> with cells of side 2 turns
  into the grid \<open>[[False, True]]\<close> (\<open>omA\<close>), and a configured plugin with that cell
  size (\<open>plugP\<close>).
\<close>

definition e1 :: fp_env where
  "e1 = \<lparr>grid_cm = \<lparr>size_x = 6, size_y = 5, resolution = 1, origin_x = 0, origin_y = 0\<rparr>,
         robot_footprint = [(-1, -1), (1, -1), (1, 1), (-1, 1)], fill = id, manoeuvre_resolution = 3\<rparr>"

definition cm3 :: costmap where
  "cm3 = \<lparr>size_x = 3, size_y = 3, resolution = 1, origin_x = 0, origin_y = 0\<rparr>"

definition clamp3 :: "int \<Rightarrow> int" where
  "clamp3 v = max 0 (min 2 v)"

definition ops3 :: spiral_ops where
  "ops3 = \<lparr>planner_cm = cm3,
           tool_manoeuvre = (\<lambda>obj x y yaw x' y' yaw'. (obj, [(clamp3 x', clamp3 y')])),
           tool_footprint_cells = (\<lambda>x y yaw. [(x, y)]), fall_off = True\<rparr>"

definition obj3 :: stc_obj where
  "obj3 = \<lparr>man_cells = [], man_grids = [], max_overlap = 0, max_overlap_turn = 0, max_overlap_forward = 0,
     visited_copy = replicate 3 (replicate 3 False), spiral_counter = 0,
     left_turn = [], forward = [], right_turn = [], turn_around_left = [], turn_around_right = [],
     left_turn_rel = [(0, 1)], forward_rel = [(1, 0)], right_turn_rel = [(0, -1)],
     turn_around_left_rel = [], turn_around_right_rel = []\<rparr>"

definition objB :: stc_obj where
  "objB = obj3\<lparr>man_grids := [(2, 2)]\<rparr>"

definition objW :: stc_obj where
  "objW = obj3\<lparr>left_turn_rel := [], forward_rel := [], right_turn_rel := []\<rparr>"

definition g3 :: grid where "g3 = replicate 3 (replicate 3 False)"

definition gB :: grid where "gB = grid_mark g3 (2, 2)"

definition v3 :: grid where "v3 = grid_mark g3 (0, 0)"

definition path3 :: "cell list" where
  "path3 = [(0, 0), (0, 1), (0, 2), (1, 2), (2, 2), (2, 1), (2, 0), (1, 0), (1, 1)]"

lemmas fp_eval_simps = computeFootprintCells_def footprint_corners_def e1_def transformFootprint_def
  part_polygon_def mapToWorld_def worldToMapNoBounds_def sort_unique_cells_def getIndex_def
  indexToCells_def convexFillCells_def in_dims_def footprints_at_def intermediate_yaws_def
  yaw_inter_def wrap_angle_def yaw_difference_def

definition eE :: fp_env where
  "eE = e1\<lparr>robot_footprint := []\<rparr>"

definition met0 :: spiral_cpp_metrics where
  "met0 = \<lparr>visited_counter = 0, multiple_pass_counter = 0, accessible_counter = 0, total_area_covered = 0\<rparr>"

definition aopsR :: stc_ops where
  "aopsR = \<lparr>a_star = (\<lambda>g c v gl pn. (False, pn @ [(fst c + 1, snd c)]))\<rparr>"

definition aopsZ :: stc_ops where
  "aopsZ = \<lparr>a_star = (\<lambda>g c v gl pn. (True, pn))\<rparr>"

definition vB :: grid where "vB = grid_mark gB (0, 0)"

definition sJ :: stc_state where
  "sJ = \<lparr>sc_path = [(0, 0)], sc_visited = vB, sc_obj = objB, sc_goals = [(1, 0)],
         sc_full = [(0, 0)], sc_mpc = 0, sc_vc = 1\<rparr>"

definition g32 :: grid where "g32 = replicate 3 (replicate 2 False)"

definition cells3 :: "cell list" where
  "cells3 = [(0, 0), (1, 0), (2, 0), (0, 1), (1, 1), (2, 1), (0, 2), (1, 2), (2, 2)]"

definition aopsG :: stc_ops where
  "aopsG = \<lparr>a_star = (\<lambda>g c v gl pn.
     case find (\<lambda>d. \<not> grid_at v d) cells3 of None \<Rightarrow> (True, pn) | Some d \<Rightarrow> (False, pn @ [d]))\<rparr>"
  \<comment> \<open>a search that jumps to the first open cell in row-major order\<close>

definition envA :: viz_env where
  "envA = \<lparr>global_frame = ''map'', tile_size = 1, grid_origin = (0, 0), size_m_x = 3, size_m_y = 1\<rparr>"
  \<comment> \<open>a map three tiles wide and one tile high\<close>

definition envW :: viz_env where "envW = envA\<lparr>size_m_x := 2 ^ 33\<rparr>"

definition gD :: grid where "gD = [[True, False], [False, True]]"

definition objV :: stc_obj where "objV = obj3\<lparr>visited_copy := [[False, False, False]]\<rparr>"
  \<comment> \<open>the copy a call on a grid one cell wide and three high leaves\<close>

definition plug0 :: plugin where
  "plug0 = \<lparr>initialized = False, node_set = False, plugin_name = [], frame = [], node_params = Map.empty,
            plan_pub = None, grid_pub = None, spirals_pub = None,
            cfg_vehicle_width = 0, cfg_division_factor = 0, cfg_manoeuvre_resolution = 0\<rparr>"

definition g31 :: grid where "g31 = [[False, False, False]]"

definition v31 :: grid where "v31 = [[True, True, False]]"
  \<comment> \<open>a corridor of three cells, the first two visited\<close>

definition sR :: stc_state where "sR = sJ\<lparr>sc_goals := map_2_goals vB eNodeOpen\<rparr>"
  \<comment> \<open>the round of \<open>sJ\<close> with the goals \<open>spiral_stc\<close> computes\<close>

definition sW :: spiral_state where "sW = spiral_init (as_written_ops e1 True) obj3 [(0, 0)] 0 g3"
  \<comment> \<open>the first spiral state of the source's wiring, from an object with empty \<open>man_grids\<close>\<close>

definition omA :: obstacle_map where
  "omA = \<lparr>om_costmap = \<lparr>size_x = 4, size_y = 2, resolution = 1, origin_x = 0, origin_y = 0\<rparr>,
          om_lethal = [[False, False, False, True], [False, False, False, False]]\<rparr>"

definition plugP :: plugin where
  "plugP = plug0\<lparr>initialized := True, node_set := True, frame := ''map'', cfg_vehicle_width := 2,
                 cfg_division_factor := 1\<rparr>"

lemmas step_simps = spiral_init_def dir_loop.simps attempt_dir_def turn_ccw_def
  next_cell_def next_yaw_def tool_call_def ops3_def cm3_def obj3_def g3_def v3_def clamp3_def rel_of_def
  overlap_limit_def rotated_cells_def count_overlap_def future_rejected_def future_blocked_def
  checkManoeuvreCollision_def rotatePoint_def mapToWorld_def worldToMapNoBounds_def atan2_def
  grid_at_def grid_mark_def in_dims_def Let_def

subsection \<open>Facts of the instances\<close>

lemma e1_fill_in_bounds: "fill_in_bounds e1"
  by (simp add: fill_in_bounds_def e1_def)

lemma ops3_tool_frame: "tool_frame ops3"
  by (simp add: tool_frame_def ops3_def)

lemma demo_spiral_path: "map_option fst (spiral ops3 obj3 g3 [(0, 0)] 0 v3) = Some path3"
  unfolding spiral_def path3_def
  apply (subst spiral_loop_unfold, simp add: step_simps)
  apply (subst spiral_loop_unfold, simp add: step_simps)
  apply (subst spiral_loop_unfold, simp add: step_simps)
  apply (subst spiral_loop_unfold, simp add: step_simps)
  apply (subst spiral_loop_unfold, simp add: step_simps)
  apply (subst spiral_loop_unfold, simp add: step_simps)
  apply (subst spiral_loop_unfold, simp add: step_simps)
  apply (subst spiral_loop_unfold, simp add: step_simps)
  apply (subst spiral_loop_unfold, simp add: step_simps)
  done

lemma demo_spiral_run: "\<exists>V ob. spiral ops3 obj3 g3 [(0, 0)] 0 v3 = Some (path3, V, ob)"
  using demo_spiral_path by (cases "spiral ops3 obj3 g3 [(0, 0)] 0 v3") auto

subsection \<open>Witnesses\<close>

theorem manoeuvre_cells_newly_swept_witness:
  "\<exists>cs. manoeuvre_cells e1 2 2 0 3 2 0 eAnyDirection Vehicle = Some cs
        \<and> set cs = (set [(2, 1), (4, 1), (2, 3), (4, 3)] \<union> set [(1, 1), (3, 1), (1, 3), (3, 3)])
                   - set [(1, 1), (3, 1), (1, 3), (3, 3)]
        \<and> distinct cs \<and> sorted (map (getIndex (grid_cm e1)) cs)"
proof -
  have fp1: "computeFootprintCells e1 2 2 0 Vehicle = Some [(1, 1), (3, 1), (1, 3), (3, 3)]"
    by (simp add: fp_eval_simps)
  have mid: "footprints_at e1 2 2 (intermediate_yaws (manoeuvre_resolution e1) 0
               (yaw_difference 0 0 eAnyDirection)) Vehicle = Some [(1, 1), (3, 1), (1, 3), (3, 3)]"
    by (simp add: fp_eval_simps)
  have fp2: "computeFootprintCells e1 3 2 0 Vehicle = Some [(2, 1), (4, 1), (2, 3), (4, 3)]"
    by (simp add: fp_eval_simps)
  show ?thesis by (rule manoeuvre_cells_newly_swept [OF e1_fill_in_bounds fp1 mid fp2])
qed

theorem yaw_difference_spiral_moves_witness:
  "yaw_difference (- (pi / 2)) 0 eAnyDirection = pi / 2
   \<and> yaw_difference (- (pi / 2)) (- (pi / 2)) eAnyDirection = 0
   \<and> yaw_difference (- (pi / 2)) pi eAnyDirection = - (pi / 2)"
  using yaw_difference_spiral_moves [of 0 "-1"] by (simp add: unit_dir_def atan2_unit)

theorem intermediate_yaws_end_at_target_witness:
  "length (intermediate_yaws 3 (- (pi / 2)) (yaw_difference (- (pi / 2)) (- (pi / 2)) eAnyDirection)) = 1
   \<and> last (intermediate_yaws 3 (- (pi / 2)) (yaw_difference (- (pi / 2)) 0 eAnyDirection)) = 0
   \<and> last (intermediate_yaws 3 (- (pi / 2)) (yaw_difference (- (pi / 2)) (- (pi / 2)) eAnyDirection)) = - (pi / 2)
   \<and> last (intermediate_yaws 3 (- (pi / 2)) (yaw_difference (- (pi / 2)) pi eAnyDirection)) = - pi"
  using intermediate_yaws_end_at_target [where res = 3 and dx = 0 and dy = "-1"]
  by (simp add: unit_dir_def atan2_unit)

theorem spiral_four_connected_witness:
  "\<exists>V ob. spiral ops3 obj3 g3 [(0, 0)] 0 v3 = Some (path3, V, ob)
          \<and> four_connected path3 \<and> prefix [(0, 0)] path3"
proof -
  from demo_spiral_run obtain V ob where r: "spiral ops3 obj3 g3 [(0, 0)] 0 v3 = Some (path3, V, ob)"
    by blast
  have "four_connected path3 \<and> prefix [(0, 0)] path3"
    by (rule spiral_four_connected [OF r]) simp_all
  with r show ?thesis by blast
qed

theorem spiral_no_reversal_witness:
  "\<exists>V ob. spiral ops3 obj3 g3 [(0, 0)] 0 v3 = Some (path3, V, ob)
          \<and> path3 ! 0 \<noteq> path3 ! 2 \<and> path3 ! 4 \<noteq> path3 ! 6"
proof -
  from demo_spiral_run obtain V ob where r: "spiral ops3 obj3 g3 [(0, 0)] 0 v3 = Some (path3, V, ob)"
    by blast
  have "\<forall>k. length [(0::int, 0::int)] - 1 \<le> k \<longrightarrow> k + 2 < length path3 \<longrightarrow> path3 ! k \<noteq> path3 ! (k + 2)"
    by (rule spiral_no_reversal [OF r]) simp_all
  then have "path3 ! 0 \<noteq> path3 ! 2" "path3 ! 4 \<noteq> path3 ! 6"
    by (simp_all add: path3_def)
  with r show ?thesis by blast
qed

theorem spiral_visited_mono_witness:
  "\<exists>V ob. spiral ops3 obj3 g3 [(0, 0)] 0 v3 = Some (path3, V, ob) \<and> grid_at V (0, 0)"
proof -
  from demo_spiral_run obtain V ob where r: "spiral ops3 obj3 g3 [(0, 0)] 0 v3 = Some (path3, V, ob)"
    by blast
  have "grid_at V (0, 0)"
    by (rule spiral_visited_mono [OF r]) (simp add: v3_def g3_def grid_at_def grid_mark_def)
  with r show ?thesis by blast
qed

theorem attempt_dir_overlap_bound_witness:
  "\<exists>s'. attempt_dir ops3 g3 0 (spiral_init ops3 obj3 [(0, 0)] 0 v3) = (Accepted, s')
        \<and> count_overlap g3 (st_visited (spiral_init ops3 obj3 [(0, 0)] 0 v3))
              (snd (tool_call ops3 0 (spiral_init ops3 obj3 [(0, 0)] 0 v3))) \<le> 0
        \<and> st_path s' = [(0, 0), (0, 1)]"
proof -
  let ?s = "spiral_init ops3 obj3 [(0, 0)] 0 v3"
  obtain a s' where r: "attempt_dir ops3 g3 0 ?s = (a, s')" by fastforce
  have "fst (attempt_dir ops3 g3 0 ?s) = Accepted" by (simp add: step_simps)
  with r have acc: "attempt_dir ops3 g3 0 ?s = (Accepted, s')" by simp
  have "overlap_limit (st_obj ?s) 0 = 0" and "next_cell ?s = (0, 1)" and "st_path ?s = [(0, 0)]"
    by (simp_all add: spiral_init_def obj3_def overlap_limit_def next_cell_def Let_def)
  with attempt_dir_overlap_bound [OF ops3_tool_frame acc] acc show ?thesis by simp
qed

theorem spiral_as_written_no_progress_witness:
  "spiral (as_written_ops e1 True) objW g3 [(0, 0)] 0 v3 = None
   \<and> map_option fst (spiral (as_written_ops e1 False) objW g3 [(0, 0)] 0 v3) = Some [(0, 0)]"
proof (rule spiral_as_written_no_progress)
  show "stalled_obj g3 objW" by (simp add: stalled_obj_def objW_def obj3_def)
qed

theorem makePlan_as_written_no_return_witness:
  "makePlan True (Some (g3, (0, 0), 0)) e1 aopsR (as_written_ops e1 True) obj3 met0 = None"
  by (rule makePlan_as_written_no_return) (simp_all add: obj3_def)

lemma aopsR_extends: "a_star_extends aopsR"
  by (simp add: a_star_extends_def aopsR_def)

lemma sJ_relocates: "\<exists>s'. stc_step eE aopsR ops3 gB 0 sJ = Some (Inr s')"
  by (simp add: stc_step_def sJ_def astar_loop.simps aopsR_def a_star_accepted_def end_footprint_def
      step_simps eE_def e1_def objB_def gB_def vB_def mark_counting_def spiral_def
      computeFootprintCells_def footprint_corners_def transformFootprint_def part_polygon_def
      convexFillCells_def sort_unique_cells_def spiral_loop.simps)

theorem stc_step_repeats_junction_witness:
  "\<exists>s'. stc_step eE aopsR ops3 gB 0 sJ = Some (Inr s') \<and> \<not> four_connected (sc_full s')"
proof -
  from sJ_relocates obtain s' where st: "stc_step eE aopsR ops3 gB 0 sJ = Some (Inr s')" by blast
  have h: "sc_full sJ \<noteq> []" "last (sc_full sJ) = last (sc_path sJ)" by (simp_all add: sJ_def)
  from stc_step_repeats_junction [OF aopsR_extends st h] have "\<not> four_connected (sc_full s')" by blast
  with st show ?thesis by blast
qed

theorem rotated_cells_integer_witness:
  "rotated_cells cm3 [(0, 1)] 1 1 (atan2 1 0) = [(0, 1)]"
  using rotated_cells_integer [where cm = cm3 and dx = 0 and dy = 1 and rel = "[(0, 1)]" and x = 1 and y = 1]
  by (simp add: cm3_def unit_dir_def rot_offset_def)

theorem stc_setup_transposed_witness:
  "grid_dims (visited_copy (stc_setup (obj3\<lparr>visited_copy := []\<rparr>) g32)) 3 2
   \<and> length (visited_copy (stc_setup (obj3\<lparr>visited_copy := []\<rparr>) g32)) < 3"
proof -
  have "grid_dims (visited_copy (stc_setup (obj3\<lparr>visited_copy := []\<rparr>) g32)) 3 2
        \<and> (2 < (3::nat) \<longrightarrow> length (visited_copy (stc_setup (obj3\<lparr>visited_copy := []\<rparr>) g32)) < 3)"
    by (rule stc_setup_transposed) (simp_all add: g32_def grid_dims_def list_all_iff)
  then show ?thesis by simp
qed

theorem stc_step_debug_break_witness:
  "stc_step eE aopsR ops3 gB 0 (sJ\<lparr>sc_obj := objB\<lparr>spiral_counter := 1\<rparr>\<rparr>)
     = Some (Inl (sJ\<lparr>sc_obj := objB\<lparr>spiral_counter := 2\<rparr>\<rparr>))"
  using stc_step_debug_break [where s = "sJ\<lparr>sc_obj := objB\<lparr>spiral_counter := 1\<rparr>\<rparr>"
      and e = eE and aops = aopsR and ops = ops3 and grid = gB and yaw_start = 0]
  by (simp add: sJ_def)

theorem stc_step_guard_spent_witness:
  "\<exists>s'. stc_step eE aopsZ ops3 gB 0 (sJ\<lparr>sc_obj := objB\<lparr>spiral_counter := 2\<rparr>\<rparr>) = Some (Inl s')
        \<and> astar_loop eE aopsZ gB 0 [(1, 0)] [(0, 0)] vB = Some (True, sc_path s', sc_visited s')"
proof -
  let ?s = "sJ\<lparr>sc_obj := objB\<lparr>spiral_counter := 2\<rparr>\<rparr>"
  have "\<exists>s'. stc_step eE aopsZ ops3 gB 0 ?s = Some (Inl s')"
    by (simp add: stc_step_def sJ_def astar_loop.simps aopsZ_def)
  then obtain s' where st: "stc_step eE aopsZ ops3 gB 0 ?s = Some (Inl s')" by blast
  from stc_step_guard_spent [OF _ st] st show ?thesis
    by (simp add: sJ_def objB_def obj3_def)
qed

lemma aopsG_progress: "a_star_progress aopsG 3 3"
proof -
  have "in_dims 3 3 d \<and> \<not> grid_at v d" if "find (\<lambda>d. \<not> grid_at v d) cells3 = Some d" for v d
  proof -
    from that have "d \<in> set cells3" and "\<not> grid_at v d" by (auto simp: find_Some_iff)
    then show ?thesis by (auto simp: cells3_def in_dims_def)
  qed
  then show ?thesis by (auto simp: a_star_progress_def aopsG_def split: option.splits)
qed

lemma vB_dims: "grid_dims vB 3 3"
proof -
  have "grid_dims g3 3 3" by (simp add: g3_def grid_dims_def list_all_iff)
  then show ?thesis by (simp add: vB_def gB_def grid_dims_mark)
qed

theorem astar_loop_terminates_witness:
  "\<exists>r. astar_loop eE aopsG gB 0 [(1, 0)] [(0, 0)] vB = Some r"
  by (rule astar_loop_terminates [OF aopsG_progress vB_dims])

lemma upt_3: "[0..<3] = [0, 1, 2::nat]"
  by (simp add: upt_rec)

lemma upt_2: "[0..<2] = [0, 1::nat]"
  by (simp add: upt_rec)

lemmas stc_eval_simps = upt_3 spiral_stc_def stc_setup_def resize_list_def stc_loop.simps stc_step_def
  astar_loop.simps aopsR_def a_star_accepted_def end_footprint_def eE_def e1_def objB_def gB_def
  mark_counting_def spiral_def spiral_loop.simps map_2_goals_def computeFootprintCells_def
  footprint_corners_def transformFootprint_def part_polygon_def convexFillCells_def sort_unique_cells_def

lemma objB_first_spiral:
  "\<exists>v0 o0. spiral ops3 (stc_setup objB gB) gB [(0, 0)] 0 gB = Some ([(0, 0)], v0, o0)"
  by (simp add: stc_eval_simps step_simps)

lemma objB_planner_run:
  "\<exists>full mpc vc ob. spiral_stc eE aopsR ops3 gB (0, 0) 0 objB = Some (full, mpc, vc, ob) \<and> full \<noteq> [(0, 0)]"
  by (simp add: stc_eval_simps step_simps del: concat_eq_Nil_conv)

theorem spiral_stc_relocation_not_connected_witness:
  "\<exists>full mpc vc ob. spiral_stc eE aopsR ops3 gB (0, 0) 0 objB = Some (full, mpc, vc, ob)
     \<and> full \<noteq> [(0, 0)] \<and> \<not> four_connected full"
proof -
  from objB_first_spiral obtain v0 o0 where
    f: "spiral ops3 (stc_setup objB gB) gB [(0, 0)] 0 gB = Some ([(0, 0)], v0, o0)" by blast
  from objB_planner_run obtain full mpc vc ob where
    r: "spiral_stc eE aopsR ops3 gB (0, 0) 0 objB = Some (full, mpc, vc, ob)" and n: "full \<noteq> [(0, 0)]"
    by blast
  from spiral_stc_relocation_not_connected [OF aopsR_extends f r n] r n show ?thesis by blast
qed

lemma objB_makePlan_run:
  "\<exists>plan met' ob. makePlan True (Some (gB, (0, 0), 0)) eE aopsR ops3 objB met0 = Some (True, plan, met', ob)"
  by (simp add: makePlan_def make_catalogue_def stc_eval_simps step_simps rel_cells_def del: concat_eq_Nil_conv)

theorem makePlan_metrics_bounds_witness:
  "\<exists>plan met' ob. makePlan True (Some (gB, (0, 0), 0)) eE aopsR ops3 objB met0 = Some (True, plan, met', ob)
     \<and> 0 \<le> accessible_counter met' \<and> visited_counter met' \<le> int (length plan)"
proof -
  from objB_makePlan_run obtain plan met' ob where
    r: "makePlan True (Some (gB, (0, 0), 0)) eE aopsR ops3 objB met0 = Some (True, plan, met', ob)" by blast
  from makePlan_metrics_bounds [OF aopsR_extends r] r show ?thesis by blast
qed

theorem visualizeGridlines_points_witness:
  "map_option m_points (visualizeGridlines envA)
     = Some [(0, 0, 0), (3, 0, 0), (0, 1, 0), (3, 1, 0), (0, 2, 0), (3, 2, 0), (0, 0, 0), (0, 1, 0)]"
  using visualizeGridlines_points [of envA]
  by (simp add: envA_def planner_grid_of_def row_line_def col_line_def upt_3)

theorem visualizeGridlines_wraps_witness: "visualizeGridlines envW = None"
  using visualizeGridlines_wraps [of envW] by (simp add: envW_def envA_def)

theorem visualizeGrid_cell_centres_witness:
  "map_option (\<lambda>m. map (\<lambda>p. (fst p, fst (snd p))) (m_points m)) (visualizeGrid envA gD ''grid_cubes'' 0.6 0 0 0)
     = Some [(0.5, 0.5), (1.5, 1.5)]"
proof -
  have h: "grid_dims gD 2 2" by (simp add: gD_def grid_dims_def)
  have c: "map (\<lambda>c. mapToWorld (planner_grid_of envA) (fst c) (snd c)) (filter (grid_at gD) (row_major 2 2))
             = [(0.5, 0.5), (1.5, 1.5)]"
    by (simp add: gD_def row_major_def grid_at_def mapToWorld_def planner_grid_of_def envA_def upt_2)
  show ?thesis using visualizeGrid_cell_centres [of gD 2 2 envA "''grid_cubes''" "0.6" 0 0 0] h c by simp
qed

theorem visualizeSpiral_roundtrip_witness:
  "map (\<lambda>p. worldToMapNoBounds (planner_grid_of envA) (fst p, fst (snd p)))
     (m_points (visualizeSpiral envA path3 ''first_spiral'' 0.2 0.5 0 0.6 0)) = path3"
  using visualizeSpiral_roundtrip [of envA path3] by (simp add: envA_def)

theorem visited_copy_resize_undefined_witness:
  "visualizeGrid envA (visited_copy (stc_setup objV (replicate 2 (replicate 2 False)))) ''visited_cubes_copy'' 0.3 0 0.8 0
     = None"
  using visited_copy_resize_undefined [of objV 1 3 "replicate 2 (replicate 2 False)" envA]
  by (simp add: objV_def)

theorem configure_defaults_witness:
  "\<exists>s'. configure plug0 Map.empty ''planner'' ''map'' = Inr s' \<and> initialized s' \<and> node_set s'
        \<and> cfg_vehicle_width s' = 1.1 \<and> cfg_division_factor s' = 3 \<and> cfg_manoeuvre_resolution s' = 100
        \<and> plan_pub s' = Some False \<and> grid_pub s' = Some False \<and> spirals_pub s' = Some False"
  using configure_defaults [of plug0 "''planner''" "''map''"] by (simp add: plug0_def)

lemma plug0_configured:
  "\<exists>s1. configure plug0 Map.empty ''planner'' ''map'' = Inr s1 \<and> initialized s1 \<and> plugin_name s1 = ''planner''"
  by (simp add: configure_def Let_def plug0_def declare_parameter_if_not_declared_def get_double_def get_int_def)

theorem lc_run_configuration_frozen_witness:
  "\<exists>s1 s2. configure plug0 Map.empty ''planner'' ''map'' = Inr s1
     \<and> lc_run s1 [Cleanup, Configure [''other.vehicle_width'' \<mapsto> PDouble 2] ''other'' ''odom''] = Inr s2
     \<and> plugin_name s2 = ''planner''"
proof -
  from plug0_configured obtain s1 where
    c: "configure plug0 Map.empty ''planner'' ''map'' = Inr s1" and i: "initialized s1" and n: "plugin_name s1 = ''planner''"
    by blast
  have r: "lc_run s1 [Cleanup, Configure [''other.vehicle_width'' \<mapsto> PDouble 2] ''other'' ''odom''] = Inr s1"
    using i by (simp add: cleanup_def configure_def)
  from lc_run_configuration_frozen [OF r i] c r n show ?thesis by (auto simp: plugin_config_def)
qed

theorem plan_pub_never_active_witness:
  "\<exists>s. lc_run plug0 [Configure Map.empty ''planner'' ''map'', Activate] = Inr s
        \<and> grid_pub s = Some True \<and> plan_pub s \<noteq> Some True"
proof -
  obtain s where r: "lc_run plug0 [Configure Map.empty ''planner'' ''map'', Activate] = Inr s"
    and g: "grid_pub s = Some True"
    by (simp add: configure_def Let_def plug0_def declare_parameter_if_not_declared_def get_double_def
                  get_int_def activate_def)
  have "lc_reach plug0" by (rule lc_reach.start) (simp add: constructed_def plug0_def)
  from plan_pub_never_active [OF lc_run_reach [OF this r]] r g show ?thesis by blast
qed

theorem managed_lifecycle_no_error_witness:
  "\<exists>s'. lc_run plug0 [Configure Map.empty ''planner'' ''map'', Activate, Deactivate, Cleanup,
                      Configure Map.empty ''planner'' ''map'', Activate] = Inr s'"
  using managed_lifecycle_no_error [of plug0 "[Configure Map.empty ''planner'' ''map'', Activate, Deactivate, Cleanup,
                      Configure Map.empty ''planner'' ''map'', Activate]"]
  by (simp add: constructed_def plug0_def overrides_typed_def)

theorem createPlan_unconfigured_witness:
  "createPlan plug0 (Some (g3, (0, 0), 0)) e1 aopsR ops3 obj3 met0 = Some (Inl (NullPointer ''node_''))"
  using createPlan_unconfigured [of plug0] by (simp add: constructed_def plug0_def)

theorem astar_loop_relocator_one_step_witness:
  "astar_loop eE (relocator_ops 3 1) g31 0 (map_2_goals v31 eNodeOpen) [(0, 0)] v31
     = astar_loop eE (one_step_ops 3 1) g31 0 (map_2_goals v31 eNodeOpen) [(0, 0)] v31
   \<and> astar_loop eE (one_step_ops 3 1) g31 0 (map_2_goals v31 eNodeOpen) [(0, 0)] v31 = Some (True, [(0, 0)], v31)
   \<and> (2, 0) \<in> set (map_2_goals v31 eNodeOpen)"
proof -
  have d: "grid_dims v31 3 1" by (simp add: v31_def grid_dims_def)
  from astar_loop_relocator_one_step [OF d d, of eE g31 0 "[(0, 0)]"]
  have "astar_loop eE (relocator_ops 3 1) g31 0 (map_2_goals v31 eNodeOpen) [(0, 0)] v31
          = astar_loop eE (one_step_ops 3 1) g31 0 (map_2_goals v31 eNodeOpen) [(0, 0)] v31" by simp
  moreover have "astar_loop eE (one_step_ops 3 1) g31 0 (map_2_goals v31 eNodeOpen) [(0, 0)] v31
                   = Some (True, [(0, 0)], v31)"
    by (simp add: astar_loop_unfold one_step_ops_def one_step_relocation_def neighbours_def passable_def
                  in_dims_def grid_at_def v31_def g31_def)
  moreover have "(2, 0) \<in> set (map_2_goals v31 eNodeOpen)"
    by (simp add: map_2_goals_def v31_def upt_3)
  ultimately show ?thesis by simp
qed

lemma sR_relocates: "\<exists>s'. stc_step eE (relocator_ops 3 3) ops3 gB 0 sR = Some (Inr s')"
  by (simp add: stc_step_def sR_def sJ_def astar_loop.simps relocator_ops_def a_star_to_open_space_def
      bfs.simps expand_def neighbours_def passable_def in_dims_def row_key_def map_2_goals_def upt_3
      a_star_accepted_def end_footprint_def step_simps eE_def e1_def objB_def gB_def vB_def mark_counting_def
      spiral_def computeFootprintCells_def footprint_corners_def transformFootprint_def part_polygon_def
      convexFillCells_def sort_unique_cells_def spiral_loop.simps)

theorem stc_step_relocates_to_neighbour_witness:
  "\<exists>s'. stc_step eE (relocator_ops 3 3) ops3 gB 0 sR = Some (Inr s')
        \<and> 2 \<le> length (sc_path s') \<and> adjacent (0, 0) (sc_path s' ! 1)"
proof -
  from sR_relocates obtain s' where st: "stc_step eE (relocator_ops 3 3) ops3 gB 0 sR = Some (Inr s')" by blast
  have d: "grid_dims (sc_visited sR) 3 3" by (simp add: sR_def sJ_def vB_dims)
  have g: "sc_goals sR = map_2_goals (sc_visited sR) eNodeOpen" by (simp add: sR_def sJ_def)
  from stc_step_relocates_to_neighbour [OF st d g] st show ?thesis by (auto simp: sR_def sJ_def)
qed

lemma upt_4: "[0..<4] = [0, 1, 2, 3::nat]"
  by (simp add: upt_rec)

lemma omA_lethal:
  "filter (grid_at (om_lethal omA)) (row_major (size_x (om_costmap omA)) (size_y (om_costmap omA))) = [(3, 0)]"
  by (simp add: row_major_def upt_4 upt_2 grid_at_def omA_def)

lemma downsample_omA: "downsample omA 2 = [[False, True]]"
  unfolding downsample_def Let_def omA_lethal
  by (simp add: coverage_cell_of_eq coverage_costmap_def omA_def upt_2)

lemma coverage_costmap_omA:
  "coverage_costmap (om_costmap omA) 2 = \<lparr>size_x = 2, size_y = 1, resolution = 2, origin_x = 0, origin_y = 0\<rparr>"
  by (simp add: coverage_costmap_def omA_def)

lemmas parse_eval_simps = parseGrid_def Let_def downsample_omA coverage_costmap_omA worldToMapNoBounds_def
  grid_at_def in_dims_def grid_dims_def

lemma omA_parse: "parseGrid omA 2 2 ((1 / 2, 1 / 2), 0) = Inr ([[False, True]], (0, 0), 0)"
  by (simp add: parse_eval_simps)

theorem stc_loop_visited_mono_witness:
  "\<exists>s'. stc_loop eE aopsR ops3 gB 0 sJ = Some s' \<and> grid_at (sc_visited s') (0, 0)"
proof -
  have "\<exists>s'. stc_loop eE aopsR ops3 gB 0 sJ = Some s'"
    by (simp add: stc_eval_simps step_simps sJ_def del: concat_eq_Nil_conv)
  then obtain s' where r: "stc_loop eE aopsR ops3 gB 0 sJ = Some s'" by blast
  have "grid_at (sc_visited sJ) (0, 0)" by (simp add: sJ_def vB_def gB_def g3_def grid_at_def grid_mark_def)
  from stc_loop_visited_mono [OF r this] r show ?thesis by blast
qed

theorem createPlan_start_blocked_witness:
  "makePlan True (parsed_input omA 2 ((7 / 2, 1 / 2), 0)) e1 aopsR ops3 obj3 met0 = Some (False, [], met0, obj3)
   \<and> createPlan_request plugP omA ((7 / 2, 1 / 2), 0) e1 aopsR ops3 obj3 met0 = Some (Inr (''map'', []))"
  using createPlan_start_blocked [of plugP omA "((7 / 2, 1 / 2), 0)" e1 aopsR ops3 obj3 met0]
  by (simp add: plugP_def plug0_def plan_tile_def parse_eval_simps)

theorem downsample_keeps_obstacles_witness:
  "map_bounds (planner_grid_of (parsed_viz_env envA omA 2))
     (worldToMapNoBounds (planner_grid_of (parsed_viz_env envA omA 2)) (mapToWorld (om_costmap omA) 3 0))
   \<and> grid_at [[False, True]]
     (worldToMapNoBounds (planner_grid_of (parsed_viz_env envA omA 2)) (mapToWorld (om_costmap omA) 3 0))"
proof -
  have "0 < resolution (om_costmap omA)" "in_dims (size_x (om_costmap omA)) (size_y (om_costmap omA)) (3, 0)"
    "grid_at (om_lethal omA) (3, 0)" by (simp_all add: omA_def in_dims_def grid_at_def)
  from downsample_keeps_obstacles [OF omA_parse this, of envA] show ?thesis by simp
qed

theorem as_written_collision_ignores_grid_witness:
  "man_grids (st_obj sW) = []
   \<and> (fst (attempt_dir (as_written_ops e1 True) gB 0 sW) = Collision \<longleftrightarrow> \<not> True)
   \<and> (fst (attempt_dir (as_written_ops e1 True) gB 0 sW) = Collision
        \<longleftrightarrow> fst (attempt_dir (as_written_ops e1 True) g3 0 sW) = Collision)
   \<and> man_grids (st_obj (snd (dir_loop (as_written_ops e1 True) gB 0 sW))) = []
   \<and> man_grids (make_catalogue e1 obj3) = man_grids obj3"
proof -
  have h: "man_grids (st_obj sW) = []" by (simp add: sW_def spiral_init_def Let_def obj3_def)
  from as_written_collision_ignores_grid [OF h, where e = e1 and fo = True and grid = gB and i = 0
         and grid' = g3 and obj = obj3] h
  show ?thesis by blast
qed

end
