(* ===== verification/Spec2Isabelle.thy ===== *)
theory Spec2Isabelle
  imports Examples
begin

text \<open>
  Verification development of the Spiral-STC full-coverage path planner, the nav2 global
  planner plugin \<open>SpiralSTC\<close> of \<open>src/src/spiral_stc.cpp\<close>.

  \<^bold>\<open>The program.\<close> \<open>makePlan\<close> builds the catalogue of relative manoeuvre cells and
  the coverage grid, then calls \<open>spiral_stc\<close>, which alternates spirals
  (\<open>SpiralSTC::spiral\<close>) with A* relocations to the nearest open cell. One spiral step
  tries the left, forward and right moves relative to the last step; a move is taken when
  its relative manoeuvre cells are on the grid, the vehicle cells are collision free
  (\<open>checkManoeuvreCollision\<close>), the tool cells it sweeps overlap the visited cells at
  most \<open>max_overlap_turn\<close> or \<open>max_overlap_forward\<close> times, and a left or right move is
  still possible from its end. The swept cells come from \<open>computeManoeuvreFootprint\<close>,
  built on \<open>computeFootprintCells\<close> and the geometry helpers \<open>rotatePoint\<close> and
  \<open>checkMapBounds\<close>. Around the planner, the plugin's lifecycle handlers configure it
  from node parameters and create its publishers, \<open>createPlan\<close> wraps \<open>makePlan\<close>,
  and the visualisation functions build the RViz markers of the grid, the covered cells and
  the spirals.

  \<^bold>\<open>Theories.\<close>
  \<^item> \<open>Coverage_Prelude\<close>: cells, boolean grids indexed \<open>[y][x]\<close> (\<open>grid_at\<close>,
    \<open>grid_mark\<close>, \<open>mark_cells\<close>), 4-connected paths, the count of open cells
    \<open>open_count\<close>, and the \<open>grid_simps\<close> collection.
  \<^item> \<open>Costmap_Grid\<close>: the costmap operations of nav2 the planner calls
    (\<open>mapToWorld\<close>, \<open>worldToMapNoBounds\<close>, \<open>getIndex\<close>, \<open>indexToCells\<close>, modelled from
    the specification since nav2 is not part of the repository) and
    \<open>SpiralSTC::checkMapBounds\<close> (lines 791--798). Lemmas: the bounds test is the grid
    rectangle; the index conversions are inverse; a cell centre maps back to its cell.
  \<^item> \<open>Geometry\<close>: \<open>atan2\<close>, nav2's \<open>transformFootprint\<close>, \<open>SpiralSTC::rotatePoint\<close>
    (lines 779--789). Refinement lemma \<open>rotatePoint_unit\<close>: for the headings of unit grid
    steps, the floating-point rotation about a cell centre is exact integer rotation; the
    spiral's claim C11 rests on it.
  \<^item> \<open>Footprint\<close>: \<open>computeFootprintCells\<close> (581--653), \<open>manoeuvre_cells\<close> and
    \<open>computeManoeuvreFootprint\<close> (655--777) with \<open>yaw_difference\<close> and the intermediate
    yaws; the planner object \<open>SpiralSTC\<close> as the record \<open>stc_obj\<close> of the members these
    functions touch. Claims C6--C8.
  \<^item> \<open>Spiral\<close>: \<open>SpiralSTC::spiral\<close> (105--304) and \<open>checkManoeuvreCollision\<close>
    (800--809). The loop state \<open>spiral_state\<close> holds the locals of \<open>spiral\<close>; one
    iteration of the direction loop is \<open>attempt_dir\<close>, the direction loop \<open>dir_loop\<close>
    (a \<open>function\<close> terminating on \<open>3 - i\<close>), the \<open>while (!done)\<close> loop the
    \<open>partial_function (option)\<close> \<open>spiral_loop\<close>, whose value \<open>None\<close> is
    non-termination. The collaborators (tool manoeuvre, initial tool footprint, the value
    of the missing \<open>return\<close>) are the parameter record \<open>spiral_ops\<close>, so that the
    theorems hold for every wiring that satisfies the stated conditions. Claims C1, C2,
    C4, C11, C17.
  \<^item> \<open>Spiral_As_Written\<close>: the wiring of the source (\<open>as_written_ops\<close>), in which
    \<open>computeManoeuvreFootprint\<close> never fills its output parameter. Claim C3.
  \<^item> \<open>Planner\<close>: \<open>SpiralSTC::makePlan\<close> (466--578) with its manoeuvre catalogue
    \<open>make_catalogue\<close> (497--546) and its metrics \<open>spiral_cpp_metrics\<close>, and \<open>SpiralSTC::spiral_stc\<close> (306--464): the set-up
    \<open>stc_setup\<close> (the \<open>visited_copy\<close> resize), the relocation loop
    \<open>while (!accept_a_star)\<close> as the partial function \<open>astar_loop\<close> with its end-footprint
    test \<open>a_star_accepted\<close>, one round of \<open>while (goals.size() != 0)\<close> as
    \<open>stc_step\<close> (\<open>Inl\<close>: the loop exits, \<open>Inr\<close>: it goes on) and the loop as the
    partial function \<open>stc_loop\<close>, whose state \<open>stc_state\<close> holds the locals
    (\<open>path_nodes\<close>, \<open>visited\<close>, \<open>goals\<close>, \<open>full_path\<close>, the two counters) and
    the object. The search \<open>a_star_to_open_space\<close> and \<open>map_2_goals\<close> belong to the
    base class, outside \<open>src/\<close>: the search is the parameter \<open>stc_ops\<close> with the two
    contracts of the specification (\<open>a_star_extends\<close>, \<open>a_star_progress\<close>), the goal
    list is modelled from the specification. Generic rules \<open>astar_loop_preserves\<close> and
    \<open>stc_loop_rule\<close> carry invariants through the two loops. Claims C5, C9, C10,
    C12--C16, C23, C31.
  \<^item> \<open>Visualisation\<close>: \<open>cubeMarker\<close>, \<open>lineStrip\<close>, \<open>visualizeGridlines\<close>,
    \<open>visualizeGrid\<close>, \<open>visualizeSpiral\<close> (lines 815--930), each returning the marker
    it publishes, and the planner grid \<open>planner_grid_of\<close> that \<open>makePlan\<close> sizes
    (line 491). The two \<open>uint32_t\<close> loops of \<open>visualizeGridlines\<close> are one partial
    function \<open>lines_loop\<close> over a \<open>32 word\<close> counter. Claims C18--C21.
  \<^item> \<open>Plugin\<close>: the lifecycle handlers \<open>configure\<close>, \<open>activate\<close>,
    \<open>deactivate\<close>, \<open>cleanup\<close> (lines 25--90) over the record \<open>plugin\<close>, and
    \<open>createPlan\<close> (92--103) composed with \<open>makePlan\<close>. The events are a datatype,
    \<open>lc_step\<close> dispatches them, \<open>lc_run\<close> runs a sequence, \<open>lc_reach\<close> (an
    inductive predicate) is reachability from construction, and \<open>managed\<close> is the order
    the lifecycle manager allows. Null pointers are \<open>None\<close>, their dereference the error
    value \<open>NullPointer\<close>. Also the composition of \<open>spiral_stc\<close>'s resize of the
    member \<open>visited_copy\<close> with \<open>visualizeGrid\<close>. Claims C22, C24--C28.
  \<^item> \<open>Relocator\<close>: the relocation search \<open>a_star_to_open_space\<close> of the base class,
    modelled from the specification: a breadth-first search \<open>bfs\<close> (a \<open>function\<close>
    terminating on the number of unseen passable cells) over layers built by \<open>expand\<close>,
    with the row-major tie-break, plugged into \<open>spiral_stc\<close> as \<open>relocator_ops\<close>.
    It implements the interface \<open>stc_ops\<close>: the lemma \<open>relocator_contracts\<close>
    discharges the contracts the planner theory assumes. Claims C29, C30.
  \<^item> \<open>Grid_Parse\<close>: the call of the base class's \<open>parseGrid\<close> in \<open>makePlan\<close>
    (lines 481--489), with \<open>parseGrid\<close> modelled from the specification's GridModel:
    \<open>coverage_costmap\<close> (origin of the costmap, cells of side \<open>tile\<close>,
    \<open>ceil(size / tile)\<close> columns and rows), \<open>downsample\<close> (a cell is blocked when the
    centre of an occupied costmap cell lies in it) and the failures \<open>GridParseFailed\<close> and
    \<open>StartBlocked\<close> as \<open>Inl\<close> values of \<open>parse_error\<close>; the members it sets, read back
    at line 491 (\<open>parsed_viz_env\<close>); the tile \<open>vehicle_width_/division_factor_\<close>
    (\<open>plan_tile\<close>); and \<open>createPlan\<close> on a costmap (\<open>createPlan_request\<close>). Lemmas:
    the cells of the downsampled grid, the floor/ceiling bound that keeps every costmap
    cell centre on the coverage grid. Claims C32, C33.
  \<^item> \<open>Examples\<close>: concrete grids, objects, searches, plugin states and map sizes, the
    evaluation of a full 3-by-3 spiral and of a planner call by bounded unfolding, and the
    witnesses of the claims.

  \<^bold>\<open>What the lemmas show.\<close> The spiral path stays 4-connected and extends its seed (C1);
  every accepted step respects its overlap bound and marks
  exactly the swept tool cells (C2); coverage is monotone (C4); after the seed, each step turns left, goes straight or
  turns right, never back (C17). As written, however, the
  spiral never marks a cell, turns left at every step and does not return, or, depending
  on the undefined return value of \<open>checkManoeuvreCollision\<close>, never moves (C3). The
  vehicle collision check is dead in that wiring: nothing writes the member
  \<open>man_grids\<close> it reads, so from the constructed object every direction's collision
  outcome is the missing \<open>return\<close>'s value whatever the obstacles (C5). The
  footprint engine returns the newly swept cells, distinct and in row-major order (C6);
  its rotation choice is the short arc for the planner's unit moves (C7); it samples \<open>manoeuvre_resolution - 2\<close> intermediate orientations,
  the last of which is the target (C8). For unit-step headings \<open>rotatePoint\<close>
  refines to exact integer rotation (C11).
  At the planner level: no call of \<open>makePlan\<close> returns, because the catalogue it builds
  is empty (C9); every relocation repeats the junction cell in the output path, against
  the specification's 4-connectivity (C10); \<open>visited_copy\<close> is sized transposed (C12);
  the \<open>spiral_counter\<close> debug break stops the first call after one relocation (C13) and,
  the member never being reset, never fires again (C14); and the relocation loop ends under the search's contract, by
  induction on the open cells (C15). For any search that extends \<open>path_nodes\<close>, the full
  path of \<open>spiral_stc\<close> is 4-connected only when it is the first spiral alone: after one
  relocation it repeats a cell (C16). \<open>makePlan\<close>'s metrics satisfy
  \<open>0 \<le> accessible_counter\<close> and \<open>visited_counter \<le> |plan|\<close> (C23). Coverage
  is monotone over the whole coverage loop, relocations included (C31).

  Visualisation: the grid lines are counted with the map's sizes swapped, one horizontal line
  per column and one vertical line per row (C18), and on a map wider than \<open>2^32 - 1\<close>
  tiles the \<open>uint32_t\<close> counter wraps and the loop does not end (C19); the cubes are the
  \<open>mapToWorld\<close> centres of exactly the marked cells in row-major order (C20); the spiral
  polyline converts back to its cells (C21); \<open>visualizeGrid\<close> reads past a row of a ragged grid,
  which the member \<open>visited_copy\<close> becomes after calls on grids of different shapes (C22).

  Lifecycle: \<open>configure\<close> reads the defaults 1.1, 3 and 100 (C24); the configuration is
  frozen at the first \<open>configure\<close>, since \<open>cleanup\<close> does not reset
  \<open>initialized_\<close> (C25); the plan publisher is never activated (C26); in the manager's
  order no handler fails (C27); and \<open>createPlan\<close> before \<open>configure\<close> dereferences the
  null \<open>node_\<close> although \<open>makePlan\<close> returns early (C28).

  Relocation: the specification's search meets both contracts the planner theorems assume
  (lemma \<open>relocator_contracts\<close>), so C10, C15, C16 and C23 hold for it. Run inside the
  relocation loop with the goals \<open>spiral_stc\<close> passes, it computes the same as a one-step
  lookup among the four neighbours, because visited cells are impassable and every passable
  cell is a goal (C29); so every continuing round of the coverage loop starts its next
  spiral next to the end of the last one (C30).

  Parsing: a start off the grid or on a blocked cell makes \<open>makePlan\<close> return \<open>false\<close>
  and \<open>createPlan\<close> return an empty path with no error, where the specification aborts
  with \<open>StartBlocked\<close> (C32);
  every occupied costmap cell's centre falls on a blocked cell of the parsed grid, inside
  \<open>planner_grid\<close>'s bounds (C33).

  \<^bold>\<open>Bounds and fuel.\<close> No fuel is used: \<open>dir_loop\<close> is bounded by its three directions;
  \<open>spiral_loop\<close>, \<open>astar_loop\<close>, \<open>stc_loop\<close> and \<open>lines_loop\<close> are partial
  functions into \<open>option\<close>; the search \<open>bfs\<close> is total, by a measure. The counter of \<open>lines_loop\<close> is a \<open>32 word\<close>, so its
  wrap-around is modelled: it returns when the ceiling of its bound is below \<open>2^32\<close> and
  diverges when the bound exceeds \<open>2^32 - 1\<close>. Termination is proved where it holds (C15
  under the search's contract, C18) and non-termination
  where it does not (C3, C9, C19). Geometry is
  over \<open>real\<close>; \<open>int\<close> casts of the source (\<open>static_cast<uint>\<close> after a bounds
  check) are the identity on the cells they are applied to.

  \<^bold>\<open>Not modelled.\<close> The constructor and destructor only log. The publishing of
  markers and of the plan is I/O: the model returns the markers and the plan. The base
  class is outside \<open>src/\<close>: \<open>parseGrid\<close>, \<open>map_2_goals\<close> and the relocation
  search are modelled from the specification (the planner theorems are stated over the
  search's contracts, which the specification's search meets); \<open>parsePointlist2Plan\<close>
  and \<open>publishPlan\<close> are not, since the specification does not describe them: the plan
  is the cell list they convert and publish. What \<open>parseGrid\<close> does with its first
  radius parameter is not specified; the only call passes the same value for both, and the
  model uses it as the cell size. The node parameter calls of rclcpp and nav2_util are modelled
  from their documented behaviour. The planner grid's resize is modelled but not threaded
  into the footprint environment of \<open>makePlan\<close>. The rasterisation of nav2's
  \<open>convexFillCells\<close> is a parameter (its guard is modelled). Floating point is modelled
  as \<open>real\<close>, \<open>float\<close> arguments of the marker functions included.
  Two nav2 operations are modelled as the specification states them, not as nav2 implements
  them: \<open>worldToMapNoBounds\<close> is floor division (the specification's GridModel), where nav2
  casts with \<open>(int)\<close> and so truncates toward zero, which differs only for points left of
  or below the origin; and the costmap's size in metres is \<open>size * resolution\<close> (the
  specification's map width), where nav2's \<open>getSizeInMetersX\<close> is
  \<open>(size - 0.5) * resolution\<close>, under which line 491 can size \<open>planner_grid\<close> one cell
  smaller than the parsed grid when the tile is not a multiple of the resolution.
\<close>

end
